theory Spec2Isabelle
  imports Complex_Main "HOL-Library.Sublist"
begin

section \<open>Python values, strings and exceptions\<close>

text \<open>
  Strings are lists of characters; a character stands for a Unicode code point below 256
  (the Latin-1 range), which is what \<^typ>\<open>char\<close> holds. The character classes below are
  Python's Unicode classes restricted to that range. Numbers are real numbers: the model
  reads Python's floats as the reals they approximate.
\<close>

datatype pyval =
    PNone
  | PBool bool
  | PNum real
  | PStr string
  | PList "pyval list"
  | PDict "(string \<times> pyval) list"

text \<open>Python's truth value of an object (\<open>if x:\<close>).\<close>

fun truthy :: "pyval \<Rightarrow> bool" where
  "truthy PNone = False"
| "truthy (PBool b) = b"
| "truthy (PNum x) = (x \<noteq> 0)"
| "truthy (PStr s) = (s \<noteq> [])"
| "truthy (PList xs) = (xs \<noteq> [])"
| "truthy (PDict kvs) = (kvs \<noteq> [])"

text \<open>
  Exceptions, by the class the handlers look at and the data that tells two of them apart.
  \<open>LibraryError\<close> is an exception raised inside the tokenizer, the classifier or the HTTP
  library that is neither a timeout nor another \<open>RequestException\<close>. The text \<open>str(e)\<close>
  of an exception belongs to the interpreter and the libraries; the functions that print it
  take the rendering as a parameter \<open>str_exn\<close>.
\<close>

datatype exn =
    Timeout
  | RequestException string
  | JSONDecodeError
  | LibraryError string
  | IndexError nat nat
  | ListIndexError
  | KeyError pyval
  | UnboundLocalError string
  | TypeError string
  | AttributeError string

fun is_space :: "char \<Rightarrow> bool" where
  "is_space c = (let n = (of_char c :: nat) in
     (9 \<le> n \<and> n \<le> 13) \<or> (28 \<le> n \<and> n \<le> 32) \<or> n = 133 \<or> n = 160)"

declare is_space.simps [simp del]

text \<open>\<open>str.lower()\<close>: the upper-case letters below 256 are A-Z, 192-214 and 216-222.\<close>

fun lower_char :: "char \<Rightarrow> char" where
  "lower_char c = (let n = (of_char c :: nat) in
     if (65 \<le> n \<and> n \<le> 90) \<or> (192 \<le> n \<and> n \<le> 214) \<or> (216 \<le> n \<and> n \<le> 222)
     then char_of (n + 32) else c)"

definition lower :: "string \<Rightarrow> string" where
  "lower s = map lower_char s"

text \<open>
  \<open>str.title()\<close>, used on label names only (ASCII): a letter is upper-cased when the
  character before it is not a letter, and lower-cased otherwise.
\<close>

fun is_ascii_letter :: "char \<Rightarrow> bool" where
  "is_ascii_letter c = (let n = (of_char c :: nat) in
     (65 \<le> n \<and> n \<le> 90) \<or> (97 \<le> n \<and> n \<le> 122))"

fun upper_ascii :: "char \<Rightarrow> char" where
  "upper_ascii c = (let n = (of_char c :: nat) in
     if 97 \<le> n \<and> n \<le> 122 then char_of (n - 32) else c)"

fun title_from :: "bool \<Rightarrow> string \<Rightarrow> string" where
  "title_from prev_cased [] = []"
| "title_from prev_cased (c # cs) =
     (if prev_cased then lower_char c else upper_ascii c) # title_from (is_ascii_letter c) cs"

definition title :: "string \<Rightarrow> string" where
  "title s = title_from False s"

text \<open>\<open>a in b\<close> on two strings is \<^term>\<open>sublist a b\<close>: \<open>a\<close> occurs contiguously in \<open>b\<close>.\<close>

text \<open>\<open>s.replace(a, b)\<close> for single characters.\<close>

definition replace_char :: "char \<Rightarrow> char \<Rightarrow> string \<Rightarrow> string" where
  "replace_char a b s = map (\<lambda>c. if c = a then b else c) s"

text \<open>\<open>s.strip()\<close>, \<open>s.split()\<close> and \<open>' '.join(ws)\<close>.\<close>

definition strip :: "string \<Rightarrow> string" where
  "strip s = rev (dropWhile is_space (rev (dropWhile is_space s)))"

fun split_from :: "string \<Rightarrow> string \<Rightarrow> string list" where
  "split_from cur [] = (if cur = [] then [] else [cur])"
| "split_from cur (c # cs) =
     (if is_space c then (if cur = [] then split_from [] cs else cur # split_from [] cs)
      else split_from (cur @ [c]) cs)"

definition split :: "string \<Rightarrow> string list" where
  "split s = split_from [] s"

fun join_space :: "string list \<Rightarrow> string" where
  "join_space [] = []"
| "join_space [w] = w"
| "join_space (w # ws) = w @ '' '' @ join_space ws"

section \<open>Domain gate\<close>

text \<open>
  \<open>sanitize_prompt\<close>: the empty string for a false or non-string argument, otherwise the
  words of the prompt joined by single spaces.
\<close>

fun sanitize_prompt :: "pyval \<Rightarrow> string" where
  "sanitize_prompt (PStr s) = (if s = [] then [] else join_space (split (strip s)))"
| "sanitize_prompt v = []"

text \<open>
  The patterns of \<open>is_living_room_related\<close> use three constructs: \<open>\b\<close>, a literal and
  \<open>\s*\<close>. \<open>re.search\<close> asks whether the pattern matches at some position. A word
  character (\<open>\w\<close>) is an alphanumeric character or the underscore.
\<close>

datatype tok = WordB | Lit string | SpaceStar

fun is_word_char :: "char \<Rightarrow> bool" where
  "is_word_char c = (let n = (of_char c :: nat) in
     (48 \<le> n \<and> n \<le> 57) \<or> (65 \<le> n \<and> n \<le> 90) \<or> n = 95 \<or> (97 \<le> n \<and> n \<le> 122)
     \<or> n = 170 \<or> n = 178 \<or> n = 179 \<or> n = 181 \<or> n = 185 \<or> n = 186
     \<or> (188 \<le> n \<and> n \<le> 190) \<or> (192 \<le> n \<and> n \<le> 214) \<or> (216 \<le> n \<and> n \<le> 246)
     \<or> 248 \<le> n)"

text \<open>\<open>\b\<close> between the character before (if any) and the rest of the string.\<close>

fun word_boundary :: "char option \<Rightarrow> string \<Rightarrow> bool" where
  "word_boundary prev rest =
     ((case prev of None \<Rightarrow> False | Some c \<Rightarrow> is_word_char c)
      \<noteq> (case rest of [] \<Rightarrow> False | c # _ \<Rightarrow> is_word_char c))"

function match_here :: "tok list \<Rightarrow> char option \<Rightarrow> string \<Rightarrow> bool" where
  "match_here [] prev rest = True"
| "match_here (WordB # ts) prev rest = (word_boundary prev rest \<and> match_here ts prev rest)"
| "match_here (Lit w # ts) prev rest =
     (prefix w rest \<and>
      match_here ts (if w = [] then prev else Some (last w)) (drop (length w) rest))"
| "match_here (SpaceStar # ts) prev [] = match_here ts prev []"
| "match_here (SpaceStar # ts) prev (c # cs) =
     ((is_space c \<and> match_here (SpaceStar # ts) (Some c) cs) \<or> match_here ts prev (c # cs))"
  by pat_completeness auto
termination
  by (relation "measures [(\<lambda>(ts, prev, rest). length rest), (\<lambda>(ts, prev, rest). length ts)]")
     auto

fun search_from :: "tok list \<Rightarrow> char option \<Rightarrow> string \<Rightarrow> bool" where
  "search_from ts prev [] = match_here ts prev []"
| "search_from ts prev (c # cs) = (match_here ts prev (c # cs) \<or> search_from ts (Some c) cs)"

definition re_search :: "tok list \<Rightarrow> string \<Rightarrow> bool" where
  "re_search ts s = search_from ts None s"

definition living_room_terms :: "tok list list" where
  "living_room_terms =
    [[WordB, Lit ''living'', SpaceStar, Lit ''room'', WordB],
     [WordB, Lit ''sitting'', SpaceStar, Lit ''room'', WordB],
     [WordB, Lit ''lounge'', WordB],
     [WordB, Lit ''family'', SpaceStar, Lit ''room'', WordB],
     [WordB, Lit ''living'', SpaceStar, Lit ''area'', WordB],
     [WordB, Lit ''sitting'', SpaceStar, Lit ''area'', WordB],
     [WordB, Lit ''common'', SpaceStar, Lit ''area'', WordB],
     [WordB, Lit ''front'', SpaceStar, Lit ''room'', WordB],
     [WordB, Lit ''parlor'', WordB],
     [WordB, Lit ''den'', WordB],
     [WordB, Lit ''great'', SpaceStar, Lit ''room'', WordB],
     [WordB, Lit ''reception'', SpaceStar, Lit ''room'', WordB]]"

definition is_living_room_related :: "string \<Rightarrow> bool" where
  "is_living_room_related prompt =
     (let prompt_lower = lower prompt in list_ex (\<lambda>t. re_search t prompt_lower) living_room_terms)"

section \<open>Style knowledge base\<close>

definition label_map :: "(nat \<times> string) list" where
  "label_map =
    [(0, ''coastal''), (1, ''industrial''), (2, ''mid-century_modern''), (3, ''modern''),
     (4, ''rustic''), (5, ''scandinavian''), (6, ''traditional'')]"

text \<open>
  \<open>STYLE_HINTS\<close>: style, then category, then the keywords in listed order. The association
  lists keep the insertion order that Python's dictionaries iterate in. Each style's entry
  of the literal is a constant of its own here.
\<close>

definition hints_modern :: "(string \<times> string list) list" where
  "hints_modern =
    [(''colors'',
      [''graphite gray'', ''beige'', ''chrome'', ''matte black'', ''cool taupe'',
       ''matte silver'', ''deep charcoal'', ''slate blue'', ''steel blue'', ''cool gray'']),
     (''furniture'',
      [''sleek sofa'', ''minimalist glass table'', ''contemporary armchair'',
       ''floating entertainment unit'', ''platform media unit'', ''slim sideboard'',
       ''glass console table'', ''modular sectional'', ''low-profile couch'',
       ''tempered glass table'', ''metal-framed chairs'', ''wall-mounted cabinet'',
       ''pivoting TV stand'']),
     (''materials'',
      [''carbon fiber'', ''metal'', ''high-gloss acrylic'', ''concrete'', ''smart fabric'',
       ''polished wood'', ''brushed steel'', ''engineered wood'', ''lacquered finish'',
       ''tempered glass'', ''high-gloss laminate'', ''smoked glass'', ''matte aluminum'']),
     (''lighting'',
      [''recessed lighting'', ''LED strips'', ''track-integrated LEDs'',
       ''smart panel lighting'', ''track lighting'', ''cove lighting'',
       ''minimalist chandelier'', ''spotlights'', ''wall-mounted LEDs'',
       ''strip lighting behind panels'', ''angular sconces'', ''indirect lighting'']),
     (''features'',
      [''frameless cabinets'', ''linear geometric accents'', ''AI-controlled systems'',
       ''large windows'', ''motion lighting'', ''minimal decoration'', ''smart home tech'',
       ''hidden storage'', ''glass partitions'', ''tech-integrated walls'',
       ''framed abstract art'', ''floor-to-ceiling panels'', ''built-in climate control'',
       ''seamless cabinetry'']),
     (''layout'',
      [''zoned open-plan layout'', ''balanced modern arrangement'', ''clutter-free design'',
       ''zoned space'', ''linear flow'', ''central focal point'',
       ''multi-use open concept'', ''asymmetrical furniture grouping'',
       ''floating layout zones'', ''expansive seating area''])]"

definition hints_industrial :: "(string \<times> string list) list" where
  "hints_industrial =
    [(''colors'',
      [''charcoal'', ''rust'', ''black'', ''brown'', ''steel gray'', ''raw concrete'']),
     (''furniture'',
      [''pipe-framed seating'', ''metal-top coffee cart'', ''factory cart'',
       ''pipe shelving'', ''vintage cabinet'', ''industrial bench'', ''steel wheel table'',
       ''rolling stools'', ''drafting desk'']),
     (''materials'',
      [''exposed brick'', ''riveted iron panels'', ''reclaimed wood'',
       ''grease-stained steel'', ''iron'', ''weathered leather'', ''copper accents'',
       ''metal mesh'', ''galvanized pipe'']),
     (''lighting'',
      [''Edison bulbs'', ''metal pendant lights'', ''factory lamps'',
       ''exposed conduit lighting'', ''industrial sconces'', ''wire cage lighting'',
       ''pulley fixtures'', ''warehouse chandelier'']),
     (''features'',
      [''exposed pipes'', ''high ceilings'', ''metal fixtures'', ''concrete floors'',
       ''open shelving'', ''raw textures'', ''rolling doors'', ''unfinished surfaces'',
       ''gear decor'']),
     (''layout'',
      [''loft-style openness'', ''open floor plan'', ''exposed beams'',
       ''spacious interior'', ''minimalist storage'', ''zoned workspaces'',
       ''gallery-style walls''])]"

definition hints_scandinavian :: "(string \<times> string list) list" where
  "hints_scandinavian =
    [(''colors'',
      [''white'', ''light gray'', ''pale blue'', ''mint green'', ''pastel shades'',
       ''soft beige'', ''clay pink'']),
     (''furniture'',
      [''simple sofa'', ''wooden armchair'', ''light oak table'', ''open wood shelving'',
       ''minimalist media unit'', ''simple storage units'', ''bean bag chair'',
       ''slim writing desk'', ''linen bench'']),
     (''materials'',
      [''light wood'', ''wool'', ''cotton'', ''natural fibers'', ''white painted surfaces'',
       ''felt'', ''bamboo'', ''linen blends'', ''oak veneer'']),
     (''lighting'',
      [''natural light'', ''simple hanging lights'', ''modern sconces'',
       ''minimal floor lamps'', ''white ceiling lights'', ''skylights'',
       ''clean-lined table lamps'', ''LED bulbs'', ''paper lanterns'']),
     (''features'',
      [''minimal decor'', ''plants'', ''natural textures'', ''functional design'',
       ''light wood floors'', ''modular furniture'', ''sculptural art pieces'',
       ''handwoven baskets'', ''wall pegs'', ''textile accents'']),
     (''layout'',
      [''airy modular layout'', ''clean lines and symmetry'', ''focus on functionality'',
       ''relaxing furniture arrangement'', ''adjustable layouts'', ''multi-purpose spaces'',
       ''natural light maximization''])]"

definition hints_rustic :: "(string \<times> string list) list" where
  "hints_rustic =
    [(''colors'',
      [''warm brown'', ''pine green'', ''deep red'', ''eggshell'', ''raw timber'',
       ''burnt orange'', ''amber'', ''moss green'', ''bark gray'']),
     (''furniture'',
      [''leather sofa'', ''log slab table'', ''rocking chair'', ''barn wood shelves'',
       ''vintage trunk'', ''antique armchairs'', ''aged timber bench'',
       ''pine dining table'', ''handcrafted stools'']),
     (''materials'',
      [''aged timber'', ''stone'', ''natural linen'', ''wrought iron'',
       ''natural textiles'', ''ceramic'', ''burlap'', ''rough cotton'']),
     (''lighting'',
      [''wrought iron chandelier'', ''lantern style lights'', ''wooden beam lighting'',
       ''iron wall sconces'', ''candlelight'', ''antique lamps'', ''mason jar lamps'']),
     (''features'',
      [''exposed beams'', ''stone fireplace'', ''wooden floors'', ''vintage decor'',
       ''raw nature accents'', ''woven baskets'', ''tree branch sculptures'',
       ''log mantels'', ''hand-hewn finishes'']),
     (''layout'',
      [''central fireplace focus'', ''country-style furniture'',
       ''relaxed seating arrangement'', ''emphasis on natural warmth'',
       ''open kitchen area'', ''family-friendly design'', ''rug-centered layout''])]"

definition hints_traditional :: "(string \<times> string list) list" where
  "hints_traditional =
    [(''colors'',
      [''burgundy'', ''navy'', ''forest green'', ''cream'', ''gold'', ''taupe'',
       ''mahogany'', ''warm beige'', ''dark wood tones'', ''rich brown'', ''royal blue'',
       ''antique white'', ''bronze'', ''sage green'', ''chocolate brown'']),
     (''furniture'',
      [''rolled arm sofa'', ''ornate wood table'', ''wingback chairs'',
       ''mahogany sideboard'', ''formal dining chairs'', ''cabriole legs'',
       ''tufted ottoman'', ''claw-foot table'', ''Queen Anne chairs'',
       ''carved wood console'', ''chesterfield sofa'',
       (''berg'' @ [CHR 0xE8] @ ''re chair''), ''secretary desk'', ''china cabinet'',
       ''upholstered bench'']),
     (''materials'',
      [''dark woods'', ''silk'', ''damask fabrics'', ''cherry wood'', ''velvet'',
       ''marble'', ''embossed leather'', ''brocade'', ''walnut wood'',
       ''embroidered fabrics'', ''taffeta'', ''oriental rugs'', ''brass hardware'',
       ''crystal accents'', ''polished bronze'']),
     (''lighting'',
      [''crystal chandeliers'', ''wall sconces'', ''table lamps with shades'',
       ''brass fixtures'', ''ornate ceiling fixtures'', ''candelabra lights'',
       ''tiffany lamps'', ''pleated shade lamps'', ''gilded floor lamps'',
       ''library reading lamps'']),
     (''features'',
      [''crown molding'', ''arched doorways'', ''wainscoting'', ''drapery panels'',
       ''fireplace mantels'', ''antique accents'', ''ceiling medallions'',
       ''built-in bookcases'', ''decorative pillars'', ''tray ceilings'',
       ''picture frame molding'', ''oriental carpets'', ''oil paintings'', ''gilt mirrors'',
       ''carved woodwork'']),
     (''layout'',
      [''symmetrical layout'', ''formal arrangement'',
       ''central fireplace or artwork focus'', ''defined conversation zones'',
       ''grand entrance focus'', ''balanced furniture pairs'', ''formal dining setup'',
       ''classical proportions''])]"

definition hints_mid_century_modern :: "(string \<times> string list) list" where
  "hints_mid_century_modern =
    [(''colors'',
      [''mustard'', ''olive green'', ''burnt orange'', ''aqua'', ''walnut brown'',
       ''off-white'', ''teal blue'', ''harvest gold'', ''avocado green'', ''tangerine'',
       ''mocha brown'', ''seafoam green'', ''dusty rose'', ''earthy terracotta'',
       ''sage green'', ''warm gray'', ''deep turquoise'', ''muted coral'']),
     (''furniture'',
      [''Eames lounge chair'', ''tapered leg sofa'', ''organic teak table'', ''credenza'',
       ''arc floor lamp'', ''tulip chair'', ''egg chair'', ''butterfly chair'',
       ''danish sideboard'', ''sculptural dining table'', ''molded plastic chairs'',
       ''floating cabinet'', ''platform bench'', ''womb chair'', ''bar cart'',
       ''shell chairs'']),
     (''materials'',
      [''walnut veneer'', ''teak'', ''tanned leather'', ''brass'', ''fiberglass'',
       ''glass'', ''rosewood'', ''bent plywood'', ''molded plastic'', ''chrome'',
       ''patterned vinyl'', ''brushed steel'', ''oak veneer'', ''aluminum'',
       ''textured upholstery'', ''stainless steel'', ''cork'']),
     (''lighting'',
      [''tripod lamps'', ''sputnik chandeliers'', ''globe pendants'', ''mod floor lamps'',
       ''atomic sconces'', ''starburst fixtures'', ''mushroom lamps'',
       ''geometric pendants'', ''bubble lamps'', ''cone wall sconces'',
       ''space-age lighting'', ''sculptural desk lamps'', ''brass accent lights'']),
     (''features'',
      [''sunken rooms'', ''wall paneling'', ''modular storage'', ''built-ins'',
       ''abstract art'', ''geometric patterns'', ''floating fireplaces'',
       ''conversation pits'', ''room dividers'', ''wood slat walls'', ''terrazzo floors'',
       ''graphic wallpaper'', ''atomic motifs'', ''indoor planters'', ''statement clocks'',
       ''period artwork'']),
     (''layout'',
      [''low-profile open design'', ''accent-walled zones'',
       ''natural light centered design'', ''split-level layout'', ''indoor-outdoor flow'',
       ''angular divisions'', ''conversation areas'', ''minimal space planning'',
       ''layered lighting'', ''floating room dividers''])]"

definition hints_coastal :: "(string \<times> string list) list" where
  "hints_coastal =
    [(''colors'',
      [''ocean blue'', ''sandy beige'', ''seafoam green'', ''pearl white'', ''coral pink'',
       ''light gray'', ''turquoise'', ''navy blue'', ''driftwood gray'', ''shell pink'',
       ''aqua'', ''sea glass green'', ''warm sand'', ''pale yellow'', ''coastal fog'',
       ''azure blue'', ''beach grass green'']),
     (''furniture'',
      [''slipcovered sofa'', ''wicker armchair'', ''nautical center table'',
       ''rattan seating'', ''bamboo console'', ''adirondack chair'', ''rope accent chair'',
       ''weathered bench'', ''seagrass ottoman'', ''white media cabinet'',
       ''woven side tables'', ''driftwood furniture'', ''coastal storage unit'',
       ''beach house sectional'', ''wicker trunk'', ''bamboo screen'']),
     (''materials'',
      [''wicker'', ''rattan'', ''seagrass'', ''whitewashed wood'', ''jute'',
       ''linen canvas'', ''cotton canvas'', ''weathered wood'', ''rope'', ''woven bamboo'',
       ''sisal'', ''distressed wood'', ''natural fiber'', ''painted wood'',
       ''bleached wood'', ''grasscloth'', ''sea glass'']),
     (''lighting'',
      [''rope pendant lights'', ''coastal chandeliers'', ''woven basket lights'',
       ''glass bottle lamps'', ''driftwood sconces'', ''nautical wall lights'',
       ''capiz shell fixtures'', ''lantern lights'', ''rattan pendants'',
       ''seagrass shade lamps'', ''fisherman lights'', ''shell fixtures'',
       ''beach glass pendants'']),
     (''features'',
      [''shiplap walls'', ''weathered beams'', ''coastal artwork'', ''shell collections'',
       ''nautical accessories'', ''beach-themed decor'', ''ocean view windows'',
       ''rope accents'', ''natural fiber rugs'', ''striped textiles'',
       ''driftwood accents'', ''coral displays'', ''coastal weave baskets'',
       ''seaside photographs'', ''maritime antiques'']),
     (''layout'',
      [''breezy open-concept'', ''indoor-outdoor flow'', ''panoramic windows'',
       ''casual seating groups'', ''light-filled rooms'', ''relaxed furniture placement'',
       ''outdoor living connection'', ''beachfront orientation'',
       ''informal gathering spaces'', ''wraparound seating''])]"

definition STYLE_HINTS :: "(string \<times> (string \<times> string list) list) list" where
  "STYLE_HINTS =
    [(''Modern'', hints_modern),
     (''Industrial'', hints_industrial),
     (''Scandinavian'', hints_scandinavian),
     (''Rustic'', hints_rustic),
     (''Traditional'', hints_traditional),
     (''Mid-Century Modern'', hints_mid_century_modern),
     (''Coastal'', hints_coastal)]"

text \<open>
  \<open>extract_keywords_from_styles\<close> keys every style by its lower-cased name and pools the
  keywords of its categories, duplicates removed. The order inside \<open>list(set(...))\<close> is
  not fixed by Python; the callers only ask whether some keyword matches.
\<close>

definition extract_keywords_from_styles ::
  "(string \<times> (string \<times> string list) list) list \<Rightarrow> (string \<times> string list) list" where
  "extract_keywords_from_styles style_hints =
     map (\<lambda>(style, categories). (lower style, remdups (concat (map snd categories)))) style_hints"

definition STYLE_KEYWORDS :: "(string \<times> string list) list" where
  "STYLE_KEYWORDS = extract_keywords_from_styles STYLE_HINTS"

section \<open>Validation engine\<close>

text \<open>
  The dictionary returned by \<open>validate_prompt_locally\<close>. The two \<open>secondary\<close> keys are
  present on the success path only.
\<close>

record validation_result =
  valid :: bool
  prompt_score :: real
  detected_style :: string
  style_confidence :: real
  secondary_style :: "string option"
  secondary_confidence :: "real option"
  intent :: string
  style_reasons :: "string list"
  message :: string

definition empty_result :: validation_result where
  "empty_result =
     \<lparr>valid = False, prompt_score = 0, detected_style = ''unknown'', style_confidence = 0,
      secondary_style = None, secondary_confidence = None, intent = ''invalid'',
      style_reasons = [], message = ''Prompt is empty.''\<rparr>"

definition domain_result :: validation_result where
  "domain_result =
     \<lparr>valid = False, prompt_score = 0, detected_style = ''unknown'', style_confidence = 0,
      secondary_style = None, secondary_confidence = None, intent = ''invalid'',
      style_reasons = [], message = ''Prompt must be related to living room design.''\<rparr>"

definition error_result :: "(exn \<Rightarrow> string) \<Rightarrow> exn \<Rightarrow> validation_result" where
  "error_result str_exn e =
     \<lparr>valid = False, prompt_score = 0, detected_style = ''unknown'', style_confidence = 0,
      secondary_style = None, secondary_confidence = None, intent = ''invalid'',
      style_reasons = [], message = ''Validation error: '' @ str_exn e\<rparr>"

definition KEYWORD_BOOST :: real where
  "KEYWORD_BOOST = 0.5"

definition LABEL_EXPLICIT_BOOST :: real where
  "LABEL_EXPLICIT_BOOST = 2.0"

definition ALLOWED_STYLES :: "string list" where
  "ALLOWED_STYLES =
     [''modern'', ''scandinavian'', ''industrial'', ''coastal'', ''mid-century'', ''rustic'',
      ''traditional'']"

text \<open>\<open>logits[0][i] += d\<close>: an index outside the row raises.\<close>

definition add_at :: "real list \<Rightarrow> nat \<Rightarrow> real \<Rightarrow> exn + real list" where
  "add_at logits i d =
     (if i < length logits then Inr (logits[i := logits ! i + d])
      else Inl (IndexError i (length logits)))"

text \<open>\<open>label.replace("_", " ")\<close>: the name a prompt has to contain to mention a label.\<close>

definition spoken_name :: "string \<Rightarrow> string" where
  "spoken_name label = replace_char (CHR ''_'') (CHR '' '') label"

text \<open>The boosting loop over \<open>label_map.items()\<close> (lines 171 to 182).\<close>

fun boost_labels :: "string \<Rightarrow> (nat \<times> string) list \<Rightarrow> real list \<Rightarrow> exn + real list" where
  "boost_labels lower_prompt [] logits = Inr logits"
| "boost_labels lower_prompt ((i, label) # rest) logits =
     (let style_lower = lower label;
          keywords = (case map_of STYLE_KEYWORDS style_lower of None \<Rightarrow> [] | Some ks \<Rightarrow> ks);
          match_keywords = filter (\<lambda>k. sublist (lower k) lower_prompt) keywords
      in case (if match_keywords \<noteq> [] then add_at logits i KEYWORD_BOOST else Inr logits) of
           Inl e \<Rightarrow> Inl e
         | Inr logits1 \<Rightarrow>
            (case (if sublist (spoken_name label) lower_prompt
                   then add_at logits1 i LABEL_EXPLICIT_BOOST else Inr logits1) of
               Inl e \<Rightarrow> Inl e
             | Inr logits2 \<Rightarrow> boost_labels lower_prompt rest logits2))"

text \<open>The penalty on \<open>rustic\<close> (lines 185 to 190).\<close>

definition penalize_rustic :: "string \<Rightarrow> real list \<Rightarrow> exn + real list" where
  "penalize_rustic lower_prompt logits =
     (case find (\<lambda>(i, l). lower l = ''rustic'') label_map of
        None \<Rightarrow> Inr logits
      | Some (rustic_idx, _) \<Rightarrow>
         (case map_of STYLE_KEYWORDS ''rustic'' of
            None \<Rightarrow> Inl (KeyError (PStr ''rustic''))
          | Some rustic_keywords \<Rightarrow>
             if \<not> sublist ''rustic'' lower_prompt
                \<and> \<not> list_ex (\<lambda>k. sublist k lower_prompt) rustic_keywords
             then add_at logits rustic_idx (- 1.0)
             else Inr logits))"

text \<open>
  The softmax in exact arithmetic. What the tensor library computes in float32 is the
  parameter \<open>softmax32\<close> of the last subsection of this section.
\<close>

definition softmax :: "real list \<Rightarrow> real list" where
  "softmax logits = map (\<lambda>x. exp x / sum_list (map exp logits)) logits"

text \<open>
  \<open>xs.sort(key=lambda x: x[1], reverse=True)\<close>: descending by the second component,
  entries with equal keys staying in their original order.
\<close>

fun insert_desc :: "nat \<times> real \<Rightarrow> (nat \<times> real) list \<Rightarrow> (nat \<times> real) list" where
  "insert_desc x [] = [x]"
| "insert_desc x (y # ys) = (if snd y \<le> snd x then x # y # ys else y # insert_desc x ys)"

definition sort_desc :: "(nat \<times> real) list \<Rightarrow> (nat \<times> real) list" where
  "sort_desc xs = foldr insert_desc xs []"

definition allowed_indices :: "nat list" where
  "allowed_indices = map fst (filter (\<lambda>(idx, label). label \<in> set ALLOWED_STYLES) label_map)"

text \<open>\<open>[(idx, probs[idx].item()) for idx in allowed_indices]\<close>.\<close>

fun gather :: "real list \<Rightarrow> nat list \<Rightarrow> exn + (nat \<times> real) list" where
  "gather probs [] = Inr []"
| "gather probs (idx # rest) =
     (if idx < length probs
      then (case gather probs rest of
              Inl e \<Rightarrow> Inl e
            | Inr ps \<Rightarrow> Inr ((idx, probs ! idx) # ps))
      else Inl (IndexError idx (length probs)))"

text \<open>Ranking of the allow-listed labels: \<open>filtered[0]\<close> and \<open>filtered[1]\<close>.\<close>

definition rank_allowed :: "real list \<Rightarrow> exn + ((nat \<times> real) \<times> (nat \<times> real))" where
  "rank_allowed probs =
     (case gather probs allowed_indices of
        Inl e \<Rightarrow> Inl e
      | Inr filtered \<Rightarrow>
         (case sort_desc filtered of
            top1 # top2 # _ \<Rightarrow> Inr (top1, top2)
          | _ \<Rightarrow> Inl ListIndexError))"

text \<open>The first label, in the order of \<open>label_map\<close>, that the prompt names.\<close>

definition explicit_mentioned_idx :: "string \<Rightarrow> nat option" where
  "explicit_mentioned_idx lower_prompt =
     map_option fst (find (\<lambda>(i, label). sublist (spoken_name label) lower_prompt) label_map)"

text \<open>The override of lines 224 to 229, on the pair (index, confidence) of rank 1.\<close>

definition override_top :: "real list \<Rightarrow> nat option \<Rightarrow> nat \<times> real \<Rightarrow> nat \<times> real" where
  "override_top probs explicit top1 =
     (case explicit of
        None \<Rightarrow> top1
      | Some e \<Rightarrow>
         if e \<noteq> fst top1 \<and> probs ! fst top1 - probs ! e < 0.1 then (e, probs ! e) else top1)"

text \<open>
  The logging loop of lines 232 and 233 reads \<open>label_map[i]\<close> for every index of the
  probability vector: an index without a label raises \<open>KeyError\<close>.
\<close>

definition log_breakdown :: "real list \<Rightarrow> exn + unit" where
  "log_breakdown probs =
     (case find (\<lambda>i. map_of label_map i = None) [0 ..< length probs] of
        None \<Rightarrow> Inr ()
      | Some i \<Rightarrow> Inl (KeyError (PNum (real i))))"

definition label_of :: "nat \<Rightarrow> string" where
  "label_of idx = (case map_of label_map idx of None \<Rightarrow> ''unknown'' | Some l \<Rightarrow> l)"

text \<open>
  Explanation (lines 241 to 258): per category the first keyword, in listed order, whose
  lower-cased form occurs in the lower-cased prompt.
\<close>

definition first_keyword :: "string \<Rightarrow> string list \<Rightarrow> string option" where
  "first_keyword lower_prompt keywords = find (\<lambda>keyword. sublist (lower keyword) lower_prompt) keywords"

definition matched_pairs :: "string \<Rightarrow> (string \<times> string list) list \<Rightarrow> (string \<times> string) list" where
  "matched_pairs lower_prompt categories =
     concat (map (\<lambda>(category, keywords).
                    case first_keyword lower_prompt keywords of
                      None \<Rightarrow> []
                    | Some keyword \<Rightarrow> [(category, keyword)]) categories)"

definition reason :: "string \<Rightarrow> string \<Rightarrow> string" where
  "reason category keyword =
     ''mentions of '' @ category @ '' like '' @ [CHR 0x27] @ keyword @ [CHR 0x27]"

text \<open>
  The name \<open>matched_categories\<close> is bound in the first branch only, and line 258 reads it
  after both: behind the second branch the read raises \<open>UnboundLocalError\<close>.
\<close>

definition explain :: "string \<Rightarrow> string \<Rightarrow> exn + string list" where
  "explain style_name lower_prompt =
     (let style_title_case = title style_name in
      case map_of STYLE_HINTS style_title_case of
        Some categories \<Rightarrow>
          (let matched = matched_pairs lower_prompt categories;
               matched_categories = map fst matched;
               explanation = map (\<lambda>(category, keyword). reason category keyword) matched
           in Inr (if matched_categories = []
                   then explanation @ [''based on overall language and style structure'']
                   else explanation))
      | None \<Rightarrow> Inl (UnboundLocalError ''matched_categories''))"

text \<open>\<open>round(x, 3)\<close>: to three decimals, a tie going to the even neighbour.\<close>

definition py_round3 :: "real \<Rightarrow> real" where
  "py_round3 x =
     (let y = x * 1000; f = \<lfloor>y\<rfloor>; d = y - of_int f
      in of_int (if d < 1 / 2 then f else if 1 / 2 < d then f + 1
                 else if even f then f else f + 1) / 1000)"

text \<open>Scores after the boosts and the penalty, before the softmax.\<close>

definition adjust_logits :: "string \<Rightarrow> real list \<Rightarrow> exn + real list" where
  "adjust_logits lower_prompt logits =
     (case boost_labels lower_prompt label_map logits of
        Inl e \<Rightarrow> Inl e
      | Inr boosted \<Rightarrow> penalize_rustic lower_prompt boosted)"

text \<open>
  The body of the \<open>try\<close> block after the classifier has answered. \<open>logits\<close> is the row
  \<open>logits[0]\<close> of the classifier's output for the one prompt of the batch (so the test
  for an empty batch never fires).
\<close>

definition classify_styles :: "string \<Rightarrow> real list \<Rightarrow> exn + validation_result" where
  "classify_styles prompt logits =
     (let lower_prompt = lower prompt in
      case adjust_logits lower_prompt logits of
        Inl e \<Rightarrow> Inl e
      | Inr adjusted \<Rightarrow>
         (let probs = softmax adjusted in
          if probs = [] then Inl ListIndexError
          else case rank_allowed probs of
            Inl e \<Rightarrow> Inl e
          | Inr (top1, (top2_idx, top2_conf)) \<Rightarrow>
             (let (top1_idx, top1_conf) =
                    override_top probs (explicit_mentioned_idx lower_prompt) top1
              in case log_breakdown probs of
                Inl e \<Rightarrow> Inl e
              | Inr _ \<Rightarrow>
                 (let style_name = label_of top1_idx;
                      second_style = label_of top2_idx
                  in case explain style_name lower_prompt of
                    Inl e \<Rightarrow> Inl e
                  | Inr explanation \<Rightarrow>
                     Inr \<lparr>valid = True, prompt_score = py_round3 top1_conf,
                          detected_style = style_name,
                          style_confidence = py_round3 top1_conf,
                          secondary_style = Some second_style,
                          secondary_confidence = Some (py_round3 top2_conf),
                          intent = ''generate'', style_reasons = explanation,
                          message = ''Prompt validation completed''\<rparr>))))"

text \<open>
  \<open>validate_prompt_locally\<close>. \<open>classify\<close> is the tokenizer followed by the pretrained
  classifier: it answers with the scores or raises.
\<close>

definition validate_prompt_locally ::
  "(exn \<Rightarrow> string) \<Rightarrow> (string \<Rightarrow> exn + real list) \<Rightarrow> pyval \<Rightarrow> validation_result" where
  "validate_prompt_locally str_exn classify raw_prompt =
     (let prompt = sanitize_prompt raw_prompt in
      if prompt = [] then empty_result
      else if \<not> is_living_room_related prompt then domain_result
      else case (case classify prompt of
                   Inl e \<Rightarrow> Inl e
                 | Inr logits \<Rightarrow> classify_styles prompt logits) of
             Inl e \<Rightarrow> error_result str_exn e
           | Inr result \<Rightarrow> result)"

subsection \<open>The arithmetic of the tensor library as a parameter\<close>

text \<open>
  The functions above read the arithmetic of the scores as exact arithmetic on the reals.
  The code computes on finite floating-point numbers: the scores and probabilities are
  float32 tensors, \<open>.item()\<close> turns a probability into a double, and the gap and the
  threshold \<open>0.1\<close> are doubles. The functions of this subsection take those operations
  as a parameter, a finite float being the real number it denotes:
  \<^item> \<open>add32 x c\<close> and \<open>sub32 x c\<close> are \<open>logits[0][i] += c\<close> and \<open>logits[0][i] -= c\<close>
    on an element \<open>x\<close>;
  \<^item> \<open>softmax32 row i\<close> is \<open>torch.nn.functional.softmax(logits, dim=1)[0][i].item()\<close>
    for the score row \<open>row\<close>;
  \<^item> \<open>sub64 a b\<close> is the subtraction \<open>a - b\<close> of two Python floats;
  \<^item> \<open>tenth\<close> is the value of the literal \<open>0.1\<close>;
  \<^item> \<open>round3 x\<close> is \<open>round(x, 3)\<close>.
  Comparisons of finite floats are comparisons of the numbers they denote.
\<close>

record arith =
  add32 :: "real \<Rightarrow> real \<Rightarrow> real"
  sub32 :: "real \<Rightarrow> real \<Rightarrow> real"
  softmax32 :: "real list \<Rightarrow> nat \<Rightarrow> real"
  sub64 :: "real \<Rightarrow> real \<Rightarrow> real"
  tenth :: real
  round3 :: "real \<Rightarrow> real"

text \<open>The exact operations: with them the functions below are the functions above.\<close>

definition exact :: arith where
  "exact = \<lparr>add32 = (\<lambda>x c. x + c), sub32 = (\<lambda>x c. x - c),
            softmax32 = (\<lambda>row i. softmax row ! i), sub64 = (\<lambda>a b. a - b),
            tenth = 0.1, round3 = py_round3\<rparr>"

text \<open>\<open>logits[0][i] += d\<close> and \<open>logits[0][i] -= d\<close>.\<close>

definition add_at_with :: "arith \<Rightarrow> real list \<Rightarrow> nat \<Rightarrow> real \<Rightarrow> exn + real list" where
  "add_at_with A logits i d =
     (if i < length logits then Inr (logits[i := add32 A (logits ! i) d])
      else Inl (IndexError i (length logits)))"

definition sub_at_with :: "arith \<Rightarrow> real list \<Rightarrow> nat \<Rightarrow> real \<Rightarrow> exn + real list" where
  "sub_at_with A logits i d =
     (if i < length logits then Inr (logits[i := sub32 A (logits ! i) d])
      else Inl (IndexError i (length logits)))"

fun boost_labels_with ::
  "arith \<Rightarrow> string \<Rightarrow> (nat \<times> string) list \<Rightarrow> real list \<Rightarrow> exn + real list" where
  "boost_labels_with A lower_prompt [] logits = Inr logits"
| "boost_labels_with A lower_prompt ((i, label) # rest) logits =
     (let style_lower = lower label;
          keywords = (case map_of STYLE_KEYWORDS style_lower of None \<Rightarrow> [] | Some ks \<Rightarrow> ks);
          match_keywords = filter (\<lambda>k. sublist (lower k) lower_prompt) keywords
      in case (if match_keywords \<noteq> [] then add_at_with A logits i KEYWORD_BOOST
               else Inr logits) of
           Inl e \<Rightarrow> Inl e
         | Inr logits1 \<Rightarrow>
            (case (if sublist (spoken_name label) lower_prompt
                   then add_at_with A logits1 i LABEL_EXPLICIT_BOOST else Inr logits1) of
               Inl e \<Rightarrow> Inl e
             | Inr logits2 \<Rightarrow> boost_labels_with A lower_prompt rest logits2))"

definition penalize_rustic_with :: "arith \<Rightarrow> string \<Rightarrow> real list \<Rightarrow> exn + real list" where
  "penalize_rustic_with A lower_prompt logits =
     (case find (\<lambda>(i, l). lower l = ''rustic'') label_map of
        None \<Rightarrow> Inr logits
      | Some (rustic_idx, _) \<Rightarrow>
         (case map_of STYLE_KEYWORDS ''rustic'' of
            None \<Rightarrow> Inl (KeyError (PStr ''rustic''))
          | Some rustic_keywords \<Rightarrow>
             if \<not> sublist ''rustic'' lower_prompt
                \<and> \<not> list_ex (\<lambda>k. sublist k lower_prompt) rustic_keywords
             then sub_at_with A logits rustic_idx 1.0
             else Inr logits))"

definition adjust_logits_with :: "arith \<Rightarrow> string \<Rightarrow> real list \<Rightarrow> exn + real list" where
  "adjust_logits_with A lower_prompt logits =
     (case boost_labels_with A lower_prompt label_map logits of
        Inl e \<Rightarrow> Inl e
      | Inr boosted \<Rightarrow> penalize_rustic_with A lower_prompt boosted)"

text \<open>The probability vector: one entry for every score of the row.\<close>

definition probabilities_with :: "arith \<Rightarrow> real list \<Rightarrow> real list" where
  "probabilities_with A logits = map (softmax32 A logits) [0 ..< length logits]"

text \<open>
  The override of lines 224 to 229: \<open>gap = probs[top1_idx].item() -
  probs[explicit_mentioned_idx].item()\<close> and the test \<open>gap < 0.1\<close>.
\<close>

definition override_top_with ::
  "arith \<Rightarrow> real list \<Rightarrow> nat option \<Rightarrow> nat \<times> real \<Rightarrow> nat \<times> real" where
  "override_top_with A probs explicit top1 =
     (case explicit of
        None \<Rightarrow> top1
      | Some e \<Rightarrow>
         if e \<noteq> fst top1 \<and> sub64 A (probs ! fst top1) (probs ! e) < tenth A
         then (e, probs ! e) else top1)"

definition classify_styles_with :: "arith \<Rightarrow> string \<Rightarrow> real list \<Rightarrow> exn + validation_result" where
  "classify_styles_with A prompt logits =
     (let lower_prompt = lower prompt in
      case adjust_logits_with A lower_prompt logits of
        Inl e \<Rightarrow> Inl e
      | Inr adjusted \<Rightarrow>
         (let probs = probabilities_with A adjusted in
          if probs = [] then Inl ListIndexError
          else case rank_allowed probs of
            Inl e \<Rightarrow> Inl e
          | Inr (top1, (top2_idx, top2_conf)) \<Rightarrow>
             (let (top1_idx, top1_conf) =
                    override_top_with A probs (explicit_mentioned_idx lower_prompt) top1
              in case log_breakdown probs of
                Inl e \<Rightarrow> Inl e
              | Inr _ \<Rightarrow>
                 (let style_name = label_of top1_idx;
                      second_style = label_of top2_idx
                  in case explain style_name lower_prompt of
                    Inl e \<Rightarrow> Inl e
                  | Inr explanation \<Rightarrow>
                     Inr \<lparr>valid = True, prompt_score = round3 A top1_conf,
                          detected_style = style_name,
                          style_confidence = round3 A top1_conf,
                          secondary_style = Some second_style,
                          secondary_confidence = Some (round3 A top2_conf),
                          intent = ''generate'', style_reasons = explanation,
                          message = ''Prompt validation completed''\<rparr>))))"

definition validate_prompt_locally_with ::
  "arith \<Rightarrow> (exn \<Rightarrow> string) \<Rightarrow> (string \<Rightarrow> exn + real list) \<Rightarrow> pyval \<Rightarrow> validation_result" where
  "validate_prompt_locally_with A str_exn classify raw_prompt =
     (let prompt = sanitize_prompt raw_prompt in
      if prompt = [] then empty_result
      else if \<not> is_living_room_related prompt then domain_result
      else case (case classify prompt of
                   Inl e \<Rightarrow> Inl e
                 | Inr logits \<Rightarrow> classify_styles_with A prompt logits) of
             Inl e \<Rightarrow> error_result str_exn e
           | Inr result \<Rightarrow> result)"

section \<open>Backend gateway\<close>

text \<open>
  The remote service is seen through its answers: \<open>net i r\<close> is what the \<open>i\<close>-th outbound
  request of the process, \<open>r\<close>, comes back with; a response carries its status code and
  its body as decoded by \<open>response.json()\<close> (\<open>None\<close> when the body is not JSON). The
  record \<open>io\<close> logs the requests made and the delays slept, in order. A dictionary is an
  association list with each key once.
\<close>

datatype request = GET string | POST string pyval

datatype outcome = Response nat "pyval option" | Raises exn

record io =
  requests :: "request list"
  sleeps :: "real list"

record config =
  USE_LOCAL_BERT :: bool
  COLAB_ENDPOINT :: "string option"

record env =
  str_exn :: "exn \<Rightarrow> string"
  str_val :: "pyval \<Rightarrow> string"
  net :: "nat \<Rightarrow> request \<Rightarrow> outcome"
  current_app :: "config option"
  classify :: "string \<Rightarrow> exn + real list"

record backend_service =
  app :: "config option"
  use_local_validation :: bool
  base_url :: "string option"

definition send :: "env \<Rightarrow> request \<Rightarrow> io \<Rightarrow> outcome \<times> io" where
  "send E r w = (net E (length (requests w)) r, w\<lparr>requests := requests w @ [r]\<rparr>)"

definition sleep :: "real \<Rightarrow> io \<Rightarrow> io" where
  "sleep d w = w\<lparr>sleeps := sleeps w @ [d]\<rparr>"

text \<open>The exceptions that \<open>except requests.exceptions.RequestException\<close> catches.\<close>

fun is_request_exception :: "exn \<Rightarrow> bool" where
  "is_request_exception Timeout = True"
| "is_request_exception (RequestException _) = True"
| "is_request_exception _ = False"

definition rstrip_slash :: "string \<Rightarrow> string" where
  "rstrip_slash s = rev (dropWhile (\<lambda>c. c = CHR ''/'') (rev s))"

definition url_set :: "backend_service \<Rightarrow> bool" where
  "url_set svc = (case base_url svc of None \<Rightarrow> False | Some u \<Rightarrow> u \<noteq> [])"

function string_of_nat :: "nat \<Rightarrow> string" where
  "string_of_nat n =
     (if n < 10 then [char_of (48 + n)]
      else string_of_nat (n div 10) @ [char_of (48 + n mod 10)])"
  by pat_completeness auto
termination
  by (relation "measure id") auto

declare string_of_nat.simps [simp del]

text \<open>
  The \<open>try\<close> block of \<open>_test_connection\<close> (lines 54 to 71) for a configured URL: the
  health path, then the root path when the health status is not 200. The inner handler
  catches everything, the outer one request exceptions only.
\<close>

definition probe_url :: "env \<Rightarrow> string \<Rightarrow> io \<Rightarrow> (exn + bool) \<times> io" where
  "probe_url E url w =
     (let (response, w1) = send E (GET (url @ ''/health'')) w in
      case response of
        Raises e \<Rightarrow> (if is_request_exception e then Inr False else Inl e, w1)
      | Response status_code _ \<Rightarrow>
          if status_code = 200 then (Inr True, w1)
          else (let (root_response, w2) = send E (GET url) w1 in
                case root_response of
                  Response root_status _ \<Rightarrow> (Inr (root_status = 200), w2)
                | Raises _ \<Rightarrow> (Inr False, w2)))"

text \<open>
  \<open>init_app\<close>. Its call of \<open>_test_connection\<close> happens with \<open>base_url\<close> just set, so
  that call's \<open>_ensure_base_url\<close> does nothing and its URL test passes: what runs is
  \<^term>\<open>probe_url\<close>. A configuration whose \<open>COLAB_ENDPOINT\<close> is \<open>None\<close> fails at
  \<open>.rstrip\<close>.
\<close>

definition init_app ::
  "env \<Rightarrow> config \<Rightarrow> backend_service \<Rightarrow> io \<Rightarrow> (exn + bool) \<times> backend_service \<times> io" where
  "init_app E cfg svc w =
     (let svc1 = svc\<lparr>use_local_validation := USE_LOCAL_BERT cfg\<rparr> in
      case COLAB_ENDPOINT cfg of
        None \<Rightarrow> (Inl (AttributeError ''rstrip''), svc1, w)
      | Some endpoint \<Rightarrow>
          (let backend_url = rstrip_slash endpoint in
           if backend_url \<noteq> []
           then (let svc2 = svc1\<lparr>base_url := Some backend_url\<rparr>;
                     (ok, w1) = probe_url E backend_url w
                 in (ok, svc2, w1))
           else (Inr True, svc1\<lparr>base_url := None\<rparr>, w)))"

definition ensure_base_url ::
  "env \<Rightarrow> backend_service \<Rightarrow> io \<Rightarrow> (exn + unit) \<times> backend_service \<times> io" where
  "ensure_base_url E svc w =
     (if \<not> url_set svc \<and> \<not> use_local_validation svc
      then (case (case app svc of Some cfg \<Rightarrow> Some cfg | None \<Rightarrow> current_app E) of
              Some cfg \<Rightarrow>
                (let (r, svc1, w1) = init_app E cfg svc w
                 in (case r of Inl e \<Rightarrow> Inl e | Inr _ \<Rightarrow> Inr (), svc1, w1))
            | None \<Rightarrow> (Inr (), svc, w))
      else (Inr (), svc, w))"

definition test_connection ::
  "env \<Rightarrow> backend_service \<Rightarrow> io \<Rightarrow> (exn + bool) \<times> backend_service \<times> io" where
  "test_connection E svc w =
     (case ensure_base_url E svc w of
        (Inl e, svc1, w1) \<Rightarrow> (Inl e, svc1, w1)
      | (Inr _, svc1, w1) \<Rightarrow>
          (case base_url svc1 of
             None \<Rightarrow> (Inr False, svc1, w1)
           | Some url \<Rightarrow>
               if url = [] then (Inr False, svc1, w1)
               else (let (r, w2) = probe_url E url w1 in (r, svc1, w2))))"

text \<open>\<open>check_health\<close>: the root path is tried after a 404 only.\<close>

definition check_health :: "env \<Rightarrow> backend_service \<Rightarrow> io \<Rightarrow> (exn + bool) \<times> io" where
  "check_health E svc w =
     (case base_url svc of
        None \<Rightarrow> (Inr False, w)
      | Some url \<Rightarrow>
          if url = [] then (Inr False, w)
          else (let (response, w1) = send E (GET (url @ ''/health'')) w in
                case response of
                  Raises e \<Rightarrow> (if is_request_exception e then Inr False else Inl e, w1)
                | Response status_code _ \<Rightarrow>
                    if status_code = 404
                    then (let (response2, w2) = send E (GET url) w1 in
                          case response2 of
                            Raises e \<Rightarrow> (if is_request_exception e then Inr False else Inl e, w2)
                          | Response status2 _ \<Rightarrow> (Inr (status2 = 200), w2))
                    else (Inr (status_code = 200), w1)))"

text \<open>
  The error message of a response that is neither 200 nor 429: the \<open>error\<close> entry of a
  JSON object body, else the generic text (also when the body is not JSON or not an
  object, which the bare \<open>except\<close> covers).
\<close>

definition http_error_msg :: "nat \<Rightarrow> pyval option \<Rightarrow> pyval" where
  "http_error_msg status_code body =
     (case body of
        Some (PDict kvs) \<Rightarrow>
          (case map_of kvs ''error'' of
             Some v \<Rightarrow> v
           | None \<Rightarrow> PStr (''HTTP error '' @ string_of_nat status_code))
      | _ \<Rightarrow> PStr (''HTTP error '' @ string_of_nat status_code))"

text \<open>
  The retry loop of \<open>_send_request\<close> (lines 91 to 124): \<open>attempt\<close> is the loop variable,
  \<open>remaining\<close> the number of iterations left. The result is the pair (result, error).
\<close>

fun attempts ::
  "env \<Rightarrow> string \<Rightarrow> pyval \<Rightarrow> real \<Rightarrow> nat \<Rightarrow> nat \<Rightarrow> io \<Rightarrow> (pyval \<times> pyval) \<times> io" where
  "attempts E full_url payload retry_delay attempt 0 w =
     ((PNone, PStr ''Maximum retry attempts reached''), w)"
| "attempts E full_url payload retry_delay attempt (Suc remaining) w =
     (let (response, w1) = send E (POST full_url payload) w in
      case response of
        Response status_code body \<Rightarrow>
          if status_code = 200
          then (case body of
                  Some j \<Rightarrow> ((j, PNone), w1)
                | None \<Rightarrow> ((PNone, PStr (str_exn E JSONDecodeError)), w1))
          else if status_code = 429
          then attempts E full_url payload retry_delay (attempt + 1) remaining
                 (sleep (retry_delay * real (attempt + 1)) w1)
          else ((PNone, http_error_msg status_code body), w1)
      | Raises e \<Rightarrow>
          if e = Timeout
          then attempts E full_url payload retry_delay (attempt + 1) remaining
                 (sleep retry_delay w1)
          else ((PNone, PStr (str_exn E e)), w1))"

text \<open>\<open>_send_request\<close>. The payload preview is logging only.\<close>

definition send_request ::
  "env \<Rightarrow> backend_service \<Rightarrow> string \<Rightarrow> pyval \<Rightarrow> nat \<Rightarrow> real \<Rightarrow> io
   \<Rightarrow> (exn + pyval \<times> pyval) \<times> backend_service \<times> io" where
  "send_request E svc endpoint payload max_retries retry_delay w =
     (case ensure_base_url E svc w of
        (Inl e, svc1, w1) \<Rightarrow> (Inl e, svc1, w1)
      | (Inr _, svc1, w1) \<Rightarrow>
          (case base_url svc1 of
             None \<Rightarrow> (Inr (PNone, PStr ''Backend URL not configured''), svc1, w1)
           | Some url \<Rightarrow>
               if url = [] then (Inr (PNone, PStr ''Backend URL not configured''), svc1, w1)
               else (let (r, w2) = attempts E (url @ endpoint) payload retry_delay 0 max_retries w1
                     in (Inr r, svc1, w2))))"

text \<open>The payload of \<open>generate_image\<close> (lines 146 to 157), keys in insertion order.\<close>

definition generation_payload ::
  "string \<Rightarrow> pyval \<Rightarrow> pyval \<Rightarrow> pyval \<Rightarrow> pyval \<Rightarrow> pyval \<Rightarrow> (string \<times> pyval) list" where
  "generation_payload prompt style guidance_scale negative_prompt num_inference_steps seed =
     [(''prompt'', PStr prompt)]
     @ (if truthy style \<and> style \<noteq> PStr ''auto'' then [(''style'', style)] else [])
     @ (if truthy negative_prompt then [(''negative_prompt'', negative_prompt)] else [])
     @ (if truthy guidance_scale then [(''guidance_scale'', guidance_scale)] else [])
     @ (if truthy num_inference_steps then [(''num_inference_steps'', num_inference_steps)]
        else [])
     @ (if truthy seed then [(''seed'', seed)] else [])"

text \<open>\<open>d.get(k)\<close> on a dictionary.\<close>

definition dict_get :: "(string \<times> pyval) list \<Rightarrow> string \<Rightarrow> pyval \<Rightarrow> pyval" where
  "dict_get kvs k dflt = (case map_of kvs k of None \<Rightarrow> dflt | Some v \<Rightarrow> v)"

text \<open>\<open>d[k] = v\<close>: an existing key keeps its place.\<close>

definition dict_set :: "(string \<times> pyval) list \<Rightarrow> string \<Rightarrow> pyval \<Rightarrow> (string \<times> pyval) list" where
  "dict_set kvs k v =
     (if k \<in> fst ` set kvs then map (\<lambda>(k', v'). if k' = k then (k', v) else (k', v')) kvs
      else kvs @ [(k, v)])"

text \<open>An f-string field: a string as it is, another value through \<open>str\<close>.\<close>

definition format_val :: "env \<Rightarrow> pyval \<Rightarrow> string" where
  "format_val E v = (case v of PStr s \<Rightarrow> s | _ \<Rightarrow> str_val E v)"

text \<open>What \<open>generate_image\<close> does with the answer of the dispatch (lines 165 to 179).\<close>

definition image_result :: "env \<Rightarrow> pyval \<times> pyval \<Rightarrow> exn + pyval \<times> pyval" where
  "image_result E re =
     (let (result, error) = re in
      if truthy error then Inr (PNone, error)
      else case result of
        PDict kvs \<Rightarrow>
          (let kvs1 = (if \<not> truthy (dict_get kvs ''image_url'' PNone)
                          \<and> truthy (dict_get kvs ''image'' PNone)
                       then dict_set kvs ''image_url''
                              (PStr (''data:image/png;base64,''
                                     @ format_val E (dict_get kvs ''image'' PNone)))
                       else kvs)
           in if \<not> truthy (dict_get kvs1 ''image_url'' PNone)
              then Inr (PNone, PStr ''No image data in response'')
              else Inr (PDict kvs1, PNone))
      | _ \<Rightarrow> Inl (AttributeError ''get''))"

definition generate_image ::
  "env \<Rightarrow> backend_service \<Rightarrow> string \<Rightarrow> pyval \<Rightarrow> pyval \<Rightarrow> pyval \<Rightarrow> pyval \<Rightarrow> pyval \<Rightarrow> io
   \<Rightarrow> (exn + pyval \<times> pyval) \<times> backend_service \<times> io" where
  "generate_image E svc prompt style guidance_scale negative_prompt num_inference_steps seed w =
     (case ensure_base_url E svc w of
        (Inl e, svc1, w1) \<Rightarrow> (Inl e, svc1, w1)
      | (Inr _, svc1, w1) \<Rightarrow>
          if \<not> url_set svc1
          then (Inr (PNone, PStr (''Image generation is disabled because COLAB_ENDPOINT ''
                                  @ ''is not configured or accessible.'')), svc1, w1)
          else (case test_connection E svc1 w1 of
                  (Inl e, svc2, w2) \<Rightarrow> (Inl e, svc2, w2)
                | (Inr ok, svc2, w2) \<Rightarrow>
                    if \<not> ok
                    then (Inr (PNone, PStr (''Backend service is currently unavailable. ''
                                            @ ''Please try again later.'')), svc2, w2)
                    else (let payload = PDict (generation_payload prompt style guidance_scale
                                                 negative_prompt num_inference_steps seed)
                          in case send_request E svc2 ''/generate'' payload 3 2 w2 of
                               (Inl e, svc3, w3) \<Rightarrow> (Inl e, svc3, w3)
                             | (Inr re, svc3, w3) \<Rightarrow> (image_result E re, svc3, w3))))"

text \<open>The dictionary form of a local validation result.\<close>

definition result_dict :: "validation_result \<Rightarrow> pyval" where
  "result_dict r =
     PDict ([(''valid'', PBool (valid r)), (''prompt_score'', PNum (prompt_score r)),
             (''detected_style'', PStr (detected_style r)),
             (''style_confidence'', PNum (style_confidence r))]
            @ (case secondary_style r of None \<Rightarrow> [] | Some s \<Rightarrow> [(''secondary_style'', PStr s)])
            @ (case secondary_confidence r of None \<Rightarrow> []
               | Some c \<Rightarrow> [(''secondary_confidence'', PNum c)])
            @ [(''intent'', PStr (intent r)),
               (''style_reasons'', PList (map PStr (style_reasons r))),
               (''message'', PStr (message r))])"

text \<open>\<open>k in result\<close> for a string \<open>k\<close>, by the type of \<open>result\<close>.\<close>

fun py_contains :: "string \<Rightarrow> pyval \<Rightarrow> exn + bool" where
  "py_contains k (PDict kvs) = Inr (k \<in> fst ` set kvs)"
| "py_contains k (PList xs) = Inr (PStr k \<in> set xs)"
| "py_contains k (PStr s) = Inr (sublist k s)"
| "py_contains k v = Inl (TypeError ''in'')"

text \<open>\<open>v > 0.5\<close>: numbers and booleans compare with a float, nothing else does.\<close>

fun py_gt_half :: "pyval \<Rightarrow> exn + bool" where
  "py_gt_half (PNum x) = Inr (0.5 < x)"
| "py_gt_half (PBool b) = Inr b"
| "py_gt_half v = Inl (TypeError ''>'')"

text \<open>The legacy shape, adapted (lines 217 to 228).\<close>

definition adapt_result :: "string \<Rightarrow> pyval \<Rightarrow> exn + pyval" where
  "adapt_result prompt result =
     (case result of
        PDict kvs \<Rightarrow>
          (case py_gt_half (dict_get kvs ''prompt_score'' (PNum 0)) of
             Inl e \<Rightarrow> Inl e
           | Inr v \<Rightarrow>
               Inr (PDict
                 [(''valid'', PBool v),
                  (''prompt_score'', dict_get kvs ''prompt_score'' (PNum 0)),
                  (''detected_style'', dict_get kvs ''detected_style'' (PStr ''unknown'')),
                  (''style_confidence'', dict_get kvs ''style_confidence'' (PNum 0)),
                  (''intent'', dict_get kvs ''intent'' (PStr ''ask'')),
                  (''enhanced_prompt'', dict_get kvs ''enhanced_prompt'' (PStr prompt)),
                  (''style_reasons'',
                     dict_get kvs ''style_reasons'' (PList [PStr ''Based on general design elements''])),
                  (''message'', dict_get kvs ''message'' (PStr ''Prompt validation completed''))]))
      | _ \<Rightarrow> Inl (AttributeError ''get''))"

text \<open>
  The normalisation of the remote answer inside the \<open>try\<close> block of \<open>validate_prompt\<close>
  (lines 206 to 233).
\<close>

definition normalize_response :: "string \<Rightarrow> pyval \<times> pyval \<Rightarrow> exn + pyval \<times> pyval" where
  "normalize_response prompt re =
     (let (result, error) = re in
      if truthy error then Inr (PNone, error)
      else case (if truthy result then py_contains ''valid'' result else Inr False) of
        Inl e \<Rightarrow> Inl e
      | Inr True \<Rightarrow> Inr (result, PNone)
      | Inr False \<Rightarrow>
          (case (if truthy result then py_contains ''prompt_score'' result else Inr False) of
             Inl e \<Rightarrow> Inl e
           | Inr True \<Rightarrow>
               (case adapt_result prompt result of
                  Inl e \<Rightarrow> Inl e
                | Inr adapted_result \<Rightarrow> Inr (adapted_result, PNone))
           | Inr False \<Rightarrow> Inr (PNone, PStr ''Invalid response format from backend'')))"

definition validate_prompt ::
  "env \<Rightarrow> backend_service \<Rightarrow> string \<Rightarrow> io
   \<Rightarrow> (exn + pyval \<times> pyval) \<times> backend_service \<times> io" where
  "validate_prompt E svc prompt w =
     (if use_local_validation svc
      then (Inr (result_dict (validate_prompt_locally (str_exn E) (classify E) (PStr prompt)),
                 PNone), svc, w)
      else case ensure_base_url E svc w of
        (Inl e, svc1, w1) \<Rightarrow> (Inl e, svc1, w1)
      | (Inr _, svc1, w1) \<Rightarrow>
          if \<not> url_set svc1
          then (Inr (PNone, PStr ''Backend URL not configured''), svc1, w1)
          else (case send_request E svc1 ''/validate_prompt''
                       (PDict [(''prompt'', PStr prompt)]) 3 2 w1 of
                  (Inl e, svc2, w2) \<Rightarrow>
                    (Inr (PNone, PStr (''Validation error: '' @ str_exn E e)), svc2, w2)
                | (Inr re, svc2, w2) \<Rightarrow>
                    (case normalize_response prompt re of
                       Inl e \<Rightarrow>
                         (Inr (PNone, PStr (''Validation error: '' @ str_exn E e)), svc2, w2)
                     | Inr out \<Rightarrow> (Inr out, svc2, w2))))"

text \<open>
  Vocabulary for the statements below: the answers the retry loop retries (status 429, a
  timeout), the answers of an endpoint that is down (any status but 200, a request
  exception), and a run of \<open>n\<close> probes in a row.
\<close>

fun retryable :: "outcome \<Rightarrow> bool" where
  "retryable (Response status_code _) = (status_code = 429)"
| "retryable (Raises e) = (e = Timeout)"

fun failing :: "outcome \<Rightarrow> bool" where
  "failing (Response status_code _) = (status_code \<noteq> 200)"
| "failing (Raises e) = is_request_exception e"

fun probe_times ::
  "nat \<Rightarrow> env \<Rightarrow> backend_service \<Rightarrow> io \<Rightarrow> (exn + bool) list \<times> backend_service \<times> io" where
  "probe_times 0 E svc w = ([], svc, w)"
| "probe_times (Suc n) E svc w =
     (let (r, svc1, w1) = test_connection E svc w;
          (rs, svc2, w2) = probe_times n E svc1 w1
      in (r # rs, svc2, w2))"

text \<open>
  The JSON bodies of the POST requests in a log, and the state in which no endpoint is
  configured: no URL on the service, and none to be resolved, because local validation
  switches the lookup off, or there is no configuration to look into, or its
  \<open>COLAB_ENDPOINT\<close> is the empty string or slashes only. (A configuration holding
  \<open>None\<close> there is not such a state: \<open>init_app\<close> raises on it.)
\<close>

fun post_bodies :: "request list \<Rightarrow> pyval list" where
  "post_bodies [] = []"
| "post_bodies (GET u # rs) = post_bodies rs"
| "post_bodies (POST u p # rs) = p # post_bodies rs"

definition no_endpoint :: "env \<Rightarrow> backend_service \<Rightarrow> bool" where
  "no_endpoint E svc =
     (\<not> url_set svc \<and>
      (use_local_validation svc \<or>
       (case (case app svc of Some cfg \<Rightarrow> Some cfg | None \<Rightarrow> current_app E) of
          None \<Rightarrow> True
        | Some cfg \<Rightarrow>
            (case COLAB_ENDPOINT cfg of None \<Rightarrow> False | Some ep \<Rightarrow> rstrip_slash ep = []))))"

text \<open>A configured service, and an environment around given answers of the remote side.\<close>

definition demo_service :: backend_service where
  "demo_service = \<lparr>app = None, use_local_validation = False, base_url = Some ''http://h''\<rparr>"

definition demo_env :: "(nat \<Rightarrow> request \<Rightarrow> outcome) \<Rightarrow> env" where
  "demo_env answers =
     \<lparr>str_exn = (\<lambda>e. ''error''), str_val = (\<lambda>v. ''value''), net = answers,
      current_app = None, classify = (\<lambda>p. Inl (LibraryError ''no model''))\<rparr>"

section \<open>Properties of the validation engine\<close>

lemma classify_styles_shape:
  assumes "classify_styles prompt logits = Inr r"
  shows "valid r \<and> intent r = ''generate'' \<and> message r = ''Prompt validation completed''"
  using assms
  by (auto simp: classify_styles_def Let_def split: sum.splits prod.splits if_splits)

lemma den_related: "is_living_room_related ''den''"
  by (simp add: is_living_room_related_def living_room_terms_def re_search_def lower_def
        is_space.simps)

lemma sanitize_den: "sanitize_prompt (PStr ''den'') = ''den''"
  by (simp add: split_def strip_def is_space.simps)

text \<open>
  Claim C3. Whenever \<open>validate_prompt_locally\<close> returns a result whose \<open>valid\<close> is false
  (empty prompt, prompt outside the domain, or an exception inside the classification),
  the result has \<open>detected_style = "unknown"\<close> and \<open>style_confidence = 0\<close>.
\<close>

theorem invalid_result_unknown:
  "\<not> valid (validate_prompt_locally render model raw_prompt) \<Longrightarrow>
     detected_style (validate_prompt_locally render model raw_prompt) = ''unknown''
     \<and> style_confidence (validate_prompt_locally render model raw_prompt) = 0"
  by (auto simp: validate_prompt_locally_def Let_def empty_result_def domain_result_def
        error_result_def dest: classify_styles_shape split: sum.splits if_splits)

theorem invalid_result_unknown_witness:
  "\<not> valid (validate_prompt_locally (\<lambda>e. ''out of memory'')
              (\<lambda>p. Inl (LibraryError ''out of memory'')) (PStr ''den''))
   \<and> detected_style (validate_prompt_locally (\<lambda>e. ''out of memory'')
              (\<lambda>p. Inl (LibraryError ''out of memory'')) (PStr ''den'')) = ''unknown''
   \<and> style_confidence (validate_prompt_locally (\<lambda>e. ''out of memory'')
              (\<lambda>p. Inl (LibraryError ''out of memory'')) (PStr ''den'')) = 0"
proof -
  have h: "\<not> valid (validate_prompt_locally (\<lambda>e. ''out of memory'')
              (\<lambda>p. Inl (LibraryError ''out of memory'')) (PStr ''den''))"
    by (simp add: validate_prompt_locally_def sanitize_den den_related error_result_def
          del: sanitize_prompt.simps)
  from invalid_result_unknown [OF h] h show ?thesis by simp
qed

subsection \<open>Sanitising\<close>

lemma split_from_good:
  "\<forall>c\<in>set cur. \<not> is_space c \<Longrightarrow>
   \<forall>w\<in>set (split_from cur s). w \<noteq> [] \<and> (\<forall>c\<in>set w. \<not> is_space c)"
proof (induction s arbitrary: cur)
  case Nil
  then show ?case by simp
next
  case (Cons a s)
  show ?case
  proof (cases "is_space a")
    case True
    have ih: "\<forall>w\<in>set (split_from [] s). w \<noteq> [] \<and> (\<forall>c\<in>set w. \<not> is_space c)"
      by (rule Cons.IH) simp
    show ?thesis
    proof (cases "cur = []")
      case True
      with \<open>is_space a\<close> ih show ?thesis by simp
    next
      case False
      with \<open>is_space a\<close> ih Cons.prems show ?thesis by simp
    qed
  next
    case False
    have "\<forall>c\<in>set (cur @ [a]). \<not> is_space c" using False Cons.prems by simp
    then have "\<forall>w\<in>set (split_from (cur @ [a]) s). w \<noteq> [] \<and> (\<forall>c\<in>set w. \<not> is_space c)"
      by (rule Cons.IH)
    with False show ?thesis by simp
  qed
qed

lemma set_join_space: "set (join_space ws) \<subseteq> (\<Union>w\<in>set ws. set w) \<union> {CHR '' ''}"
  by (induction ws rule: join_space.induct) auto

lemma hd_join_space:
  "ws \<noteq> [] \<Longrightarrow> \<forall>w\<in>set ws. w \<noteq> [] \<Longrightarrow> hd (join_space ws) = hd (hd ws)"
  by (induction ws rule: join_space.induct) auto

lemma join_space_Nil_iff:
  "\<forall>w\<in>set ws. w \<noteq> [] \<Longrightarrow> join_space ws = [] \<longleftrightarrow> ws = []"
  by (induction ws rule: join_space.induct) auto

lemma last_join_space:
  "ws \<noteq> [] \<Longrightarrow> \<forall>w\<in>set ws. w \<noteq> [] \<Longrightarrow> last (join_space ws) = last (last ws)"
proof (induction ws rule: join_space.induct)
  case 1
  then show ?case by simp
next
  case (2 w)
  then show ?case by simp
next
  case (3 w v vs)
  have "join_space (v # vs) \<noteq> []"
    using 3(3) join_space_Nil_iff [of "v # vs"] by (auto simp del: join_space.simps)
  moreover have "last (join_space (v # vs)) = last (last (v # vs))"
    using 3 by simp
  ultimately show ?case by simp
qed

lemma successively_no_space:
  "\<forall>c\<in>set w. \<not> is_space c \<Longrightarrow> successively (\<lambda>a b. \<not> (is_space a \<and> is_space b)) w"
proof (induction w)
  case Nil
  show ?case by (rule successively.simps(1) [THEN iffD2]) simp
next
  case (Cons a w)
  have "successively (\<lambda>a b. \<not> (is_space a \<and> is_space b)) w"
    using Cons by simp
  moreover have "\<not> is_space a" using Cons.prems by simp
  ultimately show ?case
    unfolding successively_Cons [of _ a w] by blast
qed

lemma successively_join_space:
  assumes "\<forall>w\<in>set ws. w \<noteq> [] \<and> (\<forall>c\<in>set w. \<not> is_space c)"
  shows "successively (\<lambda>a b. \<not> (is_space a \<and> is_space b)) (join_space ws)"
  using assms
proof (induction ws rule: join_space.induct)
  case 1
  show ?case unfolding join_space.simps by (rule successively.simps(1) [THEN iffD2]) simp
next
  case (2 w)
  then have "\<forall>c\<in>set w. \<not> is_space c" by simp
  then show ?case unfolding join_space.simps by (rule successively_no_space)
next
  case (3 w v vs)
  let ?P = "\<lambda>a b. \<not> (is_space a \<and> is_space b)"
  let ?j = "join_space (v # vs)"
  have good: "\<forall>u\<in>set (v # vs). u \<noteq> [] \<and> (\<forall>c\<in>set u. \<not> is_space c)"
    using 3(2) by simp
  have ne: "\<forall>u\<in>set (v # vs). u \<noteq> []" using good by blast
  have hd_ok: "\<not> is_space (hd ?j)"
  proof -
    have "hd ?j = hd v" using hd_join_space [of "v # vs"] ne by simp
    moreover have "hd v \<in> set v" using good by simp
    ultimately show ?thesis using good by simp
  qed
  have j: "successively ?P ?j" using 3(1) good by blast
  have w: "successively ?P w" using 3(2) successively_no_space [of w] by simp
  have lw: "\<not> is_space (last w)"
  proof -
    have "last w \<in> set w" using 3(2) by simp
    then show ?thesis using 3(2) by simp
  qed
  have sj: "successively ?P (CHR '' '' # ?j)"
    unfolding successively_Cons [of _ "CHR '' ''" ?j] using hd_ok j by blast
  have "successively ?P (w @ CHR '' '' # ?j)"
    unfolding successively_append_iff using w sj lw by simp
  moreover have "join_space (w # v # vs) = w @ CHR '' '' # ?j" by simp
  ultimately show ?case by metis
qed

lemma split_from_word:
  "\<forall>c\<in>set w. \<not> is_space c \<Longrightarrow> split_from cur (w @ rest) = split_from (cur @ w) rest"
  by (induction w arbitrary: cur) auto

lemma split_join_space:
  assumes "\<forall>w\<in>set ws. w \<noteq> [] \<and> (\<forall>c\<in>set w. \<not> is_space c)"
  shows "split_from [] (join_space ws) = ws"
  using assms
proof (induction ws rule: join_space.induct)
  case 1
  then show ?case by simp
next
  case (2 w)
  then show ?case using split_from_word [of w "[]" "[]"] by simp
next
  case (3 w v vs)
  have "split_from [] (w @ CHR '' '' # join_space (v # vs)) = split_from w (CHR '' '' # join_space (v # vs))"
    using 3(2) split_from_word [of w "[]"] by simp
  also have "\<dots> = w # split_from [] (join_space (v # vs))"
    using 3(2) by (simp add: is_space.simps)
  finally show ?case using 3 by simp
qed

lemma split_from_dropWhile: "split_from [] (dropWhile is_space s) = split_from [] s"
  by (induction s) auto

lemma split_from_spaces_Nil: "\<forall>c\<in>set t. is_space c \<Longrightarrow> split_from [] t = []"
  by (induction t) auto

lemma split_from_spaces:
  "\<forall>c\<in>set t. is_space c \<Longrightarrow> split_from cur t = (if cur = [] then [] else [cur])"
  by (cases t) (auto simp: split_from_spaces_Nil)

lemma split_from_trailing:
  "\<forall>c\<in>set t. is_space c \<Longrightarrow> split_from cur (s @ t) = split_from cur s"
  by (induction s arbitrary: cur) (auto simp: split_from_spaces)

lemma split_strip: "split (strip s) = split s"
proof -
  let ?d = "dropWhile is_space s"
  have "?d = rev (dropWhile is_space (rev ?d)) @ rev (takeWhile is_space (rev ?d))"
    by (metis rev_append rev_rev_ident takeWhile_dropWhile_id)
  moreover have "\<forall>c\<in>set (rev (takeWhile is_space (rev ?d))). is_space c"
    by (auto dest: set_takeWhileD)
  ultimately have "split_from [] ?d = split_from [] (rev (dropWhile is_space (rev ?d)))"
    using split_from_trailing by metis
  then show ?thesis by (simp add: split_def strip_def split_from_dropWhile)
qed

lemma sanitize_join: "sanitize_prompt (PStr s) = join_space (split s)"
  by (simp add: split_strip) (simp add: split_def)

lemma split_good: "\<forall>w\<in>set (split s). w \<noteq> [] \<and> (\<forall>c\<in>set w. \<not> is_space c)"
  unfolding split_def by (rule split_from_good) simp

lemma sanitize_no_outer_space:
  assumes "sanitize_prompt (PStr s) \<noteq> []"
  shows "\<not> is_space (hd (sanitize_prompt (PStr s))) \<and> \<not> is_space (last (sanitize_prompt (PStr s)))"
proof -
  let ?ws = "split s"
  have j: "sanitize_prompt (PStr s) = join_space ?ws" by (rule sanitize_join)
  have good: "\<forall>w\<in>set ?ws. w \<noteq> [] \<and> (\<forall>c\<in>set w. \<not> is_space c)" by (rule split_good)
  have ne: "?ws \<noteq> []" using assms j by auto
  have nee: "\<forall>w\<in>set ?ws. w \<noteq> []" using good by blast
  have h: "hd (join_space ?ws) = hd (hd ?ws)" using hd_join_space [OF ne nee] .
  have l: "last (join_space ?ws) = last (last ?ws)" using last_join_space [OF ne nee] .
  have "hd ?ws \<in> set ?ws" and "last ?ws \<in> set ?ws" using ne by simp_all
  then have "hd (hd ?ws) \<in> set (hd ?ws)" and "last (last ?ws) \<in> set (last ?ws)"
    and "\<forall>c\<in>set (hd ?ws). \<not> is_space c" and "\<forall>c\<in>set (last ?ws). \<not> is_space c"
    using good by simp_all
  then show ?thesis unfolding j h l by blast
qed

lemma sanitize_only_blanks:
  "\<forall>c\<in>set (sanitize_prompt (PStr s)). is_space c \<longrightarrow> c = CHR '' ''"
proof
  fix c assume "c \<in> set (sanitize_prompt (PStr s))"
  then have "c \<in> (\<Union>w\<in>set (split s). set w) \<union> {CHR '' ''}"
    using set_join_space [of "split s"] unfolding sanitize_join by blast
  then show "is_space c \<longrightarrow> c = CHR '' ''" using split_good [of s] by blast
qed

lemma sanitize_single_spaced:
  "successively (\<lambda>a b. \<not> (is_space a \<and> is_space b)) (sanitize_prompt (PStr s))"
  unfolding sanitize_join by (rule successively_join_space) (rule split_good)

lemma sanitize_keeps_words: "split (sanitize_prompt (PStr s)) = split s"
  unfolding sanitize_join using split_join_space [OF split_good [of s]] by (simp add: split_def)

lemma empty_not_related: "\<not> is_living_room_related []"
  by (simp add: is_living_room_related_def living_room_terms_def re_search_def lower_def)

lemma messages_distinct:
  "message empty_result = ''Prompt is empty.''
   \<and> message domain_result = ''Prompt must be related to living room design.''
   \<and> message empty_result \<noteq> message domain_result
   \<and> message (error_result render e) \<noteq> message empty_result
   \<and> message (error_result render e) \<noteq> message domain_result"
  by (simp add: empty_result_def domain_result_def error_result_def)

text \<open>
  Claim C9. \<open>sanitize_prompt\<close> returns the empty string for \<open>None\<close> and for every
  value that is not a string; on a string its result neither starts nor ends with
  whitespace, holds no whitespace character but the blank, holds no two blanks in a row,
  and has the words of the input. A prompt that is empty after sanitisation gets the
  "empty" rejection (although the empty string also fails the domain test, which comes
  second); a prompt outside the domain and an exception inside the classification get
  their own rejections; the three messages are pairwise distinct whatever the text of the
  exception.
\<close>

theorem sanitize_and_rejections:
  "sanitize_prompt PNone = [] \<and> sanitize_prompt (PBool b) = [] \<and> sanitize_prompt (PNum x) = []
   \<and> sanitize_prompt (PList xs) = [] \<and> sanitize_prompt (PDict kvs) = []
   \<and> (sanitize_prompt (PStr s) \<noteq> [] \<longrightarrow>
        \<not> is_space (hd (sanitize_prompt (PStr s))) \<and> \<not> is_space (last (sanitize_prompt (PStr s))))
   \<and> (\<forall>c\<in>set (sanitize_prompt (PStr s)). is_space c \<longrightarrow> c = CHR '' '')
   \<and> successively (\<lambda>a b. \<not> (is_space a \<and> is_space b)) (sanitize_prompt (PStr s))
   \<and> split (sanitize_prompt (PStr s)) = split s
   \<and> \<not> is_living_room_related []
   \<and> (sanitize_prompt raw = [] \<longrightarrow> validate_prompt_locally render model raw = empty_result)
   \<and> (sanitize_prompt raw \<noteq> [] \<and> \<not> is_living_room_related (sanitize_prompt raw) \<longrightarrow>
        validate_prompt_locally render model raw = domain_result)
   \<and> (sanitize_prompt raw \<noteq> [] \<and> is_living_room_related (sanitize_prompt raw)
        \<and> model (sanitize_prompt raw) = Inl e \<longrightarrow>
        validate_prompt_locally render model raw = error_result render e)
   \<and> (sanitize_prompt raw \<noteq> [] \<and> is_living_room_related (sanitize_prompt raw)
        \<and> model (sanitize_prompt raw) = Inr logits
        \<and> classify_styles (sanitize_prompt raw) logits = Inl e \<longrightarrow>
        validate_prompt_locally render model raw = error_result render e)
   \<and> message empty_result = ''Prompt is empty.''
   \<and> message domain_result = ''Prompt must be related to living room design.''
   \<and> message empty_result \<noteq> message domain_result
   \<and> message (error_result render e) \<noteq> message empty_result
   \<and> message (error_result render e) \<noteq> message domain_result"
proof -
  have v: "(sanitize_prompt raw = [] \<longrightarrow> validate_prompt_locally render model raw = empty_result)
   \<and> (sanitize_prompt raw \<noteq> [] \<and> \<not> is_living_room_related (sanitize_prompt raw) \<longrightarrow>
        validate_prompt_locally render model raw = domain_result)
   \<and> (sanitize_prompt raw \<noteq> [] \<and> is_living_room_related (sanitize_prompt raw)
        \<and> model (sanitize_prompt raw) = Inl e \<longrightarrow>
        validate_prompt_locally render model raw = error_result render e)
   \<and> (sanitize_prompt raw \<noteq> [] \<and> is_living_room_related (sanitize_prompt raw)
        \<and> model (sanitize_prompt raw) = Inr logits
        \<and> classify_styles (sanitize_prompt raw) logits = Inl e \<longrightarrow>
        validate_prompt_locally render model raw = error_result render e)"
    by (simp add: validate_prompt_locally_def Let_def del: sanitize_prompt.simps)
  have n: "sanitize_prompt PNone = [] \<and> sanitize_prompt (PBool b) = [] \<and> sanitize_prompt (PNum x) = []
   \<and> sanitize_prompt (PList xs) = [] \<and> sanitize_prompt (PDict kvs) = []"
    by simp
  show ?thesis
    using n v sanitize_no_outer_space [of s] sanitize_only_blanks [of s]
      sanitize_single_spaced [of s] sanitize_keeps_words [of s] empty_not_related
      messages_distinct [of render e]
    by blast
qed

lemma sanitize_example: "sanitize_prompt (PStr ''  cosy   den '') = ''cosy den''"
  by (simp add: split_def strip_def is_space.simps)

lemma kitchen_unrelated: "\<not> is_living_room_related ''a kitchen''"
  by (simp add: is_living_room_related_def living_room_terms_def re_search_def lower_def
        is_space.simps)

lemma sanitize_kitchen: "sanitize_prompt (PStr ''a kitchen'') = ''a kitchen''"
  by (simp add: split_def strip_def is_space.simps)

theorem sanitize_and_rejections_witness:
  "sanitize_prompt (PStr ''  cosy   den '') = ''cosy den''
   \<and> \<not> is_space (hd ''cosy den'') \<and> \<not> is_space (last ''cosy den'')
   \<and> split ''cosy den'' = split ''  cosy   den ''
   \<and> validate_prompt_locally (\<lambda>e. ''boom'') (\<lambda>p. Inl (LibraryError ''boom'')) PNone = empty_result
   \<and> validate_prompt_locally (\<lambda>e. ''boom'') (\<lambda>p. Inl (LibraryError ''boom'')) (PStr ''a kitchen'')
       = domain_result
   \<and> validate_prompt_locally (\<lambda>e. ''boom'') (\<lambda>p. Inl (LibraryError ''boom'')) (PStr ''den'')
       = error_result (\<lambda>e. ''boom'') (LibraryError ''boom'')"
proof -
  note t1 = sanitize_and_rejections [where s = "''  cosy   den ''" and raw = "PNone"
      and render = "\<lambda>e. ''boom''" and model = "\<lambda>p. Inl (LibraryError ''boom'')"
      and e = "LibraryError ''boom''"]
  note t2 = sanitize_and_rejections [where s = "''  cosy   den ''" and raw = "PStr ''a kitchen''"
      and render = "\<lambda>e. ''boom''" and model = "\<lambda>p. Inl (LibraryError ''boom'')"
      and e = "LibraryError ''boom''"]
  note t3 = sanitize_and_rejections [where s = "''  cosy   den ''" and raw = "PStr ''den''"
      and render = "\<lambda>e. ''boom''" and model = "\<lambda>p. Inl (LibraryError ''boom'')"
      and e = "LibraryError ''boom''"]
  have a: "sanitize_prompt PNone = []" by simp
  show ?thesis
    using t1 t2 t3 a
    unfolding sanitize_example sanitize_kitchen sanitize_den
    using kitchen_unrelated den_related by simp
qed

section \<open>Properties of the backend gateway\<close>

lemma ensure_noop: "url_set svc \<Longrightarrow> ensure_base_url E svc w = (Inr (), svc, w)"
  by (simp add: ensure_base_url_def)

lemma send_request_configured:
  assumes "base_url svc = Some url" "url \<noteq> []"
  shows "send_request E svc endpoint payload n d w =
           (Inr (fst (attempts E (url @ endpoint) payload d 0 n w)), svc,
            snd (attempts E (url @ endpoint) payload d 0 n w))"
  using assms
  by (simp add: send_request_def ensure_noop url_set_def split_beta)

lemma attempts_exhausted:
  "\<forall>i<n. retryable (net E (length (requests w) + i) (POST u p)) \<Longrightarrow>
   attempts E u p d a n w =
     ((PNone, PStr ''Maximum retry attempts reached''),
      w\<lparr>requests := requests w @ replicate n (POST u p),
        sleeps := sleeps w @
          map (\<lambda>i. case net E (length (requests w) + i) (POST u p) of
                      Response _ _ \<Rightarrow> d * real (a + i + 1)
                    | Raises _ \<Rightarrow> d) [0 ..< n]\<rparr>)"
proof (induction n arbitrary: a w)
  case 0
  then show ?case by simp
next
  case (Suc n)
  let ?w1 = "w\<lparr>requests := requests w @ [POST u p]\<rparr>"
  have first: "retryable (net E (length (requests w)) (POST u p))"
    using Suc.prems by (metis add.right_neutral zero_less_Suc)
  have rest: "\<forall>i<n. retryable (net E (length (requests (sleep s ?w1)) + i) (POST u p))" for s
    using Suc.prems by (auto simp: sleep_def)
  have ih: "attempts E u p d (a + 1) n (sleep s ?w1) =
     ((PNone, PStr ''Maximum retry attempts reached''),
      (sleep s ?w1)\<lparr>requests := requests (sleep s ?w1) @ replicate n (POST u p),
        sleeps := sleeps (sleep s ?w1) @
          map (\<lambda>i. case net E (length (requests (sleep s ?w1)) + i) (POST u p) of
                      Response _ _ \<Rightarrow> d * real (a + 1 + i + 1)
                    | Raises _ \<Rightarrow> d) [0 ..< n]\<rparr>)" for s
    by (rule Suc.IH [OF rest])
  show ?case
  proof (cases "net E (length (requests w)) (POST u p)")
    case (Response st b)
    with first have st: "st = 429" by simp
    show ?thesis
      using Response st ih [of "d * real (a + 1)"]
      by (simp add: send_def sleep_def map_upt_Suc replicate_app_Cons_same ac_simps
            del: upt_Suc cong: outcome.case_cong)
  next
    case (Raises e)
    with first have e: "e = Timeout" by simp
    show ?thesis
      using Raises e ih [of d]
      by (simp add: send_def sleep_def map_upt_Suc replicate_app_Cons_same ac_simps
            del: upt_Suc cong: outcome.case_cong)
  qed
qed

text \<open>
  Claim C2. Dispatch with three attempts against a configured endpoint: the answers
  429, 429, 200 give the decoded body as success after exactly the two delays
  \<open>d * 1\<close> and \<open>d * 2\<close>; a first answer with a status other than 200 and 429 fails
  at once, with one request, no delay and the error message of the response; and when
  every one of the \<open>n\<close> attempts meets a 429 or a timeout the result is the failure
  "Maximum retry attempts reached", after \<open>n\<close> requests and \<open>n\<close> delays.
\<close>

theorem retry_policy:
  assumes "base_url svc = Some url" and "url \<noteq> []"
    and "k = length (requests w)" and "r = POST (url @ endpoint) payload"
  shows "(net E k r = Response 429 b1 \<and> net E (k + 1) r = Response 429 b2
          \<and> net E (k + 2) r = Response 200 (Some j) \<longrightarrow>
            send_request E svc endpoint payload 3 d w =
              (Inr (j, PNone), svc,
               w\<lparr>requests := requests w @ [r, r, r], sleeps := sleeps w @ [d * 1, d * 2]\<rparr>))
       \<and> (net E k r = Response st body \<and> st \<noteq> 200 \<and> st \<noteq> 429 \<longrightarrow>
            send_request E svc endpoint payload 3 d w =
              (Inr (PNone, http_error_msg st body), svc, w\<lparr>requests := requests w @ [r]\<rparr>))
       \<and> ((\<forall>i<n. retryable (net E (k + i) r)) \<longrightarrow>
            send_request E svc endpoint payload n d w =
              (Inr (PNone, PStr ''Maximum retry attempts reached''), svc,
               w\<lparr>requests := requests w @ replicate n r,
                 sleeps := sleeps w @
                   map (\<lambda>i. case net E (k + i) r of
                               Response _ _ \<Rightarrow> d * real (i + 1)
                             | Raises _ \<Rightarrow> d) [0 ..< n]\<rparr>))"
proof (intro conjI impI)
  assume a: "net E k r = Response 429 b1 \<and> net E (k + 1) r = Response 429 b2
          \<and> net E (k + 2) r = Response 200 (Some j)"
  have "attempts E (url @ endpoint) payload d 0 (Suc (Suc (Suc 0))) w =
          ((j, PNone),
           w\<lparr>requests := requests w @ [r, r, r], sleeps := sleeps w @ [d * 1, d * 2]\<rparr>)"
    using a assms(3,4) by (simp add: send_def sleep_def)
  then show "send_request E svc endpoint payload 3 d w =
              (Inr (j, PNone), svc,
               w\<lparr>requests := requests w @ [r, r, r], sleeps := sleeps w @ [d * 1, d * 2]\<rparr>)"
    using send_request_configured [OF assms(1,2), of E endpoint payload 3 d w]
    by (simp add: numeral_3_eq_3)
next
  assume a: "net E k r = Response st body \<and> st \<noteq> 200 \<and> st \<noteq> 429"
  have "attempts E (url @ endpoint) payload d 0 (Suc (Suc (Suc 0))) w =
          ((PNone, http_error_msg st body), w\<lparr>requests := requests w @ [r]\<rparr>)"
    using a assms(3,4) by (simp add: send_def)
  then show "send_request E svc endpoint payload 3 d w =
              (Inr (PNone, http_error_msg st body), svc, w\<lparr>requests := requests w @ [r]\<rparr>)"
    using send_request_configured [OF assms(1,2), of E endpoint payload 3 d w]
    by (simp add: numeral_3_eq_3)
next
  assume a: "\<forall>i<n. retryable (net E (k + i) r)"
  then have "\<forall>i<n. retryable (net E (length (requests w) + i) (POST (url @ endpoint) payload))"
    using assms(3,4) by simp
  from attempts_exhausted [OF this, of d 0]
  show "send_request E svc endpoint payload n d w =
              (Inr (PNone, PStr ''Maximum retry attempts reached''), svc,
               w\<lparr>requests := requests w @ replicate n r,
                 sleeps := sleeps w @
                   map (\<lambda>i. case net E (k + i) r of
                               Response _ _ \<Rightarrow> d * real (i + 1)
                             | Raises _ \<Rightarrow> d) [0 ..< n]\<rparr>)"
    using send_request_configured [OF assms(1,2), of E endpoint payload n d w] assms(3,4)
    by (simp cong: outcome.case_cong)
qed

theorem retry_policy_witness:
  "send_request
     (demo_env (\<lambda>i r. if i < 2 then Response 429 None else Response 200 (Some (PDict []))))
     demo_service ''/generate'' (PDict []) 3 2 \<lparr>requests = [], sleeps = []\<rparr>
   = (Inr (PDict [], PNone), demo_service,
      \<lparr>requests = [POST ''http://h/generate'' (PDict []), POST ''http://h/generate'' (PDict []),
                   POST ''http://h/generate'' (PDict [])],
       sleeps = [2, 4]\<rparr>)
   \<and> send_request (demo_env (\<lambda>i r. Response 500 None))
       demo_service ''/generate'' (PDict []) 3 2 \<lparr>requests = [], sleeps = []\<rparr>
     = (Inr (PNone, PStr ''HTTP error 500''), demo_service,
        \<lparr>requests = [POST ''http://h/generate'' (PDict [])], sleeps = []\<rparr>)
   \<and> send_request (demo_env (\<lambda>i r. if i = 1 then Raises Timeout else Response 429 None))
       demo_service ''/generate'' (PDict []) 3 2 \<lparr>requests = [], sleeps = []\<rparr>
     = (Inr (PNone, PStr ''Maximum retry attempts reached''), demo_service,
        \<lparr>requests = [POST ''http://h/generate'' (PDict []), POST ''http://h/generate'' (PDict []),
                     POST ''http://h/generate'' (PDict [])],
         sleeps = [2, 2, 6]\<rparr>)"
proof -
  let ?w = "\<lparr>requests = [], sleeps = []\<rparr>"
  let ?r = "POST ''http://h/generate'' (PDict [])"
  have b: "base_url demo_service = Some ''http://h''" "''http://h'' \<noteq> []"
    and k: "(0::nat) = length (requests ?w)"
    and r: "?r = POST (''http://h'' @ ''/generate'') (PDict [])"
    by (simp_all add: demo_service_def)
  note t1 = retry_policy [OF b k r,
      where E = "demo_env (\<lambda>i r. if i < 2 then Response 429 None else Response 200 (Some (PDict [])))"
        and ?b1.0 = None and ?b2.0 = None and j = "PDict []" and d = 2 and n = 0]
  note t2 = retry_policy [OF b k r, where E = "demo_env (\<lambda>i r. Response 500 None)"
        and st = 500 and body = None and d = 2 and n = 0]
  note t3 = retry_policy [OF b k r,
      where E = "demo_env (\<lambda>i r. if i = 1 then Raises Timeout else Response 429 None)"
        and d = 2 and n = 3]
  have s500: "string_of_nat 500 = ''500''" by code_simp
  from t1 have c1: "send_request
     (demo_env (\<lambda>i r. if i < 2 then Response 429 None else Response 200 (Some (PDict []))))
     demo_service ''/generate'' (PDict []) 3 2 ?w
   = (Inr (PDict [], PNone), demo_service, \<lparr>requests = [?r, ?r, ?r], sleeps = [2, 4]\<rparr>)"
    by (simp add: demo_env_def)
  from t2 have c2: "send_request (demo_env (\<lambda>i r. Response 500 None))
       demo_service ''/generate'' (PDict []) 3 2 ?w
     = (Inr (PNone, PStr ''HTTP error 500''), demo_service, \<lparr>requests = [?r], sleeps = []\<rparr>)"
    by (simp add: demo_env_def http_error_msg_def s500)
  from t3 have c3: "send_request (demo_env (\<lambda>i r. if i = 1 then Raises Timeout else Response 429 None))
       demo_service ''/generate'' (PDict []) 3 2 ?w
     = (Inr (PNone, PStr ''Maximum retry attempts reached''), demo_service,
        \<lparr>requests = [?r, ?r, ?r], sleeps = [2, 2, 6]\<rparr>)"
    by (simp add: demo_env_def numeral_3_eq_3 less_Suc_eq)
  from c1 c2 c3 show ?thesis by simp
qed

lemma probe_url_failing:
  assumes "\<forall>i r. failing (net E i r)"
  shows "fst (probe_url E url w) = Inr False"
proof (cases "net E (length (requests w)) (GET (url @ ''/health''))")
  case (Response st b)
  have "failing (net E (length (requests w)) (GET (url @ ''/health'')))" using assms by blast
  with Response have st: "st \<noteq> 200" by simp
  have f2: "failing (net E (Suc (length (requests w))) (GET url))" using assms by blast
  show ?thesis
  proof (cases "net E (Suc (length (requests w))) (GET url)")
    case (Response st2 b2)
    with f2 have "st2 \<noteq> 200" by simp
    with Response \<open>net E (length (requests w)) (GET (url @ ''/health'')) = Response st b\<close> st
    show ?thesis by (simp add: probe_url_def send_def)
  next
    case (Raises e)
    with \<open>net E (length (requests w)) (GET (url @ ''/health'')) = Response st b\<close> st
    show ?thesis by (simp add: probe_url_def send_def)
  qed
next
  case (Raises e)
  have "failing (net E (length (requests w)) (GET (url @ ''/health'')))" using assms by blast
  with Raises have "is_request_exception e" by simp
  with Raises show ?thesis by (simp add: probe_url_def send_def)
qed

lemma test_connection_configured:
  assumes "base_url svc = Some url" and "url \<noteq> []"
  shows "test_connection E svc w = (fst (probe_url E url w), svc, snd (probe_url E url w))"
  using assms by (simp add: test_connection_def ensure_noop url_set_def split_beta)

lemma probe_times_failing:
  assumes "base_url svc = Some url" and "url \<noteq> []" and "\<forall>i r. failing (net E i r)"
  shows "fst (probe_times n E svc w) = replicate n (Inr False)
         \<and> fst (snd (probe_times n E svc w)) = svc"
proof (induction n arbitrary: w)
  case 0
  show ?case by simp
next
  case (Suc n)
  show ?case
    using Suc [of "snd (probe_url E url w)"] probe_url_failing [OF assms(3), of url w]
    by (simp add: test_connection_configured [OF assms(1,2)] split_beta)
qed

lemma probe_url_fallback:
  assumes "net E (length (requests w)) (GET (url @ ''/health'')) = Response st b" and "st \<noteq> 200"
  shows "requests (snd (probe_url E url w)) = requests w @ [GET (url @ ''/health''), GET url]"
  using assms by (simp add: probe_url_def send_def split: outcome.splits)

lemma check_health_failing:
  assumes "base_url svc = Some url" and "url \<noteq> []" and "\<forall>i r. failing (net E i r)"
  shows "fst (check_health E svc w) = Inr False"
proof (cases "net E (length (requests w)) (GET (url @ ''/health''))")
  case (Response st b)
  have "failing (net E (length (requests w)) (GET (url @ ''/health'')))" using assms by blast
  with Response have st: "st \<noteq> 200" by simp
  have f2: "failing (net E (Suc (length (requests w))) (GET url))" using assms(3) by blast
  show ?thesis
  proof (cases "net E (Suc (length (requests w))) (GET url)")
    case (Response st2 b2)
    with f2 have "st2 \<noteq> 200" by simp
    with Response \<open>net E (length (requests w)) (GET (url @ ''/health'')) = Response st b\<close> st assms(1,2)
    show ?thesis by (simp add: check_health_def send_def)
  next
    case (Raises e)
    with f2 have "is_request_exception e" by simp
    with Raises \<open>net E (length (requests w)) (GET (url @ ''/health'')) = Response st b\<close> st assms(1,2)
    show ?thesis by (simp add: check_health_def send_def)
  qed
next
  case (Raises e)
  have "failing (net E (length (requests w)) (GET (url @ ''/health'')))" using assms by blast
  with Raises have "is_request_exception e" by simp
  with Raises assms(1,2) show ?thesis by (simp add: check_health_def send_def)
qed

lemma check_health_root_after_404_only:
  assumes "base_url svc = Some url" and "url \<noteq> []"
    and "net E (length (requests w)) (GET (url @ ''/health'')) = Response st b"
    and "st \<noteq> 404"
  shows "check_health E svc w = (Inr (st = 200), w\<lparr>requests := requests w @ [GET (url @ ''/health'')]\<rparr>)"
  using assms by (simp add: check_health_def send_def)

text \<open>
  Claim C8. Against a configured endpoint that is down (every request meets a status other
  than 200 or a request exception), any number of probes in a row all return \<open>False\<close>,
  none raises, and the service record stays as it was; a probe whose health request was
  answered (necessarily with a status other than 200) has gone on to the root path before
  it gave up. \<open>check_health\<close> returns \<open>False\<close> there as well (its own root probe follows
  a 404 only).
\<close>

theorem probe_never_verifies:
  assumes "base_url svc = Some url" and "url \<noteq> []" and "\<forall>i r. failing (net E i r)"
  shows "fst (probe_times n E svc w) = replicate n (Inr False)
       \<and> fst (snd (probe_times n E svc w)) = svc
       \<and> fst (test_connection E svc w) = Inr False
       \<and> (net E (length (requests w)) (GET (url @ ''/health'')) = Response st b \<longrightarrow>
            requests (snd (snd (test_connection E svc w)))
              = requests w @ [GET (url @ ''/health''), GET url])
       \<and> fst (check_health E svc w) = Inr False"
proof -
  have fb: "net E (length (requests w)) (GET (url @ ''/health'')) = Response st b \<longrightarrow>
            requests (snd (snd (test_connection E svc w)))
              = requests w @ [GET (url @ ''/health''), GET url]"
  proof
    assume a: "net E (length (requests w)) (GET (url @ ''/health'')) = Response st b"
    have "failing (net E (length (requests w)) (GET (url @ ''/health'')))" using assms(3) by blast
    with a have "st \<noteq> 200" by simp
    from probe_url_fallback [OF a this]
    show "requests (snd (snd (test_connection E svc w)))
              = requests w @ [GET (url @ ''/health''), GET url]"
      by (simp add: test_connection_configured [OF assms(1,2)])
  qed
  have tc: "fst (test_connection E svc w) = Inr False"
    using probe_url_failing [OF assms(3), of url w]
    by (simp add: test_connection_configured [OF assms(1,2)])
  show ?thesis
    using probe_times_failing [OF assms, of n w] fb tc check_health_failing [OF assms, of w]
    by blast
qed

theorem probe_never_verifies_witness:
  "fst (probe_times 3 (demo_env (\<lambda>i r. case r of GET u \<Rightarrow> if u = ''http://h/health'' then Response 503 None else Raises (RequestException ''refused'')
                                           | POST u p \<Rightarrow> Raises Timeout))
          demo_service \<lparr>requests = [], sleeps = []\<rparr>)
     = [Inr False, Inr False, Inr False]
   \<and> requests (snd (snd (test_connection
          (demo_env (\<lambda>i r. case r of GET u \<Rightarrow> if u = ''http://h/health'' then Response 503 None else Raises (RequestException ''refused'')
                                           | POST u p \<Rightarrow> Raises Timeout))
          demo_service \<lparr>requests = [], sleeps = []\<rparr>)))
     = [GET ''http://h/health'', GET ''http://h'']
   \<and> fst (check_health (demo_env (\<lambda>i r. case r of GET u \<Rightarrow> if u = ''http://h/health'' then Response 503 None else Raises (RequestException ''refused'')
                                           | POST u p \<Rightarrow> Raises Timeout))
          demo_service \<lparr>requests = [], sleeps = []\<rparr>) = Inr False"
proof -
  let ?E = "demo_env (\<lambda>i r. case r of GET u \<Rightarrow> if u = ''http://h/health'' then Response 503 None else Raises (RequestException ''refused'')
                                           | POST u p \<Rightarrow> Raises Timeout)"
  have b: "base_url demo_service = Some ''http://h''" "''http://h'' \<noteq> []"
    by (simp_all add: demo_service_def)
  have f: "\<forall>i r. failing (net ?E i r)"
    by (simp add: demo_env_def split: request.splits)
  note t = probe_never_verifies [OF b f, where n = 3 and w = "\<lparr>requests = [], sleeps = []\<rparr>"
      and st = 503 and b = None]
  have h: "net ?E (length (requests \<lparr>requests = [], sleeps = []\<rparr>)) (GET (''http://h'' @ ''/health''))
             = Response 503 None"
    by (simp add: demo_env_def)
  from t h show ?thesis by (simp add: numeral_3_eq_3)
qed

lemma post_bodies_append: "post_bodies (xs @ ys) = post_bodies xs @ post_bodies ys"
  by (induction xs rule: post_bodies.induct) auto

lemma probe_url_bodies: "post_bodies (requests (snd (probe_url E url w))) = post_bodies (requests w)"
  by (simp add: probe_url_def send_def post_bodies_append split_beta
        split: outcome.splits)

lemma init_app_bodies:
  "post_bodies (requests (snd (snd (init_app E cfg svc w)))) = post_bodies (requests w)"
  by (simp add: init_app_def Let_def probe_url_bodies split_beta split: option.splits)

lemma ensure_bodies:
  "post_bodies (requests (snd (snd (ensure_base_url E svc w)))) = post_bodies (requests w)"
  by (simp add: ensure_base_url_def init_app_bodies split_beta split: option.splits)

lemma test_connection_bodies:
  "post_bodies (requests (snd (snd (test_connection E svc w)))) = post_bodies (requests w)"
proof -
  obtain r svc1 w1 where e: "ensure_base_url E svc w = (r, svc1, w1)"
    by (cases "ensure_base_url E svc w") auto
  have "post_bodies (requests w1) = post_bodies (requests w)"
    using ensure_bodies [of E svc w] e by simp
  then show ?thesis
    using e by (simp add: test_connection_def probe_url_bodies split_beta
        split: sum.splits option.splits)
qed

lemma attempts_bodies:
  "set (post_bodies (requests (snd (attempts E u p d a n w))))
     \<subseteq> set (post_bodies (requests w)) \<union> {p}"
proof (induction n arbitrary: a w)
  case 0
  show ?case by auto
next
  case (Suc n)
  let ?w1 = "w\<lparr>requests := requests w @ [POST u p]\<rparr>"
  have ih: "set (post_bodies (requests (snd (attempts E u p d (a + 1) n (sleep s ?w1)))))
     \<subseteq> set (post_bodies (requests w)) \<union> {p}" for s
    using Suc [of "a + 1" "sleep s ?w1"] by (auto simp: sleep_def post_bodies_append)
  show ?case
    using ih [of "d * real (a + 1)"] ih [of d]
    by (auto simp: send_def post_bodies_append split: outcome.splits option.splits)
qed

lemma send_request_bodies:
  "set (post_bodies (requests (snd (snd (send_request E svc ep p n d w)))))
     \<subseteq> set (post_bodies (requests w)) \<union> {p}"
proof -
  obtain r svc1 w1 where e: "ensure_base_url E svc w = (r, svc1, w1)"
    by (cases "ensure_base_url E svc w") auto
  have w1: "post_bodies (requests w1) = post_bodies (requests w)"
    using ensure_bodies [of E svc w] e by simp
  show ?thesis
    using e w1 attempts_bodies [of E _ p d 0 n w1]
    by (auto simp: send_request_def split_beta split: sum.splits option.splits)
qed

lemma payload_keys:
  "map_of (generation_payload prompt style gs np steps seed) ''prompt'' = Some (PStr prompt)
   \<and> map_of (generation_payload prompt style gs np steps seed) ''style''
       = (if truthy style \<and> style \<noteq> PStr ''auto'' then Some style else None)
   \<and> map_of (generation_payload prompt style gs np steps seed) ''negative_prompt''
       = (if truthy np then Some np else None)
   \<and> map_of (generation_payload prompt style gs np steps seed) ''guidance_scale''
       = (if truthy gs then Some gs else None)
   \<and> map_of (generation_payload prompt style gs np steps seed) ''num_inference_steps''
       = (if truthy steps then Some steps else None)
   \<and> map_of (generation_payload prompt style gs np steps seed) ''seed''
       = (if truthy seed then Some seed else None)
   \<and> set (map fst (generation_payload prompt style gs np steps seed))
       \<subseteq> {''prompt'', ''style'', ''negative_prompt'', ''guidance_scale'',
           ''num_inference_steps'', ''seed''}"
  by (auto simp: generation_payload_def)

lemma ensure_no_endpoint:
  assumes "no_endpoint E svc"
  shows "\<exists>svc1. ensure_base_url E svc w = (Inr (), svc1, w) \<and> \<not> url_set svc1"
  using assms
  by (auto simp: no_endpoint_def ensure_base_url_def init_app_def url_set_def Let_def
        split: option.splits)

lemma generate_image_refuses:
  assumes "no_endpoint E svc"
  shows "fst (generate_image E svc prompt style gs np steps seed w)
           = Inr (PNone, PStr (''Image generation is disabled because COLAB_ENDPOINT ''
                               @ ''is not configured or accessible.''))
         \<and> snd (snd (generate_image E svc prompt style gs np steps seed w)) = w"
proof -
  obtain svc1 where "ensure_base_url E svc w = (Inr (), svc1, w)" and "\<not> url_set svc1"
    using ensure_no_endpoint [OF assms] by blast
  then show ?thesis by (simp add: generate_image_def)
qed

lemma generate_image_bodies:
  "set (post_bodies (requests (snd (snd (generate_image E svc prompt style gs np steps seed w)))))
     \<subseteq> set (post_bodies (requests w))
         \<union> {PDict (generation_payload prompt style gs np steps seed)}"
proof -
  obtain r svc1 w1 where e: "ensure_base_url E svc w = (r, svc1, w1)"
    by (cases "ensure_base_url E svc w") auto
  have w1: "post_bodies (requests w1) = post_bodies (requests w)"
    using ensure_bodies [of E svc w] e by simp
  obtain r2 svc2 w2 where t: "test_connection E svc1 w1 = (r2, svc2, w2)"
    by (cases "test_connection E svc1 w1") auto
  have w2: "post_bodies (requests w2) = post_bodies (requests w)"
    using test_connection_bodies [of E svc1 w1] t w1 by simp
  let ?p = "PDict (generation_payload prompt style gs np steps seed)"
  obtain r3 svc3 w3 where s: "send_request E svc2 ''/generate'' ?p 3 2 w2 = (r3, svc3, w3)"
    by (cases "send_request E svc2 ''/generate'' ?p 3 2 w2") auto
  have w3: "set (post_bodies (requests w3)) \<subseteq> set (post_bodies (requests w)) \<union> {?p}"
    using send_request_bodies [of E svc2 "''/generate''" ?p 3 2 w2] s w2 by simp
  show ?thesis
    using e t s w1 w2 w3
    by (auto simp: generate_image_def split: sum.splits)
qed

lemma attempts_requests:
  "\<exists>k. k \<le> n \<and> (0 < n \<longrightarrow> 0 < k)
       \<and> requests (snd (attempts E u p d a n w)) = requests w @ replicate k (POST u p)"
proof (induction n arbitrary: a w)
  case 0
  show ?case by simp
next
  case (Suc n)
  let ?w1 = "w\<lparr>requests := requests w @ [POST u p]\<rparr>"
  have one: "requests ?w1 = requests w @ replicate 1 (POST u p)" by simp
  have ih: "\<exists>k. 0 < k \<and> k \<le> Suc n
      \<and> requests (snd (attempts E u p d (a + 1) n (sleep s ?w1)))
          = requests w @ replicate k (POST u p)" for s
  proof -
    obtain k where k: "k \<le> n"
      "requests (snd (attempts E u p d (a + 1) n (sleep s ?w1)))
         = requests (sleep s ?w1) @ replicate k (POST u p)"
      using Suc [of "a + 1" "sleep s ?w1"] by blast
    have "requests (sleep s ?w1) @ replicate k (POST u p)
            = requests w @ replicate (Suc k) (POST u p)"
      by (simp add: sleep_def)
    with k show ?thesis by (intro exI [of _ "Suc k"]) simp
  qed
  have stop: "\<exists>k. 0 < k \<and> k \<le> Suc n \<and> requests ?w1 = requests w @ replicate k (POST u p)"
    by (intro exI [of _ 1]) simp
  have "\<exists>k. 0 < k \<and> k \<le> Suc n
      \<and> requests (snd (attempts E u p d a (Suc n) w)) = requests w @ replicate k (POST u p)"
  proof (cases "net E (length (requests w)) (POST u p)")
    case (Response st b)
    show ?thesis
    proof (cases "st = 200")
      case True
      with Response stop show ?thesis
        by (cases b) (simp_all add: send_def)
    next
      case False
      show ?thesis
      proof (cases "st = 429")
        case True
        with Response ih [of "d * real (a + 1)"] show ?thesis by (simp add: send_def)
      next
        case False
        with Response \<open>st \<noteq> 200\<close> stop show ?thesis by (simp add: send_def)
      qed
    qed
  next
    case (Raises e)
    show ?thesis
    proof (cases "e = Timeout")
      case True
      with Raises ih [of d] show ?thesis by (simp add: send_def)
    next
      case False
      with Raises stop show ?thesis by (simp add: send_def)
    qed
  qed
  then show ?case by blast
qed

lemma probe_url_health_ok:
  assumes "net E (length (requests w)) (GET (url @ ''/health'')) = Response 200 b"
  shows "probe_url E url w = (Inr True, w\<lparr>requests := requests w @ [GET (url @ ''/health'')]\<rparr>)"
  using assms by (simp add: probe_url_def send_def)

lemma probe_url_root_ok:
  assumes "net E (length (requests w)) (GET (url @ ''/health'')) = Response st b" and "st \<noteq> 200"
    and "net E (Suc (length (requests w))) (GET url) = Response 200 b2"
  shows "probe_url E url w
           = (Inr True, w\<lparr>requests := requests w @ [GET (url @ ''/health''), GET url]\<rparr>)"
  using assms by (simp add: probe_url_def send_def)

lemma generate_image_dispatches:
  assumes "base_url svc = Some url" and "url \<noteq> []"
    and "probe_url E url w = (Inr True, w1)"
  shows "\<exists>k. 0 < k \<and> k \<le> 3
      \<and> requests (snd (snd (generate_image E svc prompt style gs np steps seed w)))
          = requests w1 @ replicate k (POST (url @ ''/generate'')
                                (PDict (generation_payload prompt style gs np steps seed)))"
proof -
  let ?p = "PDict (generation_payload prompt style gs np steps seed)"
  have u: "url_set svc" using assms(1,2) by (simp add: url_set_def)
  have t: "test_connection E svc w = (Inr True, svc, w1)"
    using assms by (simp add: test_connection_configured [OF assms(1,2)])
  have s: "send_request E svc ''/generate'' ?p 3 2 w1 =
           (Inr (fst (attempts E (url @ ''/generate'') ?p 2 0 3 w1)), svc,
            snd (attempts E (url @ ''/generate'') ?p 2 0 3 w1))"
    by (rule send_request_configured [OF assms(1,2)])
  have g: "snd (snd (generate_image E svc prompt style gs np steps seed w))
             = snd (attempts E (url @ ''/generate'') ?p 2 0 3 w1)"
    using u t s by (simp add: generate_image_def ensure_noop)
  obtain k where "k \<le> 3" "0 < k"
    "requests (snd (attempts E (url @ ''/generate'') ?p 2 0 3 w1))
       = requests w1 @ replicate k (POST (url @ ''/generate'') ?p)"
    using attempts_requests [of 3 E "url @ ''/generate''" ?p 2 0 w1] by auto
  then show ?thesis unfolding g by blast
qed

lemma generate_image_unavailable:
  assumes "base_url svc = Some url" and "url \<noteq> []"
    and "fst (probe_url E url w) = Inr False"
  shows "generate_image E svc prompt style gs np steps seed w
           = (Inr (PNone, PStr (''Backend service is currently unavailable. ''
                                @ ''Please try again later.'')), svc, snd (probe_url E url w))"
proof -
  have u: "url_set svc" using assms(1,2) by (simp add: url_set_def)
  have t: "test_connection E svc w = (Inr False, svc, snd (probe_url E url w))"
    using assms(3) by (simp add: test_connection_configured [OF assms(1,2)])
  show ?thesis using u t by (simp add: generate_image_def ensure_noop)
qed

text \<open>
  A configuration whose \<open>COLAB_ENDPOINT\<close> is \<open>None\<close> (what the application sets when
  the environment variable is missing) is no case of the refusal: \<open>init_app\<close> raises at
  \<open>.rstrip\<close>, and the exception leaves \<open>generate_image\<close>, still without any request.
\<close>

lemma generate_image_endpoint_None:
  assumes "\<not> url_set svc" and "\<not> use_local_validation svc"
    and "(case app svc of Some cfg \<Rightarrow> Some cfg | None \<Rightarrow> current_app E) = Some cfg"
    and "COLAB_ENDPOINT cfg = None"
  shows "fst (generate_image E svc prompt style gs np steps seed w) = Inl (AttributeError ''rstrip'')
       \<and> snd (snd (generate_image E svc prompt style gs np steps seed w)) = w"
  using assms
  by (simp add: generate_image_def ensure_base_url_def init_app_def Let_def)

text \<open>
  Claim C7 (as amended). \<open>generate_image\<close> refuses at once, without any request, when no
  endpoint is configured: the service holds no URL and either validates locally, or finds
  no configuration, or finds one whose \<open>COLAB_ENDPOINT\<close> is a string that is empty once
  its trailing slashes are stripped (a configuration whose \<open>COLAB_ENDPOINT\<close> is \<open>None\<close>
  is outside this statement). A service that holds a URL probes first: when the health
  path answers 200, or when it answers another status and the root path answers 200, the
  payload is posted to \<open>/generate\<close>, between one and three times; when the probe fails
  the call answers that the backend is unavailable and posts nothing. Every JSON body the
  call posts is that one payload: the prompt, and each of \<open>style\<close>, \<open>negative_prompt\<close>,
  \<open>guidance_scale\<close>, \<open>num_inference_steps\<close> and \<open>seed\<close> exactly when that argument is
  true in Python's sense (not \<open>None\<close>, not empty, not zero), \<open>style\<close> in addition only
  when it is not \<open>"auto"\<close>. A \<open>guidance_scale\<close> of 7.5, the default of the parameter,
  is true and therefore sent.
\<close>

theorem generate_image_payload:
  "(no_endpoint E svc \<longrightarrow>
      fst (generate_image E svc prompt style gs np steps seed w)
        = Inr (PNone, PStr (''Image generation is disabled because COLAB_ENDPOINT ''
                            @ ''is not configured or accessible.''))
      \<and> snd (snd (generate_image E svc prompt style gs np steps seed w)) = w)
   \<and> (base_url svc = Some url \<and> url \<noteq> []
        \<and> net E (length (requests w)) (GET (url @ ''/health'')) = Response 200 b \<longrightarrow>
      (\<exists>k. 0 < k \<and> k \<le> 3
        \<and> requests (snd (snd (generate_image E svc prompt style gs np steps seed w)))
            = requests w @ GET (url @ ''/health'')
                # replicate k (POST (url @ ''/generate'')
                               (PDict (generation_payload prompt style gs np steps seed)))))
   \<and> (base_url svc = Some url \<and> url \<noteq> []
        \<and> net E (length (requests w)) (GET (url @ ''/health'')) = Response st b \<and> st \<noteq> 200
        \<and> net E (Suc (length (requests w))) (GET url) = Response 200 b2 \<longrightarrow>
      (\<exists>k. 0 < k \<and> k \<le> 3
        \<and> requests (snd (snd (generate_image E svc prompt style gs np steps seed w)))
            = requests w @ GET (url @ ''/health'') # GET url
                # replicate k (POST (url @ ''/generate'')
                               (PDict (generation_payload prompt style gs np steps seed)))))
   \<and> (base_url svc = Some url \<and> url \<noteq> [] \<and> fst (probe_url E url w) = Inr False \<longrightarrow>
      generate_image E svc prompt style gs np steps seed w
        = (Inr (PNone, PStr (''Backend service is currently unavailable. ''
                             @ ''Please try again later.'')), svc, snd (probe_url E url w)))
   \<and> set (post_bodies (requests (snd (snd (generate_image E svc prompt style gs np steps seed w)))))
       \<subseteq> set (post_bodies (requests w))
           \<union> {PDict (generation_payload prompt style gs np steps seed)}
   \<and> map_of (generation_payload prompt style gs np steps seed) ''prompt'' = Some (PStr prompt)
   \<and> map_of (generation_payload prompt style gs np steps seed) ''style''
       = (if truthy style \<and> style \<noteq> PStr ''auto'' then Some style else None)
   \<and> map_of (generation_payload prompt style gs np steps seed) ''negative_prompt''
       = (if truthy np then Some np else None)
   \<and> map_of (generation_payload prompt style gs np steps seed) ''guidance_scale''
       = (if truthy gs then Some gs else None)
   \<and> map_of (generation_payload prompt style gs np steps seed) ''num_inference_steps''
       = (if truthy steps then Some steps else None)
   \<and> map_of (generation_payload prompt style gs np steps seed) ''seed''
       = (if truthy seed then Some seed else None)
   \<and> set (map fst (generation_payload prompt style gs np steps seed))
       \<subseteq> {''prompt'', ''style'', ''negative_prompt'', ''guidance_scale'',
           ''num_inference_steps'', ''seed''}"
proof -
  let ?p = "PDict (generation_payload prompt style gs np steps seed)"
  let ?G = "generate_image E svc prompt style gs np steps seed w"
  have a: "no_endpoint E svc \<longrightarrow>
      fst ?G = Inr (PNone, PStr (''Image generation is disabled because COLAB_ENDPOINT ''
                            @ ''is not configured or accessible.''))
      \<and> snd (snd ?G) = w"
    using generate_image_refuses [of E svc prompt style gs np steps seed w] by blast
  have b: "base_url svc = Some url \<and> url \<noteq> []
        \<and> net E (length (requests w)) (GET (url @ ''/health'')) = Response 200 b \<longrightarrow>
      (\<exists>k. 0 < k \<and> k \<le> 3
        \<and> requests (snd (snd ?G))
            = requests w @ GET (url @ ''/health'') # replicate k (POST (url @ ''/generate'') ?p))"
  proof (intro impI, elim conjE)
    assume h: "base_url svc = Some url" "url \<noteq> []"
      "net E (length (requests w)) (GET (url @ ''/health'')) = Response 200 b"
    from generate_image_dispatches [OF h(1,2) probe_url_health_ok [OF h(3)],
        of prompt style gs np steps seed]
    show "\<exists>k. 0 < k \<and> k \<le> 3
        \<and> requests (snd (snd ?G))
            = requests w @ GET (url @ ''/health'') # replicate k (POST (url @ ''/generate'') ?p)"
      by simp
  qed
  have c: "base_url svc = Some url \<and> url \<noteq> []
        \<and> net E (length (requests w)) (GET (url @ ''/health'')) = Response st b \<and> st \<noteq> 200
        \<and> net E (Suc (length (requests w))) (GET url) = Response 200 b2 \<longrightarrow>
      (\<exists>k. 0 < k \<and> k \<le> 3
        \<and> requests (snd (snd ?G))
            = requests w @ GET (url @ ''/health'') # GET url
                # replicate k (POST (url @ ''/generate'') ?p))"
  proof (intro impI, elim conjE)
    assume h: "base_url svc = Some url" "url \<noteq> []"
      "net E (length (requests w)) (GET (url @ ''/health'')) = Response st b" "st \<noteq> 200"
      "net E (Suc (length (requests w))) (GET url) = Response 200 b2"
    from generate_image_dispatches [OF h(1,2) probe_url_root_ok [OF h(3,4,5)],
        of prompt style gs np steps seed]
    show "\<exists>k. 0 < k \<and> k \<le> 3
        \<and> requests (snd (snd ?G))
            = requests w @ GET (url @ ''/health'') # GET url
                # replicate k (POST (url @ ''/generate'') ?p)"
      by simp
  qed
  have d: "base_url svc = Some url \<and> url \<noteq> [] \<and> fst (probe_url E url w) = Inr False \<longrightarrow>
      ?G = (Inr (PNone, PStr (''Backend service is currently unavailable. ''
                             @ ''Please try again later.'')), svc, snd (probe_url E url w))"
    using generate_image_unavailable [of svc url E w prompt style gs np steps seed] by blast
  have e: "set (post_bodies (requests (snd (snd ?G)))) \<subseteq> set (post_bodies (requests w)) \<union> {?p}"
    by (rule generate_image_bodies)
  note f = payload_keys [of prompt style gs np steps seed]
  show ?thesis
    by (intro conjI a b c d e f [THEN conjunct1] f [THEN conjunct2, THEN conjunct1]
        f [THEN conjunct2, THEN conjunct2, THEN conjunct1]
        f [THEN conjunct2, THEN conjunct2, THEN conjunct2, THEN conjunct1]
        f [THEN conjunct2, THEN conjunct2, THEN conjunct2, THEN conjunct2, THEN conjunct1]
        f [THEN conjunct2, THEN conjunct2, THEN conjunct2, THEN conjunct2, THEN conjunct2, THEN conjunct1]
        f [THEN conjunct2, THEN conjunct2, THEN conjunct2, THEN conjunct2, THEN conjunct2, THEN conjunct2])
qed

theorem generate_image_payload_witness:
  "no_endpoint (demo_env (\<lambda>i r. Response 200 None))
     \<lparr>app = None, use_local_validation = False, base_url = None\<rparr>
   \<and> generate_image (demo_env (\<lambda>i r. Response 200 None))
       \<lparr>app = None, use_local_validation = False, base_url = None\<rparr>
       ''a den'' (PStr ''modern'') (PNum 7.5) PNone PNone PNone \<lparr>requests = [], sleeps = []\<rparr>
     = (Inr (PNone, PStr (''Image generation is disabled because COLAB_ENDPOINT ''
                          @ ''is not configured or accessible.'')),
        \<lparr>app = None, use_local_validation = False, base_url = None\<rparr>,
        \<lparr>requests = [], sleeps = []\<rparr>)
   \<and> base_url demo_service = Some ''http://h''
   \<and> (\<exists>k. 0 < k \<and> k \<le> 3
        \<and> requests (snd (snd (generate_image (demo_env (\<lambda>i r. Response 200 None)) demo_service
              ''a den'' (PStr ''modern'') (PNum 7.5) PNone PNone PNone
              \<lparr>requests = [], sleeps = []\<rparr>)))
            = GET ''http://h/health''
                # replicate k (POST ''http://h/generate''
                    (PDict (generation_payload ''a den'' (PStr ''modern'') (PNum 7.5)
                              PNone PNone PNone))))
   \<and> (\<exists>k. 0 < k \<and> k \<le> 3
        \<and> requests (snd (snd (generate_image
              (demo_env (\<lambda>i r. if r = GET ''http://h'' then Response 200 None else Response 503 None))
              demo_service ''a den'' (PStr ''modern'') (PNum 7.5) PNone PNone PNone
              \<lparr>requests = [], sleeps = []\<rparr>)))
            = GET ''http://h/health'' # GET ''http://h''
                # replicate k (POST ''http://h/generate''
                    (PDict (generation_payload ''a den'' (PStr ''modern'') (PNum 7.5)
                              PNone PNone PNone))))
   \<and> generate_image (demo_env (\<lambda>i r. Response 503 None)) demo_service
         ''a den'' (PStr ''modern'') (PNum 7.5) PNone PNone PNone \<lparr>requests = [], sleeps = []\<rparr>
       = (Inr (PNone, PStr (''Backend service is currently unavailable. ''
                            @ ''Please try again later.'')), demo_service,
          \<lparr>requests = [GET ''http://h/health'', GET ''http://h''], sleeps = []\<rparr>)"
proof -
  let ?E = "demo_env (\<lambda>i r. Response 200 None)"
  let ?E3 = "demo_env (\<lambda>i r. if r = GET ''http://h'' then Response 200 None else Response 503 None)"
  let ?E4 = "demo_env (\<lambda>i r. Response 503 None)"
  let ?svc = "\<lparr>app = None, use_local_validation = False, base_url = None\<rparr>"
  let ?w = "\<lparr>requests = [], sleeps = []\<rparr>"
  have n: "no_endpoint ?E ?svc"
    by (simp add: no_endpoint_def url_set_def demo_env_def)
  have s: "fst (snd (generate_image ?E ?svc ''a den'' (PStr ''modern'') (PNum 7.5) PNone PNone PNone ?w))
             = ?svc"
    by (simp add: generate_image_def ensure_base_url_def url_set_def demo_env_def)
  note t = generate_image_payload [where E = ?E and svc = ?svc and prompt = "''a den''"
      and style = "PStr ''modern''" and gs = "PNum 7.5" and np = PNone and steps = PNone
      and seed = PNone and w = ?w]
  from t n s have first: "generate_image ?E ?svc ''a den'' (PStr ''modern'') (PNum 7.5) PNone PNone PNone ?w
     = (Inr (PNone, PStr (''Image generation is disabled because COLAB_ENDPOINT ''
                          @ ''is not configured or accessible.'')), ?svc, ?w)"
    by (metis prod.collapse)
  have bu: "base_url demo_service = Some ''http://h''" by (simp add: demo_service_def)
  have h: "net ?E (length (requests ?w)) (GET (''http://h'' @ ''/health'')) = Response 200 None"
    by (simp add: demo_env_def)
  note t2 = generate_image_payload [where E = ?E and svc = demo_service and prompt = "''a den''"
      and style = "PStr ''modern''" and gs = "PNum 7.5" and np = PNone and steps = PNone
      and seed = PNone and w = ?w and url = "''http://h''" and b = None]
  from t2 bu h have second: "\<exists>k. 0 < k \<and> k \<le> 3
        \<and> requests (snd (snd (generate_image ?E demo_service
              ''a den'' (PStr ''modern'') (PNum 7.5) PNone PNone PNone ?w)))
            = GET ''http://h/health''
                # replicate k (POST ''http://h/generate''
                    (PDict (generation_payload ''a den'' (PStr ''modern'') (PNum 7.5)
                              PNone PNone PNone)))"
    by simp
  have h3: "net ?E3 (length (requests ?w)) (GET (''http://h'' @ ''/health'')) = Response 503 None"
    "net ?E3 (Suc (length (requests ?w))) (GET ''http://h'') = Response 200 None"
    by (simp_all add: demo_env_def)
  note t3 = generate_image_payload [where E = ?E3 and svc = demo_service and prompt = "''a den''"
      and style = "PStr ''modern''" and gs = "PNum 7.5" and np = PNone and steps = PNone
      and seed = PNone and w = ?w and url = "''http://h''" and st = 503 and b = None
      and ?b2.0 = None]
  from t3 bu h3 have third: "\<exists>k. 0 < k \<and> k \<le> 3
        \<and> requests (snd (snd (generate_image ?E3 demo_service
              ''a den'' (PStr ''modern'') (PNum 7.5) PNone PNone PNone ?w)))
            = GET ''http://h/health'' # GET ''http://h''
                # replicate k (POST ''http://h/generate''
                    (PDict (generation_payload ''a den'' (PStr ''modern'') (PNum 7.5)
                              PNone PNone PNone)))"
    by simp
  have p4: "probe_url ?E4 ''http://h'' ?w
              = (Inr False, \<lparr>requests = [GET ''http://h/health'', GET ''http://h''], sleeps = []\<rparr>)"
    by (simp add: probe_url_def send_def demo_env_def)
  note t4 = generate_image_payload [where E = ?E4 and svc = demo_service and prompt = "''a den''"
      and style = "PStr ''modern''" and gs = "PNum 7.5" and np = PNone and steps = PNone
      and seed = PNone and w = ?w and url = "''http://h''"]
  from t4 bu p4 have fourth: "generate_image ?E4 demo_service
         ''a den'' (PStr ''modern'') (PNum 7.5) PNone PNone PNone ?w
       = (Inr (PNone, PStr (''Backend service is currently unavailable. ''
                            @ ''Please try again later.'')), demo_service,
          \<lparr>requests = [GET ''http://h/health'', GET ''http://h''], sleeps = []\<rparr>)"
    by simp
  show ?thesis using n first bu second third fourth by blast
qed

text \<open>
  With the defaults of the signature (\<open>style="modern"\<close>, \<open>guidance_scale=7.5\<close>, the
  rest \<open>None\<close>) the posted payload holds both \<open>style\<close> and \<open>guidance_scale\<close>.
\<close>

theorem default_guidance_scale_counterexample:
  "requests (snd (snd (generate_image
      (demo_env (\<lambda>i r. Response 200 (Some (PDict [(''image_url'', PStr ''http://h/i.png'')]))))
      demo_service ''a den'' (PStr ''modern'') (PNum 7.5) PNone PNone PNone
      \<lparr>requests = [], sleeps = []\<rparr>)))
   = [GET ''http://h/health'',
      POST ''http://h/generate''
        (PDict [(''prompt'', PStr ''a den''), (''style'', PStr ''modern''),
                (''guidance_scale'', PNum 7.5)])]"
  by (simp add: generate_image_def ensure_base_url_def url_set_def demo_env_def demo_service_def
        test_connection_def probe_url_def send_def send_request_def generation_payload_def
        numeral_3_eq_3)

lemma validate_prompt_remote:
  assumes "\<not> use_local_validation svc" and "base_url svc = Some url" and "url \<noteq> []"
    and "net E (length (requests w))
           (POST (url @ ''/validate_prompt'') (PDict [(''prompt'', PStr prompt)]))
         = Response 200 (Some body)"
  shows "validate_prompt E svc prompt w =
           (case normalize_response prompt (body, PNone) of
              Inl e \<Rightarrow> Inr (PNone, PStr (''Validation error: '' @ str_exn E e))
            | Inr out \<Rightarrow> Inr out,
            svc,
            w\<lparr>requests := requests w
               @ [POST (url @ ''/validate_prompt'') (PDict [(''prompt'', PStr prompt)])]\<rparr>)"
proof -
  have u: "url_set svc" using assms(2,3) by (simp add: url_set_def)
  have "attempts E (url @ ''/validate_prompt'') (PDict [(''prompt'', PStr prompt)]) 2 0
          (Suc (Suc (Suc 0))) w
        = ((body, PNone),
           w\<lparr>requests := requests w
              @ [POST (url @ ''/validate_prompt'') (PDict [(''prompt'', PStr prompt)])]\<rparr>)"
    using assms(4) by (simp add: send_def)
  then have "send_request E svc ''/validate_prompt'' (PDict [(''prompt'', PStr prompt)]) 3 2 w
        = (Inr (body, PNone), svc,
           w\<lparr>requests := requests w
              @ [POST (url @ ''/validate_prompt'') (PDict [(''prompt'', PStr prompt)])]\<rparr>)"
    using send_request_configured [OF assms(2,3), of E "''/validate_prompt''" _ 3 2 w]
    by (simp add: numeral_3_eq_3)
  then show ?thesis
    using assms(1) u by (simp add: validate_prompt_def ensure_noop split: sum.splits)
qed

lemma normalize_valid:
  assumes "''valid'' \<in> fst ` set kvs"
  shows "normalize_response prompt (PDict kvs, PNone) = Inr (PDict kvs, PNone)"
proof -
  have "kvs \<noteq> []" using assms by auto
  then show ?thesis using assms by (simp add: normalize_response_def)
qed

lemma map_of_key: "map_of kvs k = Some v \<Longrightarrow> k \<in> fst ` set kvs"
  by (metis domI dom_map_of_conv_image_fst)

lemma normalize_legacy:
  assumes "''valid'' \<notin> fst ` set kvs" and "map_of kvs ''prompt_score'' = Some score"
    and "py_gt_half score = Inr v"
  shows "normalize_response prompt (PDict kvs, PNone) =
     Inr (PDict
       [(''valid'', PBool v),
        (''prompt_score'', score),
        (''detected_style'', dict_get kvs ''detected_style'' (PStr ''unknown'')),
        (''style_confidence'', dict_get kvs ''style_confidence'' (PNum 0)),
        (''intent'', dict_get kvs ''intent'' (PStr ''ask'')),
        (''enhanced_prompt'', dict_get kvs ''enhanced_prompt'' (PStr prompt)),
        (''style_reasons'',
           dict_get kvs ''style_reasons'' (PList [PStr ''Based on general design elements''])),
        (''message'', dict_get kvs ''message'' (PStr ''Prompt validation completed''))], PNone)"
proof -
  have k: "''prompt_score'' \<in> fst ` set kvs" using assms(2) by (rule map_of_key)
  then have "kvs \<noteq> []" by auto
  then show ?thesis
    using assms k by (simp add: normalize_response_def adapt_result_def dict_get_def)
qed

lemma normalize_neither:
  assumes "''valid'' \<notin> fst ` set kvs" and "''prompt_score'' \<notin> fst ` set kvs"
  shows "normalize_response prompt (PDict kvs, PNone)
           = Inr (PNone, PStr ''Invalid response format from backend'')"
  using assms by (simp add: normalize_response_def)

lemma normalize_falsy:
  assumes "\<not> truthy body"
  shows "normalize_response prompt (body, PNone)
           = Inr (PNone, PStr ''Invalid response format from backend'')"
  using assms by (simp add: normalize_response_def)

lemma normalize_shape:
  "normalize_response prompt (body, PNone) = Inr out \<Longrightarrow>
     snd out = PNone \<or> out = (PNone, PStr ''Invalid response format from backend'')"
  by (auto simp: normalize_response_def split: if_splits sum.splits bool.splits)

text \<open>
  Claim C4 (as amended). Remote validation whose request is answered with status 200 and a
  JSON body. A JSON object with a \<open>valid\<close> key is passed through unchanged. An object
  without \<open>valid\<close> whose \<open>prompt_score\<close> is a number (or a boolean) is adapted:
  \<open>valid = prompt_score > 0.5\<close>, the entries present are kept and the missing ones get
  their defaults. An object with neither key, and every body that is false in Python's
  sense (\<open>null\<close>, \<open>false\<close>, \<open>0\<close>, the empty string, list or object), gives the
  failure "Invalid response format from backend". Whatever the body, the call returns: a
  result without error, or a failure whose message is the format error or
  "Validation error: " followed by the text of an exception.
\<close>

theorem validate_prompt_normalization:
  assumes "\<not> use_local_validation svc" and "base_url svc = Some url" and "url \<noteq> []"
    and "net E (length (requests w))
           (POST (url @ ''/validate_prompt'') (PDict [(''prompt'', PStr prompt)]))
         = Response 200 (Some body)"
  shows "(body = PDict kvs \<and> ''valid'' \<in> fst ` set kvs \<longrightarrow>
            fst (validate_prompt E svc prompt w) = Inr (body, PNone))
       \<and> (body = PDict kvs \<and> ''valid'' \<notin> fst ` set kvs
            \<and> map_of kvs ''prompt_score'' = Some (PNum x) \<longrightarrow>
            fst (validate_prompt E svc prompt w) =
              Inr (PDict
               [(''valid'', PBool (0.5 < x)),
                (''prompt_score'', PNum x),
                (''detected_style'', dict_get kvs ''detected_style'' (PStr ''unknown'')),
                (''style_confidence'', dict_get kvs ''style_confidence'' (PNum 0)),
                (''intent'', dict_get kvs ''intent'' (PStr ''ask'')),
                (''enhanced_prompt'', dict_get kvs ''enhanced_prompt'' (PStr prompt)),
                (''style_reasons'',
                   dict_get kvs ''style_reasons''
                     (PList [PStr ''Based on general design elements''])),
                (''message'', dict_get kvs ''message'' (PStr ''Prompt validation completed''))], PNone))
       \<and> (body = PDict kvs \<and> ''valid'' \<notin> fst ` set kvs
            \<and> map_of kvs ''prompt_score'' = Some (PBool t) \<longrightarrow>
            fst (validate_prompt E svc prompt w) =
              Inr (PDict
               [(''valid'', PBool t),
                (''prompt_score'', PBool t),
                (''detected_style'', dict_get kvs ''detected_style'' (PStr ''unknown'')),
                (''style_confidence'', dict_get kvs ''style_confidence'' (PNum 0)),
                (''intent'', dict_get kvs ''intent'' (PStr ''ask'')),
                (''enhanced_prompt'', dict_get kvs ''enhanced_prompt'' (PStr prompt)),
                (''style_reasons'',
                   dict_get kvs ''style_reasons''
                     (PList [PStr ''Based on general design elements''])),
                (''message'', dict_get kvs ''message'' (PStr ''Prompt validation completed''))], PNone))
       \<and> (body = PDict kvs \<and> ''valid'' \<notin> fst ` set kvs
            \<and> ''prompt_score'' \<notin> fst ` set kvs \<longrightarrow>
            fst (validate_prompt E svc prompt w)
              = Inr (PNone, PStr ''Invalid response format from backend''))
       \<and> (\<not> truthy body \<longrightarrow>
            fst (validate_prompt E svc prompt w)
              = Inr (PNone, PStr ''Invalid response format from backend''))
       \<and> (\<exists>res err. fst (validate_prompt E svc prompt w) = Inr (res, err)
            \<and> (err = PNone
                \<or> res = PNone
                   \<and> (err = PStr ''Invalid response format from backend''
                       \<or> (\<exists>e. err = PStr (''Validation error: '' @ str_exn E e)))))"
proof -
  note r = validate_prompt_remote [OF assms]
  have a: "body = PDict kvs \<and> ''valid'' \<in> fst ` set kvs \<longrightarrow>
            fst (validate_prompt E svc prompt w) = Inr (body, PNone)"
    using r normalize_valid [of kvs prompt] by auto
  have b: "body = PDict kvs \<and> ''valid'' \<notin> fst ` set kvs
            \<and> map_of kvs ''prompt_score'' = Some (PNum x) \<longrightarrow>
            fst (validate_prompt E svc prompt w) =
              Inr (PDict
               [(''valid'', PBool (0.5 < x)),
                (''prompt_score'', PNum x),
                (''detected_style'', dict_get kvs ''detected_style'' (PStr ''unknown'')),
                (''style_confidence'', dict_get kvs ''style_confidence'' (PNum 0)),
                (''intent'', dict_get kvs ''intent'' (PStr ''ask'')),
                (''enhanced_prompt'', dict_get kvs ''enhanced_prompt'' (PStr prompt)),
                (''style_reasons'',
                   dict_get kvs ''style_reasons''
                     (PList [PStr ''Based on general design elements''])),
                (''message'', dict_get kvs ''message'' (PStr ''Prompt validation completed''))], PNone)"
    using r normalize_legacy [of kvs "PNum x" "0.5 < x" prompt] by auto
  have c: "body = PDict kvs \<and> ''valid'' \<notin> fst ` set kvs
            \<and> map_of kvs ''prompt_score'' = Some (PBool t) \<longrightarrow>
            fst (validate_prompt E svc prompt w) =
              Inr (PDict
               [(''valid'', PBool t),
                (''prompt_score'', PBool t),
                (''detected_style'', dict_get kvs ''detected_style'' (PStr ''unknown'')),
                (''style_confidence'', dict_get kvs ''style_confidence'' (PNum 0)),
                (''intent'', dict_get kvs ''intent'' (PStr ''ask'')),
                (''enhanced_prompt'', dict_get kvs ''enhanced_prompt'' (PStr prompt)),
                (''style_reasons'',
                   dict_get kvs ''style_reasons''
                     (PList [PStr ''Based on general design elements''])),
                (''message'', dict_get kvs ''message'' (PStr ''Prompt validation completed''))], PNone)"
    using r normalize_legacy [of kvs "PBool t" t prompt] by auto
  have d: "body = PDict kvs \<and> ''valid'' \<notin> fst ` set kvs
            \<and> ''prompt_score'' \<notin> fst ` set kvs \<longrightarrow>
            fst (validate_prompt E svc prompt w)
              = Inr (PNone, PStr ''Invalid response format from backend'')"
    using r normalize_neither [of kvs prompt] by auto
  have e: "\<not> truthy body \<longrightarrow>
            fst (validate_prompt E svc prompt w)
              = Inr (PNone, PStr ''Invalid response format from backend'')"
    using r normalize_falsy [of body prompt] by auto
  have f: "\<exists>res err. fst (validate_prompt E svc prompt w) = Inr (res, err)
            \<and> (err = PNone
                \<or> res = PNone
                   \<and> (err = PStr ''Invalid response format from backend''
                       \<or> (\<exists>e. err = PStr (''Validation error: '' @ str_exn E e))))"
  proof (cases "normalize_response prompt (body, PNone)")
    case (Inl e)
    then show ?thesis using r by auto
  next
    case (Inr out)
    from normalize_shape [OF this] Inr show ?thesis
      using r by (cases out) auto
  qed
  from a b c d e f show ?thesis by blast
qed

theorem validate_prompt_normalization_witness:
  "fst (validate_prompt
          (demo_env (\<lambda>i r. Response 200
             (Some (PDict [(''prompt_score'', PNum 0.7), (''detected_style'', PStr ''coastal'')]))))
          demo_service ''a den'' \<lparr>requests = [], sleeps = []\<rparr>)
     = Inr (PDict
             [(''valid'', PBool True),
              (''prompt_score'', PNum 0.7),
              (''detected_style'', PStr ''coastal''),
              (''style_confidence'', PNum 0),
              (''intent'', PStr ''ask''),
              (''enhanced_prompt'', PStr ''a den''),
              (''style_reasons'', PList [PStr ''Based on general design elements'']),
              (''message'', PStr ''Prompt validation completed'')], PNone)
   \<and> fst (validate_prompt
          (demo_env (\<lambda>i r. Response 200 (Some (PDict [(''valid'', PBool False)]))))
          demo_service ''a den'' \<lparr>requests = [], sleeps = []\<rparr>)
     = Inr (PDict [(''valid'', PBool False)], PNone)
   \<and> fst (validate_prompt
          (demo_env (\<lambda>i r. Response 200 (Some (PDict [(''score'', PNum 1)]))))
          demo_service ''a den'' \<lparr>requests = [], sleeps = []\<rparr>)
     = Inr (PNone, PStr ''Invalid response format from backend'')"
proof -
  let ?w = "\<lparr>requests = [], sleeps = []\<rparr>"
  have s: "\<not> use_local_validation demo_service" "base_url demo_service = Some ''http://h''"
    "''http://h'' \<noteq> []"
    by (simp_all add: demo_service_def)
  have n: "net (demo_env (\<lambda>i r. Response 200 (Some b))) (length (requests ?w))
             (POST (''http://h'' @ ''/validate_prompt'') (PDict [(''prompt'', PStr ''a den'')]))
           = Response 200 (Some b)" for b
    by (simp add: demo_env_def)
  note t1 = validate_prompt_normalization [OF s n,
      where kvs = "[(''prompt_score'', PNum 0.7), (''detected_style'', PStr ''coastal'')]"
        and x = "0.7"]
  note t2 = validate_prompt_normalization [OF s n, where kvs = "[(''valid'', PBool False)]"]
  note t3 = validate_prompt_normalization [OF s n, where kvs = "[(''score'', PNum 1)]"]
  from t1 have c1: "fst (validate_prompt
          (demo_env (\<lambda>i r. Response 200
             (Some (PDict [(''prompt_score'', PNum 0.7), (''detected_style'', PStr ''coastal'')]))))
          demo_service ''a den'' ?w)
     = Inr (PDict
             [(''valid'', PBool True),
              (''prompt_score'', PNum 0.7),
              (''detected_style'', PStr ''coastal''),
              (''style_confidence'', PNum 0),
              (''intent'', PStr ''ask''),
              (''enhanced_prompt'', PStr ''a den''),
              (''style_reasons'', PList [PStr ''Based on general design elements'']),
              (''message'', PStr ''Prompt validation completed'')], PNone)"
    by (simp add: dict_get_def)
  from t2 have c2: "fst (validate_prompt
          (demo_env (\<lambda>i r. Response 200 (Some (PDict [(''valid'', PBool False)]))))
          demo_service ''a den'' ?w)
     = Inr (PDict [(''valid'', PBool False)], PNone)"
    by simp
  from t3 have c3: "fst (validate_prompt
          (demo_env (\<lambda>i r. Response 200 (Some (PDict [(''score'', PNum 1)]))))
          demo_service ''a den'' ?w)
     = Inr (PNone, PStr ''Invalid response format from backend'')"
    by simp
  from c1 c2 c3 show ?thesis by blast
qed

text \<open>
  The bodies \<open>5\<close> (neither field) and \<open>{"prompt_score": "high"}\<close> (keyed by
  \<open>prompt_score\<close>): the membership test raises on the first, the comparison on the
  second, and the handler turns both into a "Validation error" failure.
\<close>

theorem malformed_body_counterexample:
  "fst (validate_prompt (demo_env (\<lambda>i r. Response 200 (Some (PNum 5))))
          demo_service ''a den'' \<lparr>requests = [], sleeps = []\<rparr>)
     = Inr (PNone, PStr ''Validation error: error'')
   \<and> fst (validate_prompt
          (demo_env (\<lambda>i r. Response 200 (Some (PDict [(''prompt_score'', PStr ''high'')]))))
          demo_service ''a den'' \<lparr>requests = [], sleeps = []\<rparr>)
     = Inr (PNone, PStr ''Validation error: error'')
   \<and> PStr ''Validation error: error'' \<noteq> PStr ''Invalid response format from backend''"
  by (simp add: validate_prompt_def ensure_base_url_def url_set_def demo_env_def
        demo_service_def send_request_def send_def numeral_3_eq_3 normalize_response_def
        adapt_result_def dict_get_def)

section \<open>Properties of the re-ranker and the explanation\<close>

lemma lower_style_names:
  "lower ''Modern'' = ''modern''" "lower ''Industrial'' = ''industrial''"
  "lower ''Scandinavian'' = ''scandinavian''" "lower ''Rustic'' = ''rustic''"
  "lower ''Traditional'' = ''traditional''" "lower ''Mid-Century Modern'' = ''mid-century modern''"
  "lower ''Coastal'' = ''coastal''"
  by code_simp+

lemma lower_labels:
  "lower ''coastal'' = ''coastal''" "lower ''industrial'' = ''industrial''"
  "lower ''mid-century_modern'' = ''mid-century_modern''" "lower ''modern'' = ''modern''"
  "lower ''rustic'' = ''rustic''" "lower ''scandinavian'' = ''scandinavian''"
  "lower ''traditional'' = ''traditional''"
  by code_simp+

lemma title_labels:
  "title ''coastal'' = ''Coastal''" "title ''industrial'' = ''Industrial''"
  "title ''mid-century_modern'' = ''Mid-Century_Modern''" "title ''modern'' = ''Modern''"
  "title ''rustic'' = ''Rustic''" "title ''scandinavian'' = ''Scandinavian''"
  "title ''traditional'' = ''Traditional''" "title ''unknown'' = ''Unknown''"
  by code_simp+

lemma spoken_names:
  "spoken_name ''coastal'' = ''coastal''" "spoken_name ''industrial'' = ''industrial''"
  "spoken_name ''mid-century_modern'' = ''mid-century modern''"
  "spoken_name ''modern'' = ''modern''" "spoken_name ''rustic'' = ''rustic''"
  "spoken_name ''scandinavian'' = ''scandinavian''"
  "spoken_name ''traditional'' = ''traditional''"
  by (simp_all add: spoken_name_def replace_char_def)

lemma style_keywords_lookup:
  "map_of STYLE_KEYWORDS ''coastal'' = Some (remdups (concat (map snd hints_coastal)))"
  "map_of STYLE_KEYWORDS ''industrial'' = Some (remdups (concat (map snd hints_industrial)))"
  "map_of STYLE_KEYWORDS ''mid-century_modern'' = None"
  "map_of STYLE_KEYWORDS ''modern'' = Some (remdups (concat (map snd hints_modern)))"
  "map_of STYLE_KEYWORDS ''rustic'' = Some (remdups (concat (map snd hints_rustic)))"
  "map_of STYLE_KEYWORDS ''scandinavian'' = Some (remdups (concat (map snd hints_scandinavian)))"
  "map_of STYLE_KEYWORDS ''traditional'' = Some (remdups (concat (map snd hints_traditional)))"
  by (simp_all add: STYLE_KEYWORDS_def extract_keywords_from_styles_def STYLE_HINTS_def
        lower_style_names)

lemma style_hints_lookup:
  "map_of STYLE_HINTS ''Coastal'' = Some hints_coastal"
  "map_of STYLE_HINTS ''Industrial'' = Some hints_industrial"
  "map_of STYLE_HINTS ''Mid-Century_Modern'' = None"
  "map_of STYLE_HINTS ''Modern'' = Some hints_modern"
  "map_of STYLE_HINTS ''Rustic'' = Some hints_rustic"
  "map_of STYLE_HINTS ''Scandinavian'' = Some hints_scandinavian"
  "map_of STYLE_HINTS ''Traditional'' = Some hints_traditional"
  "map_of STYLE_HINTS ''Unknown'' = None"
  by (simp_all add: STYLE_HINTS_def)

lemma filter_remdups_nonempty: "(filter P (remdups xs) \<noteq> []) = list_ex P xs"
  by (simp add: filter_empty_conv list_ex_iff)

lemma list_ex_remdups: "list_ex P (remdups xs) = list_ex P xs"
  by (simp add: list_ex_iff)

lemma add_at_ok: "i < length l \<Longrightarrow> add_at l i d = Inr (l[i := l ! i + d])"
  by (simp add: add_at_def)

lemma boost_labels_total:
  "\<forall>(i, label)\<in>set ps. i < length l \<Longrightarrow>
   \<exists>l'. boost_labels lp ps l = Inr l' \<and> length l' = length l"
proof (induction ps arbitrary: l)
  case Nil
  show ?case by simp
next
  case (Cons p ps)
  obtain i label where p: "p = (i, label)" by (cases p)
  have i: "i < length l" using Cons.prems p by simp
  define l1 where "l1 = (if filter (\<lambda>k. sublist (lower k) lp)
        (case map_of STYLE_KEYWORDS (lower label) of None \<Rightarrow> [] | Some ks \<Rightarrow> ks) \<noteq> []
      then l[i := l ! i + KEYWORD_BOOST] else l)"
  define l2 where "l2 = (if sublist (spoken_name label) lp
      then l1[i := l1 ! i + LABEL_EXPLICIT_BOOST] else l1)"
  have len: "length l2 = length l" by (simp add: l1_def l2_def)
  have step: "boost_labels lp (p # ps) l = boost_labels lp ps l2"
    using i by (simp add: p l1_def l2_def add_at_ok Let_def)
  have "\<forall>(i, label)\<in>set ps. i < length l2" using Cons.prems len by simp
  from Cons.IH [OF this] show ?case using step len by simp
qed

lemma rustic_entry: "find (\<lambda>(i, l). lower l = ''rustic'') label_map = Some (4, ''rustic'')"
  by (simp add: label_map_def lower_labels)

lemma penalize_rustic_ok:
  assumes "4 < length l"
  shows "penalize_rustic lp l =
           Inr (if \<not> sublist ''rustic'' lp
                   \<and> \<not> list_ex (\<lambda>k. sublist k lp) (concat (map snd hints_rustic))
                then l[4 := l ! 4 - 1] else l)"
  using assms
  by (simp add: penalize_rustic_def rustic_entry style_keywords_lookup list_ex_remdups add_at_ok)

lemma adjust_logits_total:
  assumes "length logits = 7"
  shows "\<exists>adjusted. adjust_logits lp logits = Inr adjusted \<and> length adjusted = 7"
proof -
  have "\<forall>(i, label)\<in>set label_map. i < length logits"
    using assms by (simp add: label_map_def)
  from boost_labels_total [OF this, of lp]
  obtain b where b: "boost_labels lp label_map logits = Inr b" "length b = 7"
    using assms by auto
  then show ?thesis
    by (simp add: adjust_logits_def penalize_rustic_ok)
qed

lemma length_softmax: "length (softmax l) = length l"
  by (simp add: softmax_def)

lemma sum_exp_pos: "l \<noteq> [] \<Longrightarrow> 0 < sum_list (map exp (l :: real list))"
proof (induction l)
  case Nil
  then show ?case by simp
next
  case (Cons a l)
  have "0 \<le> sum_list (map exp l)" by (rule sum_list_nonneg) auto
  moreover have "0 < exp a" by simp
  ultimately show ?case by (simp add: add_pos_nonneg)
qed

lemma softmax_nth: "i < length l \<Longrightarrow> softmax l ! i = exp (l ! i) / sum_list (map exp l)"
  by (simp add: softmax_def)

lemma softmax_le_iff:
  assumes "i < length l" and "j < length l"
  shows "softmax l ! i \<le> softmax l ! j \<longleftrightarrow> l ! i \<le> l ! j"
proof -
  have "0 < sum_list (map exp l)" using assms by (intro sum_exp_pos) auto
  then show ?thesis using assms by (simp add: softmax_nth divide_le_cancel)
qed

lemma softmax_eq:
  assumes "i < length l" and "j < length l" and "l ! i = l ! j"
  shows "softmax l ! i = softmax l ! j"
  using assms by (simp add: softmax_nth)

lemma gather_ok:
  "\<forall>i\<in>set idxs. i < length p \<Longrightarrow> gather p idxs = Inr (map (\<lambda>i. (i, p ! i)) idxs)"
  by (induction idxs) auto

lemma set_insert_desc: "set (insert_desc x ys) = insert x (set ys)"
  by (induction ys) auto

lemma set_sort_desc: "set (sort_desc xs) = set xs"
  unfolding sort_desc_def by (induction xs) (auto simp: set_insert_desc)

lemma length_insert_desc: "length (insert_desc x ys) = Suc (length ys)"
  by (induction ys) auto

lemma length_sort_desc: "length (sort_desc xs) = length xs"
  unfolding sort_desc_def by (induction xs) (auto simp: length_insert_desc)

lemma allowed_indices_eq: "allowed_indices = [0, 1, 3, 4, 5, 6]"
  by (simp add: allowed_indices_def label_map_def ALLOWED_STYLES_def)

lemma rank_allowed_ok:
  assumes "length p = 7"
  shows "\<exists>i1 i2. rank_allowed p = Inr ((i1, p ! i1), (i2, p ! i2))
                 \<and> i1 \<in> set allowed_indices \<and> i2 \<in> set allowed_indices"
proof -
  let ?f = "map (\<lambda>i. (i, p ! i)) allowed_indices"
  have g: "gather p allowed_indices = Inr ?f"
    using assms by (intro gather_ok) (simp add: allowed_indices_eq)
  have "length (sort_desc ?f) = 6" by (simp add: length_sort_desc allowed_indices_eq)
  then obtain t1 t2 rest where s: "sort_desc ?f = t1 # t2 # rest"
    by (cases "sort_desc ?f"; cases "tl (sort_desc ?f)") auto
  have "t1 \<in> set ?f" and "t2 \<in> set ?f"
    using set_sort_desc [of ?f] s by auto
  then obtain i1 i2 where "t1 = (i1, p ! i1)" "i1 \<in> set allowed_indices"
    "t2 = (i2, p ! i2)" "i2 \<in> set allowed_indices"
    by auto
  then show ?thesis using g s by (auto simp: rank_allowed_def)
qed

lemma log_breakdown_ok: "length p = 7 \<Longrightarrow> log_breakdown p = Inr ()"
proof -
  assume a: "length p = 7"
  have "[0 ..< 7] = [0, 1, 2, 3, 4, 5, 6 :: nat]" by (simp add: upt_rec)
  then show ?thesis using a by (simp add: log_breakdown_def label_map_def)
qed

lemma label_of_values:
  "label_of 0 = ''coastal''" "label_of 1 = ''industrial''" "label_of 2 = ''mid-century_modern''"
  "label_of 3 = ''modern''" "label_of 4 = ''rustic''" "label_of 5 = ''scandinavian''"
  "label_of 6 = ''traditional''" "label_of (Suc 0) = ''industrial''"
  by (simp_all add: label_of_def label_map_def)

lemma label_of_allowed:
  "i \<in> set allowed_indices \<Longrightarrow>
   label_of i \<in> set [''coastal'', ''industrial'', ''modern'', ''rustic'', ''scandinavian'',
                      ''traditional'']"
  by (auto simp: allowed_indices_eq label_of_def label_map_def)

lemma label_of_cases:
  "label_of i \<in> set [''coastal'', ''industrial'', ''mid-century_modern'', ''modern'', ''rustic'',
                      ''scandinavian'', ''traditional'', ''unknown'']"
  by (simp add: label_of_def label_map_def)

lemma explain_no_entry:
  "explain ''mid-century_modern'' lp = Inl (UnboundLocalError ''matched_categories'')"
  "explain ''unknown'' lp = Inl (UnboundLocalError ''matched_categories'')"
  by (simp_all add: explain_def title_labels style_hints_lookup)

lemma explain_Inr_six:
  assumes "explain (label_of i) lp = Inr rs"
  shows "label_of i \<in> set [''coastal'', ''industrial'', ''modern'', ''rustic'', ''scandinavian'',
                            ''traditional'']"
  using label_of_cases [of i] assms by (auto simp: explain_no_entry)

lemma explain_nonempty: "explain style_name lp = Inr rs \<Longrightarrow> rs \<noteq> []"
  by (auto simp: explain_def Let_def split: option.splits if_splits)

lemma explicit_mentioned_range:
  "explicit_mentioned_idx lp = Some i \<Longrightarrow> i < 7"
  by (auto simp: explicit_mentioned_idx_def label_map_def split: if_splits)

lemma gather_Inr: "gather p idxs = Inr f \<Longrightarrow> map fst f = idxs"
  by (induction idxs arbitrary: f) (auto split: if_splits sum.splits)

lemma rank_allowed_indices:
  assumes "rank_allowed p = Inr (top1, top2)"
  shows "fst top1 \<in> set allowed_indices \<and> fst top2 \<in> set allowed_indices"
proof -
  obtain f where g: "gather p allowed_indices = Inr f"
    using assms by (auto simp: rank_allowed_def split: sum.splits)
  then have s: "sort_desc f = top1 # top2 # drop 2 (sort_desc f)"
    using assms by (auto simp: rank_allowed_def split: list.splits)
  have "top1 \<in> set (sort_desc f)" and "top2 \<in> set (sort_desc f)"
    by (subst s, simp)+
  then have "top1 \<in> set f" and "top2 \<in> set f" by (simp_all add: set_sort_desc)
  then have "fst top1 \<in> set (map fst f)" and "fst top2 \<in> set (map fst f)" by auto
  then show ?thesis using gather_Inr [OF g] by simp
qed

lemma label_of_mid_century: "label_of i = ''mid-century_modern'' \<longleftrightarrow> i = 2"
  by (simp add: label_of_def label_map_def)

lemma override_to_mid_century:
  assumes "rank_allowed probs = Inr (top1, top2)"
    and "label_of (fst (override_top probs explicit top1)) = ''mid-century_modern''"
  shows "explicit = Some 2 \<and> fst top1 \<noteq> 2 \<and> probs ! fst top1 - probs ! 2 < 0.1"
proof -
  have a: "fst top1 \<in> set allowed_indices" using rank_allowed_indices [OF assms(1)] by simp
  then have n2: "fst top1 \<noteq> 2" by (auto simp: allowed_indices_eq)
  have "fst (override_top probs explicit top1) = 2"
    using assms(2) by (simp add: label_of_mid_century)
  then show ?thesis using n2
    by (auto simp: override_top_def split: option.splits if_splits)
qed

lemma classify_styles_Inr:
  assumes "classify_styles prompt logits = Inr r"
  shows "\<exists>adjusted top1 top2 rs.
           adjust_logits (lower prompt) logits = Inr adjusted
           \<and> rank_allowed (softmax adjusted) = Inr (top1, top2)
           \<and> explain (label_of (fst (override_top (softmax adjusted)
                  (explicit_mentioned_idx (lower prompt)) top1))) (lower prompt) = Inr rs
           \<and> valid r
           \<and> detected_style r = label_of (fst (override_top (softmax adjusted)
                  (explicit_mentioned_idx (lower prompt)) top1))
           \<and> secondary_style r = Some (label_of (fst top2))
           \<and> style_reasons r = rs"
  using assms
  by (auto simp: classify_styles_def Let_def split: sum.splits prod.splits if_splits)

lemma valid_result_classified:
  assumes "valid (validate_prompt_locally render model raw)"
  shows "\<exists>logits. classify_styles (sanitize_prompt raw) logits
           = Inr (validate_prompt_locally render model raw)"
  using assms
  by (auto simp: validate_prompt_locally_def Let_def empty_result_def domain_result_def
        error_result_def split: sum.splits if_splits simp del: sanitize_prompt.simps)

lemma valid_styles_in_six:
  assumes "classify_styles prompt logits = Inr r"
  shows "detected_style r \<in> set [''coastal'', ''industrial'', ''modern'', ''rustic'',
                                  ''scandinavian'', ''traditional'']
       \<and> secondary_style r \<in> Some ` set [''coastal'', ''industrial'', ''modern'', ''rustic'',
                                  ''scandinavian'', ''traditional'']"
proof -
  from classify_styles_Inr [OF assms] obtain adjusted top1 top2 rs where
    r: "rank_allowed (softmax adjusted) = Inr (top1, top2)"
    and e: "explain (label_of (fst (override_top (softmax adjusted)
                  (explicit_mentioned_idx (lower prompt)) top1))) (lower prompt) = Inr rs"
    and d: "detected_style r = label_of (fst (override_top (softmax adjusted)
                  (explicit_mentioned_idx (lower prompt)) top1))"
    and s: "secondary_style r = Some (label_of (fst top2))"
    by blast
  have "label_of (fst top2) \<in> set [''coastal'', ''industrial'', ''modern'', ''rustic'',
                                  ''scandinavian'', ''traditional'']"
    using rank_allowed_indices [OF r] by (intro label_of_allowed) simp
  then show ?thesis using explain_Inr_six [OF e] d s by simp
qed

text \<open>
  Claim C10. The ranking of the allow-listed labels never selects \<open>mid-century_modern\<close>,
  neither as rank 1 nor as rank 2: the allow-list holds \<open>"mid-century"\<close>, which is not the
  label. The index handed on as the winner can be that label's only when the
  explicit-mention override has put it there (the prompt names it first, and the gap to
  rank 1 is below 0.1). Every valid result, and so every valid result for a prompt that
  does not trigger that override, has both of its styles among the six other labels.
\<close>

theorem allow_list_excludes_mid_century:
  "(rank_allowed probs = Inr (top1, top2) \<longrightarrow>
      label_of (fst top1) \<in> set [''coastal'', ''industrial'', ''modern'', ''rustic'',
                                  ''scandinavian'', ''traditional'']
      \<and> label_of (fst top2) \<in> set [''coastal'', ''industrial'', ''modern'', ''rustic'',
                                  ''scandinavian'', ''traditional''])
   \<and> (rank_allowed probs = Inr (top1, top2)
       \<and> label_of (fst (override_top probs explicit top1)) = ''mid-century_modern'' \<longrightarrow>
         explicit = Some 2 \<and> fst top1 \<noteq> 2 \<and> probs ! fst top1 - probs ! 2 < 0.1)
   \<and> (valid (validate_prompt_locally render model raw) \<longrightarrow>
         detected_style (validate_prompt_locally render model raw)
           \<in> set [''coastal'', ''industrial'', ''modern'', ''rustic'', ''scandinavian'',
                  ''traditional'']
         \<and> secondary_style (validate_prompt_locally render model raw)
           \<in> Some ` set [''coastal'', ''industrial'', ''modern'', ''rustic'', ''scandinavian'',
                  ''traditional''])"
proof (intro conjI impI)
  assume a: "rank_allowed probs = Inr (top1, top2)"
  from rank_allowed_indices [OF a]
  show "label_of (fst top1) \<in> set [''coastal'', ''industrial'', ''modern'', ''rustic'',
                                  ''scandinavian'', ''traditional'']"
    and "label_of (fst top2) \<in> set [''coastal'', ''industrial'', ''modern'', ''rustic'',
                                  ''scandinavian'', ''traditional'']"
    by (simp_all add: label_of_allowed del: set_simps)
next
  assume a: "rank_allowed probs = Inr (top1, top2)
       \<and> label_of (fst (override_top probs explicit top1)) = ''mid-century_modern''"
  from override_to_mid_century [of probs top1 top2 explicit] a
  show "explicit = Some 2" and "fst top1 \<noteq> 2" and "probs ! fst top1 - probs ! 2 < 0.1"
    by simp_all
next
  assume v: "valid (validate_prompt_locally render model raw)"
  from valid_result_classified [OF v] obtain logits where
    "classify_styles (sanitize_prompt raw) logits = Inr (validate_prompt_locally render model raw)"
    by blast
  from valid_styles_in_six [OF this]
  show "detected_style (validate_prompt_locally render model raw)
           \<in> set [''coastal'', ''industrial'', ''modern'', ''rustic'', ''scandinavian'',
                  ''traditional'']"
    and "secondary_style (validate_prompt_locally render model raw)
           \<in> Some ` set [''coastal'', ''industrial'', ''modern'', ''rustic'', ''scandinavian'',
                  ''traditional'']"
    by simp_all
qed




lemma matched_pairs_Nil: "matched_pairs lp [] = []"
  by (simp add: matched_pairs_def)

lemma matched_pairs_step:
  "matched_pairs lp (p # rest) =
     (case first_keyword lp (snd p) of None \<Rightarrow> [] | Some k \<Rightarrow> [(fst p, k)])
     @ matched_pairs lp rest"
  by (cases p) (simp add: matched_pairs_def split: option.splits)





lemma matched_pairs_empty_iff:
  "matched_pairs lp cats = [] \<longleftrightarrow> (\<forall>(c, kws)\<in>set cats. first_keyword lp kws = None)"
proof (induction cats)
  case Nil
  show ?case by (simp add: matched_pairs_Nil)
next
  case (Cons p cats)
  then show ?case
    by (cases "first_keyword lp (snd p)") (auto simp: matched_pairs_step case_prod_beta)
qed

lemma explain_known:
  assumes "map_of STYLE_HINTS (title style_name) = Some categories"
  shows "explain style_name lp =
           Inr (if matched_pairs lp categories = []
                then [''based on overall language and style structure'']
                else map (\<lambda>(category, keyword). reason category keyword)
                       (matched_pairs lp categories))"
  using assms by (simp add: explain_def Let_def)




lemma insert_desc_mono_map:
  assumes "\<And>a b. (f a \<le> f b) = (a \<le> (b::real))"
  shows "insert_desc (i, f a) (map (\<lambda>(j, x). (j, f x)) ys)
           = map (\<lambda>(j, x). (j, f x)) (insert_desc (i, a) ys)"
  by (induction ys) (auto simp: assms)

lemma sort_desc_mono_map:
  assumes "\<And>a b. (f a \<le> f b) = (a \<le> (b::real))"
  shows "sort_desc (map (\<lambda>(j, x). (j, f x)) xs) = map (\<lambda>(j, x). (j, f x)) (sort_desc xs)"
proof (induction xs)
  case Nil
  show ?case by (simp add: sort_desc_def)
next
  case (Cons p xs)
  obtain i a where p: "p = (i, a)" by (cases p)
  have "sort_desc (map (\<lambda>(j, x). (j, f x)) (p # xs))
          = insert_desc (i, f a) (sort_desc (map (\<lambda>(j, x). (j, f x)) xs))"
    by (simp add: sort_desc_def p)
  also have "\<dots> = insert_desc (i, f a) (map (\<lambda>(j, x). (j, f x)) (sort_desc xs))"
    by (simp add: Cons.IH)
  also have "\<dots> = map (\<lambda>(j, x). (j, f x)) (insert_desc (i, a) (sort_desc xs))"
    by (rule insert_desc_mono_map [OF assms])
  finally show ?case by (simp add: sort_desc_def p)
qed

lemma rank_allowed_softmax:
  assumes "length l = 7" and "rank_allowed l = Inr ((i1, a1), (i2, a2))"
  shows "rank_allowed (softmax l) = Inr ((i1, softmax l ! i1), (i2, softmax l ! i2))"
proof -
  define S where "S = sum_list (map exp l)"
  define f where "f = (\<lambda>x::real. exp x / S)"
  have S: "0 < S" unfolding S_def using assms(1) by (intro sum_exp_pos) auto
  have mono: "(f a \<le> f b) = (a \<le> b)" for a b
    using S by (simp add: f_def divide_le_cancel)
  let ?F = "map (\<lambda>i. (i, l ! i)) allowed_indices"
  have in7: "\<forall>i\<in>set allowed_indices. i < 7" by (simp add: allowed_indices_eq)
  have g: "gather l allowed_indices = Inr ?F"
    using assms(1) in7 by (intro gather_ok) simp
  have gs: "gather (softmax l) allowed_indices = Inr (map (\<lambda>(j, x). (j, f x)) ?F)"
  proof -
    have "gather (softmax l) allowed_indices = Inr (map (\<lambda>i. (i, softmax l ! i)) allowed_indices)"
      using assms(1) in7 by (intro gather_ok) (simp add: length_softmax)
    moreover have "map (\<lambda>i. (i, softmax l ! i)) allowed_indices = map (\<lambda>(j, x). (j, f x)) ?F"
      using assms(1) in7 by (simp add: softmax_nth f_def S_def)
    ultimately show ?thesis by simp
  qed
  obtain rest where s: "sort_desc ?F = (i1, a1) # (i2, a2) # rest"
    using assms(2) g by (auto simp: rank_allowed_def split: list.splits)
  have "(i1, a1) \<in> set (sort_desc ?F)" and "(i2, a2) \<in> set (sort_desc ?F)"
    by (simp_all add: s)
  then have "(i1, a1) \<in> set ?F" and "(i2, a2) \<in> set ?F"
    by (simp_all add: set_sort_desc)
  then have a: "a1 = l ! i1" "i1 < 7" "a2 = l ! i2" "i2 < 7"
    using in7 by auto
  have "sort_desc (map (\<lambda>(j, x). (j, f x)) ?F) = (i1, f a1) # (i2, f a2) # map (\<lambda>(j, x). (j, f x)) rest"
    using sort_desc_mono_map [of f ?F, OF mono] s by simp
  moreover have "f a1 = softmax l ! i1" "f a2 = softmax l ! i2"
    using a assms(1) by (simp_all add: softmax_nth f_def S_def)
  ultimately show ?thesis using gs by (simp add: rank_allowed_def)
qed

lemma explain_six:
  assumes "i < 7" and "i \<noteq> 2"
  shows "\<exists>rs. explain (label_of i) lp = Inr rs"
proof -
  have "i = 0 \<or> i = 1 \<or> i = 3 \<or> i = 4 \<or> i = 5 \<or> i = 6" using assms by arith
  then show ?thesis
    by (elim disjE)
       (simp_all add: label_of_values explain_known title_labels style_hints_lookup)
qed

subsection \<open>The override under floating-point arithmetic\<close>

text \<open>
  The statements of this subsection hold for every arithmetic: whatever the floating-point
  operations return, the boosts keep the row's length, an invalid result is the
  \<open>unknown\<close> one, and a valid result has its two styles among the six labels with hints
  and at least one reason.
\<close>

lemma add_at_with_ok: "i < length l \<Longrightarrow> add_at_with A l i d = Inr (l[i := add32 A (l ! i) d])"
  by (simp add: add_at_with_def)

lemma boost_labels_with_total:
  "\<forall>(i, label)\<in>set ps. i < length l \<Longrightarrow>
   \<exists>l'. boost_labels_with A lp ps l = Inr l' \<and> length l' = length l"
proof (induction ps arbitrary: l)
  case Nil
  show ?case by simp
next
  case (Cons p ps)
  obtain i label where p: "p = (i, label)" by (cases p)
  have i: "i < length l" using Cons.prems p by simp
  define l1 where "l1 = (if filter (\<lambda>k. sublist (lower k) lp)
        (case map_of STYLE_KEYWORDS (lower label) of None \<Rightarrow> [] | Some ks \<Rightarrow> ks) \<noteq> []
      then l[i := add32 A (l ! i) KEYWORD_BOOST] else l)"
  define l2 where "l2 = (if sublist (spoken_name label) lp
      then l1[i := add32 A (l1 ! i) LABEL_EXPLICIT_BOOST] else l1)"
  have len: "length l2 = length l" by (simp add: l1_def l2_def)
  have step: "boost_labels_with A lp (p # ps) l = boost_labels_with A lp ps l2"
    using i by (simp add: p l1_def l2_def add_at_with_ok Let_def)
  have "\<forall>(i, label)\<in>set ps. i < length l2" using Cons.prems len by simp
  from Cons.IH [OF this] show ?case using step len by simp
qed

lemma penalize_rustic_with_ok:
  assumes "4 < length l"
  shows "penalize_rustic_with A lp l =
           Inr (if \<not> sublist ''rustic'' lp
                   \<and> \<not> list_ex (\<lambda>k. sublist k lp) (concat (map snd hints_rustic))
                then l[4 := sub32 A (l ! 4) 1] else l)"
  using assms
  by (simp add: penalize_rustic_with_def rustic_entry style_keywords_lookup list_ex_remdups
        sub_at_with_def)

lemma adjust_logits_with_total:
  assumes "length logits = 7"
  shows "\<exists>adjusted. adjust_logits_with A lp logits = Inr adjusted \<and> length adjusted = 7"
proof -
  have "\<forall>(i, label)\<in>set label_map. i < length logits"
    using assms by (simp add: label_map_def)
  from boost_labels_with_total [OF this, of A lp]
  obtain b where b: "boost_labels_with A lp label_map logits = Inr b" "length b = 7"
    using assms by auto
  then show ?thesis
    by (simp add: adjust_logits_with_def penalize_rustic_with_ok)
qed

lemma length_probabilities_with: "length (probabilities_with A l) = length l"
  by (simp add: probabilities_with_def)

lemma classify_styles_with_override:
  assumes "length logits = 7"
    and "adjust_logits_with A (lower p) logits = Inr adjusted"
    and "rank_allowed (probabilities_with A adjusted) = Inr ((top1_idx, top1_conf), top2)"
    and "explicit_mentioned_idx (lower p) = Some i" and "i \<noteq> 2"
    and "i = top1_idx
         \<or> sub64 A (probabilities_with A adjusted ! top1_idx) (probabilities_with A adjusted ! i)
             < tenth A"
  shows "\<exists>r. classify_styles_with A p logits = Inr r \<and> valid r \<and> detected_style r = label_of i"
proof -
  let ?P = "probabilities_with A adjusted"
  have len: "length adjusted = 7"
    using adjust_logits_with_total [OF assms(1), of A "lower p"] assms(2) by auto
  then have ne: "?P \<noteq> []" by (auto simp: probabilities_with_def)
  have ov: "fst (override_top_with A ?P (Some i) (top1_idx, top1_conf)) = i"
    using assms(6) by (auto simp: override_top_with_def)
  have lb: "log_breakdown ?P = Inr ()"
    using len by (intro log_breakdown_ok) (simp add: length_probabilities_with)
  obtain rs where ex: "explain (label_of i) (lower p) = Inr rs"
    using explain_six [OF explicit_mentioned_range [OF assms(4)] assms(5)] by blast
  obtain j c where o: "override_top_with A ?P (Some i) (top1_idx, top1_conf) = (j, c)"
    by (cases "override_top_with A ?P (Some i) (top1_idx, top1_conf)")
  then have j: "j = i" using ov by simp
  obtain t2i t2c where t2: "top2 = (t2i, t2c)" by (cases top2)
  show ?thesis
    using assms(2,3,4) ne lb ex o j t2
    by (simp add: classify_styles_with_def Let_def)
qed

lemma classify_styles_with_Inr:
  assumes "classify_styles_with A prompt logits = Inr r"
  shows "\<exists>adjusted top1 top2 rs.
           adjust_logits_with A (lower prompt) logits = Inr adjusted
           \<and> rank_allowed (probabilities_with A adjusted) = Inr (top1, top2)
           \<and> explain (label_of (fst (override_top_with A (probabilities_with A adjusted)
                  (explicit_mentioned_idx (lower prompt)) top1))) (lower prompt) = Inr rs
           \<and> valid r \<and> intent r = ''generate''
           \<and> detected_style r = label_of (fst (override_top_with A (probabilities_with A adjusted)
                  (explicit_mentioned_idx (lower prompt)) top1))
           \<and> secondary_style r = Some (label_of (fst top2))
           \<and> style_reasons r = rs"
  using assms
  by (auto simp: classify_styles_with_def Let_def split: sum.splits prod.splits if_splits)

lemma valid_result_classified_with:
  assumes "valid (validate_prompt_locally_with A render model raw)"
  shows "\<exists>logits. classify_styles_with A (sanitize_prompt raw) logits
           = Inr (validate_prompt_locally_with A render model raw)"
  using assms
  by (auto simp: validate_prompt_locally_with_def Let_def empty_result_def domain_result_def
        error_result_def split: sum.splits if_splits simp del: sanitize_prompt.simps)

lemma invalid_result_unknown_with:
  assumes "\<not> valid (validate_prompt_locally_with A render model raw)"
  shows "detected_style (validate_prompt_locally_with A render model raw) = ''unknown''
       \<and> style_confidence (validate_prompt_locally_with A render model raw) = 0"
  using assms
  by (auto simp: validate_prompt_locally_with_def Let_def empty_result_def domain_result_def
        error_result_def dest: classify_styles_with_Inr split: sum.splits if_splits
        simp del: sanitize_prompt.simps)

lemma valid_result_with:
  assumes "valid (validate_prompt_locally_with A render model raw)"
  shows "detected_style (validate_prompt_locally_with A render model raw)
           \<in> set [''coastal'', ''industrial'', ''modern'', ''rustic'', ''scandinavian'',
                  ''traditional'']
       \<and> secondary_style (validate_prompt_locally_with A render model raw)
           \<in> Some ` set [''coastal'', ''industrial'', ''modern'', ''rustic'', ''scandinavian'',
                  ''traditional'']
       \<and> style_reasons (validate_prompt_locally_with A render model raw) \<noteq> []"
proof -
  let ?r = "validate_prompt_locally_with A render model raw"
  from valid_result_classified_with [OF assms] obtain logits where
    c: "classify_styles_with A (sanitize_prompt raw) logits = Inr ?r"
    by blast
  from classify_styles_with_Inr [OF c] obtain P top1 top2 i rs where
    r: "rank_allowed P = Inr (top1, top2)"
    and e: "explain (label_of i) (lower (sanitize_prompt raw)) = Inr rs"
    and d: "detected_style ?r = label_of i"
    and s: "secondary_style ?r = Some (label_of (fst top2))"
    and t: "style_reasons ?r = rs"
    by blast
  have "label_of (fst top2) \<in> set [''coastal'', ''industrial'', ''modern'', ''rustic'',
                                  ''scandinavian'', ''traditional'']"
    using rank_allowed_indices [OF r] by (intro label_of_allowed) simp
  then show ?thesis using explain_Inr_six [OF e] explain_nonempty [OF e] d s t by simp
qed

text \<open>
  Claim C1 (as amended). Take an in-domain prompt for which the classifier returns seven
  scores, and let \<open>L\<close> be the first label, in the order of \<open>label_map\<close>, whose name
  with underscores replaced by spaces (hyphens stay) occurs in the lower-cased prompt. If
  \<open>L\<close> is not \<open>mid-century_modern\<close> and either \<open>L\<close> is rank 1 of the allow-listed
  labels itself or the gap the code computes, the difference of the two probabilities it
  got from its softmax, taken in its own floating-point arithmetic, is below its \<open>0.1\<close>,
  the result is valid and its \<open>detected_style\<close> is \<open>L\<close>. The arithmetic is the
  parameter \<open>A\<close>: the statement is about the scores, probabilities and gap as the code
  has them, not about their exact counterparts.
\<close>

theorem explicit_mention_override:
  assumes "sanitize_prompt raw = p" and "p \<noteq> []" and "is_living_room_related p"
    and "model p = Inr logits" and "length logits = 7"
    and "adjust_logits_with A (lower p) logits = Inr adjusted"
    and "rank_allowed (probabilities_with A adjusted) = Inr ((top1_idx, top1_conf), top2)"
    and "explicit_mentioned_idx (lower p) = Some i" and "i \<noteq> 2"
    and "i = top1_idx
         \<or> sub64 A (probabilities_with A adjusted ! top1_idx) (probabilities_with A adjusted ! i)
             < tenth A"
  shows "valid (validate_prompt_locally_with A render model raw)
       \<and> detected_style (validate_prompt_locally_with A render model raw) = label_of i
       \<and> sublist (spoken_name (label_of i)) (lower p)"
proof -
  from classify_styles_with_override [OF assms(5-10)] obtain r where
    r: "classify_styles_with A p logits = Inr r" "valid r" "detected_style r = label_of i"
    by blast
  have v: "validate_prompt_locally_with A render model raw = r"
    using assms(1-4) r(1)
    by (simp add: validate_prompt_locally_with_def Let_def del: sanitize_prompt.simps)
  have "sublist (spoken_name (label_of i)) (lower p)"
    using assms(8)
    by (auto simp: explicit_mentioned_idx_def label_map_def label_of_def split: if_splits)
  then show ?thesis using v r by simp
qed

text \<open>With the exact operations the parameterised functions are the exact ones.\<close>

lemma add_at_with_exact: "add_at_with exact l i d = add_at l i d"
  by (simp add: add_at_with_def add_at_def exact_def)

lemma boost_labels_with_exact: "boost_labels_with exact lp ps l = boost_labels lp ps l"
proof (induction ps arbitrary: l)
  case Nil
  show ?case by simp
next
  case (Cons p ps)
  obtain i label where p: "p = (i, label)" by (cases p)
  show ?case
    by (simp add: p add_at_with_exact Cons.IH Let_def split: sum.splits)
qed

lemma exact_simps:
  "add32 exact = (\<lambda>x c. x + c)" "sub32 exact = (\<lambda>x c. x - c)"
  "softmax32 exact = (\<lambda>row i. softmax row ! i)" "sub64 exact = (\<lambda>a b. a - b)"
  "tenth exact = 0.1" "round3 exact = py_round3"
  by (simp_all add: exact_def)

lemma sub_at_with_exact: "sub_at_with exact l i d = add_at l i (- d)"
  by (simp add: sub_at_with_def add_at_def exact_simps)

lemma penalize_rustic_with_exact: "penalize_rustic_with exact lp l = penalize_rustic lp l"
  unfolding penalize_rustic_with_def penalize_rustic_def sub_at_with_exact ..

lemma adjust_logits_with_exact: "adjust_logits_with exact lp l = adjust_logits lp l"
  unfolding adjust_logits_with_def adjust_logits_def boost_labels_with_exact
    penalize_rustic_with_exact ..

lemma probabilities_with_exact: "probabilities_with exact l = softmax l"
proof -
  have "map ((!) (softmax l)) [0 ..< length (softmax l)] = softmax l" by (rule map_nth)
  then show ?thesis by (simp add: probabilities_with_def exact_simps length_softmax)
qed

lemma override_top_with_exact: "override_top_with exact probs e t = override_top probs e t"
  unfolding override_top_with_def override_top_def exact_simps ..

lemma classify_styles_with_exact: "classify_styles_with exact p l = classify_styles p l"
  unfolding classify_styles_with_def classify_styles_def adjust_logits_with_exact
    probabilities_with_exact override_top_with_exact exact_simps ..

lemma validate_prompt_locally_with_exact:
  "validate_prompt_locally_with exact render model raw = validate_prompt_locally render model raw"
  unfolding validate_prompt_locally_with_def validate_prompt_locally_def
    classify_styles_with_exact ..

subsection \<open>Two prompts evaluated\<close>

lemma rustic_keywords_lower:
  "map lower (concat (map snd hints_rustic)) = concat (map snd hints_rustic)"
  by (simp add: hints_rustic_def lower_def)

lemma list_ex_lowered:
  assumes "map lower ks = ks"
  shows "list_ex (\<lambda>k. sublist k lp) ks = list_ex (\<lambda>k. sublist (lower k) lp) ks"
proof -
  have "list_ex (\<lambda>k. sublist (lower k) lp) ks = list_ex (\<lambda>k. sublist k lp) (map lower ks)"
    by (simp add: list_ex_iff)
  then show ?thesis using assms by simp
qed

lemma matched_pairs_none:
  assumes "\<not> list_ex (\<lambda>k. sublist (lower k) lp) (concat (map snd cats))"
  shows "matched_pairs lp cats = []"
  unfolding matched_pairs_empty_iff first_keyword_def find_None_iff
  using assms by (auto simp: list_ex_iff)

lemma adjust_without_keywords:
  assumes "\<not> list_ex (\<lambda>k. sublist (lower k) lp) (concat (map snd hints_coastal))"
    and "\<not> list_ex (\<lambda>k. sublist (lower k) lp) (concat (map snd hints_industrial))"
    and "\<not> list_ex (\<lambda>k. sublist (lower k) lp) (concat (map snd hints_modern))"
    and "\<not> list_ex (\<lambda>k. sublist (lower k) lp) (concat (map snd hints_rustic))"
    and "\<not> list_ex (\<lambda>k. sublist (lower k) lp) (concat (map snd hints_scandinavian))"
    and "\<not> list_ex (\<lambda>k. sublist (lower k) lp) (concat (map snd hints_traditional))"
    and "\<not> sublist ''coastal'' lp" and "\<not> sublist ''industrial'' lp"
    and "sublist ''modern'' lp" and "\<not> sublist ''rustic'' lp"
    and "\<not> sublist ''scandinavian'' lp" and "\<not> sublist ''traditional'' lp"
  shows "adjust_logits lp [a, b, c, d, e, f, g]
           = Inr [a, b, if sublist ''mid-century modern'' lp then c + 2 else c, d + 2, e - 1, f, g]"
proof -
  have r: "\<not> list_ex (\<lambda>k. sublist k lp) (concat (map snd hints_rustic))"
    using assms(4) list_ex_lowered [OF rustic_keywords_lower, of lp] by simp
  have b: "boost_labels lp label_map [a, b, c, d, e, f, g]
             = Inr [a, b, if sublist ''mid-century modern'' lp then c + 2 else c, d + 2, e, f, g]"
    using assms
    by (simp add: label_map_def lower_labels style_keywords_lookup filter_remdups_nonempty
          spoken_names add_at_def LABEL_EXPLICIT_BOOST_def)
  show ?thesis
    using r assms(10) by (simp add: adjust_logits_def b penalize_rustic_ok)
qed

lemma scan_plain_coastal:
  "\<not> list_ex (\<lambda>k. sublist (lower k) ''mid century modern den'') (concat (map snd hints_coastal))"
  by (simp add: hints_coastal_def lower_def sublist_code)

lemma scan_plain_industrial:
  "\<not> list_ex (\<lambda>k. sublist (lower k) ''mid century modern den'') (concat (map snd hints_industrial))"
  by (simp add: hints_industrial_def lower_def sublist_code)

lemma scan_plain_modern:
  "\<not> list_ex (\<lambda>k. sublist (lower k) ''mid century modern den'') (concat (map snd hints_modern))"
  by (simp add: hints_modern_def lower_def sublist_code)

lemma scan_plain_rustic:
  "\<not> list_ex (\<lambda>k. sublist (lower k) ''mid century modern den'') (concat (map snd hints_rustic))"
  by (simp add: hints_rustic_def lower_def sublist_code)

lemma scan_plain_scandinavian:
  "\<not> list_ex (\<lambda>k. sublist (lower k) ''mid century modern den'') (concat (map snd hints_scandinavian))"
  by (simp add: hints_scandinavian_def lower_def sublist_code)

lemma scan_plain_traditional:
  "\<not> list_ex (\<lambda>k. sublist (lower k) ''mid century modern den'') (concat (map snd hints_traditional))"
  by (simp add: hints_traditional_def lower_def sublist_code)

lemma names_plain:
  "\<not> sublist ''coastal'' ''mid century modern den''" "\<not> sublist ''industrial'' ''mid century modern den''"
  "sublist ''modern'' ''mid century modern den''" "\<not> sublist ''rustic'' ''mid century modern den''"
  "\<not> sublist ''scandinavian'' ''mid century modern den''" "\<not> sublist ''traditional'' ''mid century modern den''"
  "sublist ''mid-century modern'' ''mid century modern den'' = False"
  by (simp_all add: sublist_code)

lemma adjust_plain:
  "adjust_logits ''mid century modern den'' [a, b, c, d, e, f, g] = Inr [a, b, c, d + 2, e - 1, f, g]"
  using adjust_without_keywords [OF scan_plain_coastal scan_plain_industrial scan_plain_modern
      scan_plain_rustic scan_plain_scandinavian scan_plain_traditional names_plain(1-6), of a b c d e f g]
  by (simp add: names_plain(7))

lemma prompt_plain:
  "sanitize_prompt (PStr ''mid century modern den'') = ''mid century modern den''"
  "is_living_room_related ''mid century modern den''"
  "lower ''mid century modern den'' = ''mid century modern den''"
  by (simp_all add: split_def strip_def is_space.simps is_living_room_related_def
        living_room_terms_def re_search_def lower_def)

lemma explicit_plain: "explicit_mentioned_idx ''mid century modern den'' = Some 3"
  by (simp add: explicit_mentioned_idx_def label_map_def spoken_names names_plain)

lemma scan_hyphen_coastal:
  "\<not> list_ex (\<lambda>k. sublist (lower k) ''mid-century modern den'') (concat (map snd hints_coastal))"
  by (simp add: hints_coastal_def lower_def sublist_code)

lemma scan_hyphen_industrial:
  "\<not> list_ex (\<lambda>k. sublist (lower k) ''mid-century modern den'') (concat (map snd hints_industrial))"
  by (simp add: hints_industrial_def lower_def sublist_code)

lemma scan_hyphen_modern:
  "\<not> list_ex (\<lambda>k. sublist (lower k) ''mid-century modern den'') (concat (map snd hints_modern))"
  by (simp add: hints_modern_def lower_def sublist_code)

lemma scan_hyphen_rustic:
  "\<not> list_ex (\<lambda>k. sublist (lower k) ''mid-century modern den'') (concat (map snd hints_rustic))"
  by (simp add: hints_rustic_def lower_def sublist_code)

lemma scan_hyphen_scandinavian:
  "\<not> list_ex (\<lambda>k. sublist (lower k) ''mid-century modern den'') (concat (map snd hints_scandinavian))"
  by (simp add: hints_scandinavian_def lower_def sublist_code)

lemma scan_hyphen_traditional:
  "\<not> list_ex (\<lambda>k. sublist (lower k) ''mid-century modern den'') (concat (map snd hints_traditional))"
  by (simp add: hints_traditional_def lower_def sublist_code)

lemma names_hyphen:
  "\<not> sublist ''coastal'' ''mid-century modern den''" "\<not> sublist ''industrial'' ''mid-century modern den''"
  "sublist ''modern'' ''mid-century modern den''" "\<not> sublist ''rustic'' ''mid-century modern den''"
  "\<not> sublist ''scandinavian'' ''mid-century modern den''" "\<not> sublist ''traditional'' ''mid-century modern den''"
  "sublist ''mid-century modern'' ''mid-century modern den'' = True"
  by (simp_all add: sublist_code)

lemma adjust_hyphen:
  "adjust_logits ''mid-century modern den'' [a, b, c, d, e, f, g] = Inr [a, b, c + 2, d + 2, e - 1, f, g]"
  using adjust_without_keywords [OF scan_hyphen_coastal scan_hyphen_industrial scan_hyphen_modern
      scan_hyphen_rustic scan_hyphen_scandinavian scan_hyphen_traditional names_hyphen(1-6), of a b c d e f g]
  by (simp add: names_hyphen(7))

lemma prompt_hyphen:
  "sanitize_prompt (PStr ''mid-century modern den'') = ''mid-century modern den''"
  "is_living_room_related ''mid-century modern den''"
  "lower ''mid-century modern den'' = ''mid-century modern den''"
  by (simp_all add: split_def strip_def is_space.simps is_living_room_related_def
        living_room_terms_def re_search_def lower_def)

lemma explicit_hyphen: "explicit_mentioned_idx ''mid-century modern den'' = Some 2"
  by (simp add: explicit_mentioned_idx_def label_map_def spoken_names names_hyphen)

lemma rank_modern_first:
  "rank_allowed [0, 0, 2, 2, - 1, 0, 0] = Inr ((3, 2), (0, 0))"
  by (simp add: rank_allowed_def allowed_indices_eq sort_desc_def)

lemma rank_coastal_first:
  "rank_allowed [2, 0, 2, 2, - 1, 0, 0] = Inr ((0, 2), (3, 2))"
  by (simp add: rank_allowed_def allowed_indices_eq sort_desc_def)

lemma softmax_rank_modern_first:
  "rank_allowed (softmax [0, 0, 2, 2, - 1, 0, 0])
     = Inr ((3, softmax [0, 0, 2, 2, - 1, 0, 0] ! 3), (0, softmax [0, 0, 2, 2, - 1, 0, 0] ! 0))"
  by (rule rank_allowed_softmax [OF _ rank_modern_first]) simp

lemma softmax_rank_coastal_first:
  "rank_allowed (softmax [2, 0, 2, 2, - 1, 0, 0])
     = Inr ((0, softmax [2, 0, 2, 2, - 1, 0, 0] ! 0), (3, softmax [2, 0, 2, 2, - 1, 0, 0] ! 3))"
  by (rule rank_allowed_softmax [OF _ rank_coastal_first]) simp

lemma gap_modern_mid_century:
  "softmax [0, 0, 2, 2, - 1, 0, 0] ! 3 - softmax [0, 0, 2, 2, - 1, 0, 0] ! 2 < 0.1"
proof -
  have "softmax [0, 0, 2, 2, - 1, 0, 0] ! 3 = softmax [0, 0, 2, 2, - 1, 0, 0] ! 2"
    by (rule softmax_eq) simp_all
  then show ?thesis by simp
qed

lemma gap_coastal_modern:
  "softmax [2, 0, 2, 2, - 1, 0, 0] ! 0 - softmax [2, 0, 2, 2, - 1, 0, 0] ! 3 < 0.1"
proof -
  have "softmax [2, 0, 2, 2, - 1, 0, 0] ! 0 = softmax [2, 0, 2, 2, - 1, 0, 0] ! 3"
    by (rule softmax_eq) simp_all
  then show ?thesis by simp
qed

lemma softmax_seven_nonempty: "softmax [a, b, c, d, e, f, g] \<noteq> []"
  by (simp add: softmax_def)

lemma explain_modern_plain:
  "explain ''modern'' ''mid century modern den''
     = Inr [''based on overall language and style structure'']"
  by (simp add: explain_known [of "''modern''" hints_modern] title_labels style_hints_lookup
        matched_pairs_none [OF scan_plain_modern])

lemma classify_plain:
  "classify_styles ''mid century modern den'' [0, 0, 2, 0, 0, 0, 0] =
     Inr \<lparr>valid = True,
          prompt_score = py_round3 (softmax [0, 0, 2, 2, - 1, 0, 0] ! 3),
          detected_style = ''modern'',
          style_confidence = py_round3 (softmax [0, 0, 2, 2, - 1, 0, 0] ! 3),
          secondary_style = Some ''coastal'',
          secondary_confidence = Some (py_round3 (softmax [0, 0, 2, 2, - 1, 0, 0] ! 0)),
          intent = ''generate'',
          style_reasons = [''based on overall language and style structure''],
          message = ''Prompt validation completed''\<rparr>"
proof -
  have lb: "log_breakdown (softmax [0, 0, 2, 2, - 1, 0, 0]) = Inr ()"
    by (rule log_breakdown_ok) (simp add: length_softmax)
  show ?thesis
    by (simp add: classify_styles_def Let_def prompt_plain adjust_plain softmax_seven_nonempty
          softmax_rank_modern_first explicit_plain override_top_def lb label_of_values
          explain_modern_plain)
qed

lemma validate_plain:
  "validate_prompt_locally render (\<lambda>p. Inr [0, 0, 2, 0, 0, 0, 0]) (PStr ''mid century modern den'') =
     \<lparr>valid = True,
      prompt_score = py_round3 (softmax [0, 0, 2, 2, - 1, 0, 0] ! 3),
      detected_style = ''modern'',
      style_confidence = py_round3 (softmax [0, 0, 2, 2, - 1, 0, 0] ! 3),
      secondary_style = Some ''coastal'',
      secondary_confidence = Some (py_round3 (softmax [0, 0, 2, 2, - 1, 0, 0] ! 0)),
      intent = ''generate'',
      style_reasons = [''based on overall language and style structure''],
      message = ''Prompt validation completed''\<rparr>"
  by (simp add: validate_prompt_locally_def prompt_plain classify_plain
        del: sanitize_prompt.simps)

lemma classify_hyphen:
  "classify_styles ''mid-century modern den'' [0, 0, 0, 0, 0, 0, 0]
     = Inl (UnboundLocalError ''matched_categories'')"
proof -
  have lb: "log_breakdown (softmax [0, 0, 2, 2, - 1, 0, 0]) = Inr ()"
    by (rule log_breakdown_ok) (simp add: length_softmax)
  show ?thesis
    using gap_modern_mid_century
    by (simp add: classify_styles_def Let_def prompt_hyphen adjust_hyphen softmax_seven_nonempty
          softmax_rank_modern_first explicit_hyphen override_top_def lb label_of_values
          explain_no_entry)
qed

text \<open>
  Claim C5, on the code: the in-domain prompt "mid-century modern den" with seven equal
  scores. The override makes \<open>mid-century_modern\<close> the winner; its title-cased name
  \<open>Mid-Century_Modern\<close> is no key of \<open>STYLE_HINTS\<close>; the fallback reason is appended,
  and the next statement reads the unbound \<open>matched_categories\<close>. The call returns the
  validation-error result, with no reason at all.
\<close>

theorem no_hint_entry_degrades:
  "is_living_room_related (sanitize_prompt (PStr ''mid-century modern den''))
   \<and> map_of STYLE_HINTS (title ''mid-century_modern'') = None
   \<and> explain ''mid-century_modern'' lp = Inl (UnboundLocalError ''matched_categories'')
   \<and> validate_prompt_locally render (\<lambda>p. Inr [0, 0, 0, 0, 0, 0, 0])
        (PStr ''mid-century modern den'')
       = error_result render (UnboundLocalError ''matched_categories'')
   \<and> \<not> valid (validate_prompt_locally render (\<lambda>p. Inr [0, 0, 0, 0, 0, 0, 0])
        (PStr ''mid-century modern den''))
   \<and> style_reasons (validate_prompt_locally render (\<lambda>p. Inr [0, 0, 0, 0, 0, 0, 0])
        (PStr ''mid-century modern den'')) = []"
proof -
  have v: "validate_prompt_locally render (\<lambda>p. Inr [0, 0, 0, 0, 0, 0, 0])
        (PStr ''mid-century modern den'')
       = error_result render (UnboundLocalError ''matched_categories'')"
    by (simp add: validate_prompt_locally_def prompt_hyphen classify_hyphen
          del: sanitize_prompt.simps)
  show ?thesis
    unfolding v
    by (simp add: prompt_hyphen title_labels style_hints_lookup explain_no_entry error_result_def
          del: sanitize_prompt.simps)
qed

theorem explicit_mention_override_witness:
  "valid (validate_prompt_locally_with exact (\<lambda>e. ''error'') (\<lambda>p. Inr [2, 0, 2, 0, 0, 0, 0])
            (PStr ''mid century modern den''))
   \<and> detected_style (validate_prompt_locally_with exact (\<lambda>e. ''error'')
            (\<lambda>p. Inr [2, 0, 2, 0, 0, 0, 0]) (PStr ''mid century modern den'')) = ''modern''
   \<and> adjust_logits_with exact (lower ''mid century modern den'') [2, 0, 2, 0, 0, 0, 0]
       = Inr [2, 0, 2, 2, - 1, 0, 0]
   \<and> rank_allowed (probabilities_with exact [2, 0, 2, 2, - 1, 0, 0])
       = Inr ((0, probabilities_with exact [2, 0, 2, 2, - 1, 0, 0] ! 0),
              (3, probabilities_with exact [2, 0, 2, 2, - 1, 0, 0] ! 3))"
proof -
  have a: "adjust_logits_with exact (lower ''mid century modern den'') [2, 0, 2, 0, 0, 0, 0]
             = Inr [2, 0, 2, 2, - 1, 0, 0]"
    by (simp add: adjust_logits_with_exact prompt_plain adjust_plain)
  have e: "explicit_mentioned_idx (lower ''mid century modern den'') = Some 3"
    by (simp add: prompt_plain explicit_plain)
  have m: "(\<lambda>p. Inr [2, 0, 2, 0, 0, 0, 0]) ''mid century modern den'' = Inr [2, 0, 2, 0, 0, 0, 0]"
    by simp
  have r: "rank_allowed (probabilities_with exact [2, 0, 2, 2, - 1, 0, 0])
       = Inr ((0, probabilities_with exact [2, 0, 2, 2, - 1, 0, 0] ! 0),
              (3, probabilities_with exact [2, 0, 2, 2, - 1, 0, 0] ! 3))"
    by (simp only: probabilities_with_exact softmax_rank_coastal_first)
  have g: "3 = (0::nat)
         \<or> sub64 exact (probabilities_with exact [2, 0, 2, 2, - 1, 0, 0] ! 0)
             (probabilities_with exact [2, 0, 2, 2, - 1, 0, 0] ! 3) < tenth exact"
    using gap_coastal_modern by (simp add: probabilities_with_exact exact_simps)
  from explicit_mention_override [where render = "\<lambda>e. ''error''" and A = exact,
      OF prompt_plain(1) _ prompt_plain(2) m _ a r e _ g]
  show ?thesis using a r by (simp add: label_of_values)
qed

text \<open>
  The prompt "mid century modern den" holds the name of \<open>mid-century_modern\<close> with both
  separators replaced by spaces, and the gap between rank 1 (\<open>modern\<close>) and that label
  is zero; the code looks for "mid-century modern", finds \<open>modern\<close> as the first label
  named, and returns \<open>modern\<close>.
\<close>

theorem explicit_mention_counterexample:
  "sublist ''mid century modern'' (lower (sanitize_prompt (PStr ''mid century modern den'')))
   \<and> adjust_logits (lower (sanitize_prompt (PStr ''mid century modern den''))) [0, 0, 2, 0, 0, 0, 0]
       = Inr [0, 0, 2, 2, - 1, 0, 0]
   \<and> rank_allowed (softmax [0, 0, 2, 2, - 1, 0, 0])
       = Inr ((3, softmax [0, 0, 2, 2, - 1, 0, 0] ! 3), (0, softmax [0, 0, 2, 2, - 1, 0, 0] ! 0))
   \<and> softmax [0, 0, 2, 2, - 1, 0, 0] ! 3 - softmax [0, 0, 2, 2, - 1, 0, 0] ! 2 < 0.1
   \<and> label_of 2 = ''mid-century_modern''
   \<and> detected_style (validate_prompt_locally (\<lambda>e. ''error'') (\<lambda>p. Inr [0, 0, 2, 0, 0, 0, 0])
        (PStr ''mid century modern den'')) = ''modern''"
proof -
  have s: "sublist ''mid century modern'' ''mid century modern den''"
    by (simp add: sublist_code)
  show ?thesis
    unfolding prompt_plain validate_plain
    using s gap_modern_mid_century
    by (simp add: adjust_plain softmax_rank_modern_first label_of_values)
qed



theorem allow_list_excludes_mid_century_witness:
  "rank_allowed (softmax [0, 0, 2, 2, - 1, 0, 0])
     = Inr ((3, softmax [0, 0, 2, 2, - 1, 0, 0] ! 3), (0, softmax [0, 0, 2, 2, - 1, 0, 0] ! 0))
   \<and> label_of 3 \<in> set [''coastal'', ''industrial'', ''modern'', ''rustic'', ''scandinavian'',
                         ''traditional'']
   \<and> label_of 0 \<in> set [''coastal'', ''industrial'', ''modern'', ''rustic'', ''scandinavian'',
                         ''traditional'']
   \<and> label_of (fst (override_top (softmax [0, 0, 2, 2, - 1, 0, 0]) (Some 2)
                       (3, softmax [0, 0, 2, 2, - 1, 0, 0] ! 3))) = ''mid-century_modern''
   \<and> softmax [0, 0, 2, 2, - 1, 0, 0] ! 3 - softmax [0, 0, 2, 2, - 1, 0, 0] ! 2 < 0.1
   \<and> valid (validate_prompt_locally (\<lambda>e. ''error'') (\<lambda>p. Inr [0, 0, 2, 0, 0, 0, 0])
        (PStr ''mid century modern den''))
   \<and> detected_style (validate_prompt_locally (\<lambda>e. ''error'') (\<lambda>p. Inr [0, 0, 2, 0, 0, 0, 0])
        (PStr ''mid century modern den''))
       \<in> set [''coastal'', ''industrial'', ''modern'', ''rustic'', ''scandinavian'',
               ''traditional'']
   \<and> secondary_style (validate_prompt_locally (\<lambda>e. ''error'') (\<lambda>p. Inr [0, 0, 2, 0, 0, 0, 0])
        (PStr ''mid century modern den''))
       \<in> Some ` set [''coastal'', ''industrial'', ''modern'', ''rustic'', ''scandinavian'',
                      ''traditional'']"
proof -
  let ?l = "[0, 0, 2, 2, - 1, 0, 0] :: real list"
  let ?v = "validate_prompt_locally (\<lambda>e. ''error'') (\<lambda>p. Inr [0, 0, 2, 0, 0, 0, 0])
        (PStr ''mid century modern den'')"
  note t = allow_list_excludes_mid_century [where probs = "softmax ?l"
      and ?top1.0 = "(3, softmax ?l ! 3)" and ?top2.0 = "(0, softmax ?l ! 0)"
      and explicit = "Some 2" and render = "\<lambda>e. ''error''"
      and model = "\<lambda>p. Inr [0, 0, 2, 0, 0, 0, 0]" and raw = "PStr ''mid century modern den''"]
  have v: "valid ?v" by (simp add: validate_plain)
  have o: "label_of (fst (override_top (softmax ?l) (Some 2) (3, softmax ?l ! 3)))
             = ''mid-century_modern''"
    using gap_modern_mid_century by (simp add: override_top_def label_of_values)
  from t softmax_rank_modern_first
  have a: "label_of (fst (3 :: nat, softmax ?l ! 3))
             \<in> set [''coastal'', ''industrial'', ''modern'', ''rustic'', ''scandinavian'',
                     ''traditional'']
           \<and> label_of (fst (0 :: nat, softmax ?l ! 0))
             \<in> set [''coastal'', ''industrial'', ''modern'', ''rustic'', ''scandinavian'',
                     ''traditional'']"
    by blast
  from t softmax_rank_modern_first o
  have b: "softmax ?l ! fst (3 :: nat, softmax ?l ! 3) - softmax ?l ! 2 < 0.1"
    by blast
  from t v have c: "detected_style ?v
       \<in> set [''coastal'', ''industrial'', ''modern'', ''rustic'', ''scandinavian'',
               ''traditional'']
     \<and> secondary_style ?v
       \<in> Some ` set [''coastal'', ''industrial'', ''modern'', ''rustic'', ''scandinavian'',
                      ''traditional'']"
    by blast
  from a b c v o softmax_rank_modern_first show ?thesis
    by (simp only: fst_conv)
qed

end
